(* ===== verification/Prelude.thy ===== *)
theory Prelude
  imports Complex_Main "HOL-Library.Multiset" "HOL-Library.Char_ord" "HOL-Library.List_Lexorder"
begin

text \<open>
  What every component shares: the result type for Python exceptions, points in time with the
  calendar arithmetic of the standard library, insertion-ordered dictionaries as association
  lists with their algebra, JSON values, and Python's truth values.  The association-list lemmas
  are declared \<open>simp\<close> or collected in \<open>dict_simps\<close>, so that the component proofs stay short.
\<close>

named_theorems dict_simps "facts about insertion-ordered dictionaries"

section \<open>Errors as values\<close>

text \<open>A Python call that may raise returns \<open>Inl\<close> the exception or \<open>Inr\<close> the value.\<close>

datatype error =
    KeyError string
  | IndexError
  | ValueError string
  | TypeError
  | QueueFull
  | QueueEmpty
  | AssertionFailed
  | UniqueViolation string
  | RuntimeError string
  | HTTPException nat string
  | VEKNAPIConnectionError string
  | VEKNAPIError string
  | UnicodeEncodeError
  | EngineRejection string string

type_synonym 'a res = "error + 'a"

definition bind_res :: "'a res \<Rightarrow> ('a \<Rightarrow> 'b res) \<Rightarrow> 'b res" where
  "bind_res r f = (case r of Inl e \<Rightarrow> Inl e | Inr x \<Rightarrow> f x)"

lemma bind_res_simps [simp]:
  "bind_res (Inl e) f = Inl e"
  "bind_res (Inr x) f = f x"
  by (simp_all add: bind_res_def)

lemma bind_res_Inr: "bind_res r f = Inr y \<longleftrightarrow> (\<exists>x. r = Inr x \<and> f x = Inr y)"
  by (cases r) simp_all

text \<open>A list comprehension whose element expression may raise.\<close>

fun map_res :: "('a \<Rightarrow> 'b res) \<Rightarrow> 'a list \<Rightarrow> 'b list res" where
  "map_res f [] = Inr []"
| "map_res f (x # xs) = bind_res (f x) (\<lambda>y. bind_res (map_res f xs) (\<lambda>ys. Inr (y # ys)))"

lemma map_res_Inr: "map_res (\<lambda>x. Inr (f x)) xs = Inr (map f xs)"
  by (induction xs) simp_all

lemma map_res_length: "map_res f xs = Inr ys \<Longrightarrow> length ys = length xs"
  by (induction xs arbitrary: ys) (auto simp: bind_res_Inr)

text \<open>A \<open>for\<close> loop over a state, left by the first exception.\<close>

fun fold_res :: "('a \<Rightarrow> 's \<Rightarrow> 's res) \<Rightarrow> 'a list \<Rightarrow> 's \<Rightarrow> 's res" where
  "fold_res f [] s = Inr s"
| "fold_res f (x # xs) s = bind_res (f x s) (fold_res f xs)"

lemma fold_res_invariant:
  assumes "fold_res f xs s = Inr t" and "P s"
    and "\<And>x s t. x \<in> set xs \<Longrightarrow> P s \<Longrightarrow> f x s = Inr t \<Longrightarrow> P t"
  shows "P t"
  using assms
proof (induction xs arbitrary: s)
  case Nil
  then show ?case by simp
next
  case (Cons x xs)
  from Cons.prems(1) obtain u where u: "f x s = Inr u" and rest: "fold_res f xs u = Inr t"
    by (auto simp: bind_res_Inr)
  have "P u" using Cons.prems(2,3) u by auto
  with rest show ?case using Cons.IH Cons.prems(3) by (metis list.set_intros(2))
qed

text \<open>
  A coroutine that writes as it goes: an exception does not undo what was written before it, so
  the state comes back with either outcome.
\<close>

type_synonym ('s, 'a) prog = "'s \<Rightarrow> 'a res \<times> 's"

definition return :: "'a \<Rightarrow> ('s, 'a) prog" where
  "return x s = (Inr x, s)"

definition raise :: "error \<Rightarrow> ('s, 'a) prog" where
  "raise e s = (Inl e, s)"

definition gets :: "('s \<Rightarrow> 'a) \<Rightarrow> ('s, 'a) prog" where
  "gets f s = (Inr (f s), s)"

definition modify :: "('s \<Rightarrow> 's) \<Rightarrow> ('s, unit) prog" where
  "modify f s = (Inr (), f s)"

definition seq :: "('s, 'a) prog \<Rightarrow> ('a \<Rightarrow> ('s, 'b) prog) \<Rightarrow> ('s, 'b) prog" where
  "seq m f s = (case m s of (Inl e, s') \<Rightarrow> (Inl e, s') | (Inr x, s') \<Rightarrow> f x s')"

text \<open>One statement: it raises before it writes.\<close>

definition atomic :: "('s \<Rightarrow> ('a \<times> 's) res) \<Rightarrow> ('s, 'a) prog" where
  "atomic f s = (case f s of Inl e \<Rightarrow> (Inl e, s) | Inr (x, s') \<Rightarrow> (Inr x, s'))"

fun for_each :: "('a \<Rightarrow> ('s, 'b) prog) \<Rightarrow> 'a list \<Rightarrow> ('s, 'b list) prog" where
  "for_each f [] = return []"
| "for_each f (x # xs) = seq (f x) (\<lambda>y. seq (for_each f xs) (\<lambda>ys. return (y # ys)))"

text \<open>\<open>preserves P m\<close>: \<open>m\<close> keeps \<open>P\<close>, even when it raises midway.\<close>

definition preserves :: "('s \<Rightarrow> bool) \<Rightarrow> ('s, 'a) prog \<Rightarrow> bool" where
  "preserves P m \<longleftrightarrow> (\<forall>s. P s \<longrightarrow> P (snd (m s)))"

lemma prog_simps [simp]:
  "return x s = (Inr x, s)"
  "raise e s = (Inl e, s)"
  "gets f s = (Inr (f s), s)"
  "modify g s = (Inr (), g s)"
  by (simp_all add: return_def raise_def gets_def modify_def)

lemma seq_simps:
  "m s = (Inl e, s') \<Longrightarrow> seq m f s = (Inl e, s')"
  "m s = (Inr x, s') \<Longrightarrow> seq m f s = f x s'"
  by (simp_all add: seq_def)

lemma preserves_return [intro, simp]: "preserves P (return x)"
  by (simp add: preserves_def)

lemma preserves_raise [intro, simp]: "preserves P (raise e)"
  by (simp add: preserves_def)

lemma preserves_gets [intro, simp]: "preserves P (gets f)"
  by (simp add: preserves_def)

lemma preserves_modify: "(\<And>s. P s \<Longrightarrow> P (f s)) \<Longrightarrow> preserves P (modify f)"
  by (simp add: preserves_def)

lemma preserves_seq [intro]:
  assumes "preserves P m" and "\<And>x. preserves P (f x)"
  shows "preserves P (seq m f)"
proof -
  have "P (snd (seq m f s))" if "P s" for s
  proof (cases "m s")
    case (Pair r s')
    with assms(1) that have "P s'" by (metis preserves_def snd_conv)
    with Pair assms(2) show ?thesis
      by (cases r) (auto simp: seq_def preserves_def)
  qed
  then show ?thesis by (simp add: preserves_def)
qed

lemma preserves_atomic:
  "(\<And>s x s'. P s \<Longrightarrow> f s = Inr (x, s') \<Longrightarrow> P s') \<Longrightarrow> preserves P (atomic f)"
  by (auto simp: preserves_def atomic_def split: sum.splits)

lemma preserves_for_each [intro]: "(\<And>x. preserves P (f x)) \<Longrightarrow> preserves P (for_each f xs)"
  by (induction xs) auto

lemma preserves_case_option [intro]:
  "preserves P n \<Longrightarrow> (\<And>x. preserves P (f x)) \<Longrightarrow> preserves P (case y of None \<Rightarrow> n | Some x \<Rightarrow> f x)"
  by (cases y) auto

lemma preserves_if [intro]:
  "preserves P m \<Longrightarrow> preserves P n \<Longrightarrow> preserves P (if b then m else n)"
  by simp

section \<open>Points in time\<close>

text \<open>
  A \<open>datetime\<close>: year, month, day and the microsecond of the day.  Comparison is lexicographic,
  which is both Python's comparison of UTC instants and PostgreSQL's of timestamps.
\<close>

datatype instant = Instant (i_year: int) (i_month: int) (i_day: int) (i_time: int)

instantiation instant :: linorder
begin

definition less_instant :: "instant \<Rightarrow> instant \<Rightarrow> bool" where
  "less_instant a b \<longleftrightarrow> i_year a < i_year b \<or> i_year a = i_year b \<and>
     (i_month a < i_month b \<or> i_month a = i_month b \<and>
       (i_day a < i_day b \<or> i_day a = i_day b \<and> i_time a < i_time b))"

definition less_eq_instant :: "instant \<Rightarrow> instant \<Rightarrow> bool" where
  "less_eq_instant a b \<longleftrightarrow> a < b \<or> a = (b :: instant)"

instance
proof
  fix a b :: instant
  show "a \<le> b \<or> b \<le> a"
    by (cases a; cases b) (auto simp: less_eq_instant_def less_instant_def)
qed (auto simp: less_eq_instant_def less_instant_def)

end

definition is_leap :: "int \<Rightarrow> bool" where
  "is_leap y \<longleftrightarrow> y mod 4 = 0 \<and> (y mod 100 \<noteq> 0 \<or> y mod 400 = 0)"

text \<open>\<open>calendar.monthrange(y, m)[1]\<close>\<close>

definition days_in_month :: "int \<Rightarrow> int \<Rightarrow> int" where
  "days_in_month y m =
     (if m = 2 then (if is_leap y then 29 else 28)
      else if m \<in> {4, 6, 9, 11} then 30 else 31)"

definition valid_instant :: "instant \<Rightarrow> bool" where
  "valid_instant t \<longleftrightarrow> 1 \<le> i_month t \<and> i_month t \<le> 12 \<and> 1 \<le> i_day t
     \<and> i_day t \<le> days_in_month (i_year t) (i_month t) \<and> 0 \<le> i_time t \<and> i_time t < 86400000000"

definition next_day :: "instant \<Rightarrow> instant" where
  "next_day t =
     (if i_day t < days_in_month (i_year t) (i_month t)
      then Instant (i_year t) (i_month t) (i_day t + 1) (i_time t)
      else if i_month t < 12 then Instant (i_year t) (i_month t + 1) 1 (i_time t)
      else Instant (i_year t + 1) 1 1 (i_time t))"

definition plus_days :: "nat \<Rightarrow> instant \<Rightarrow> instant" where
  "plus_days n t = (next_day ^^ n) t"

lemma days_in_month_bounds: "28 \<le> days_in_month y m \<and> days_in_month y m \<le> 31"
  by (simp add: days_in_month_def)

lemma next_day_later: "t < next_day t"
  by (auto simp: next_day_def less_instant_def)

lemma plus_days_later: "0 < n \<Longrightarrow> t < plus_days n t"
proof (induction n)
  case 0
  then show ?case by simp
next
  case (Suc n)
  have "plus_days n t < plus_days (Suc n) t"
    by (simp add: plus_days_def next_day_later)
  moreover have "t \<le> plus_days n t"
    using Suc.IH by (cases n) (auto simp: plus_days_def)
  ultimately show ?case by simp
qed

section \<open>Python truth values\<close>

type_synonym uid = string

definition truthy_str :: "string option \<Rightarrow> bool" where
  "truthy_str s \<longleftrightarrow> s \<noteq> None \<and> s \<noteq> Some []"

text \<open>\<open>a or b\<close> on optional strings, optional objects and lists\<close>

definition or_str :: "string option \<Rightarrow> string option \<Rightarrow> string option" where
  "or_str a b = (if truthy_str a then a else b)"

definition or_opt :: "'a option \<Rightarrow> 'a option \<Rightarrow> 'a option" where
  "or_opt a b = (case a of None \<Rightarrow> b | Some _ \<Rightarrow> a)"

definition or_list :: "'a list \<Rightarrow> 'a list \<Rightarrow> 'a list" where
  "or_list a b = (if a = [] then b else a)"

definition str_default :: "string option \<Rightarrow> string" where
  "str_default s = (case s of None \<Rightarrow> [] | Some x \<Rightarrow> x)"

lemma truthy_str_simps [simp]:
  "\<not> truthy_str None" "\<not> truthy_str (Some [])" "truthy_str (Some (c # cs))"
  by (simp_all add: truthy_str_def)

lemma truthy_str_iff: "truthy_str s \<longleftrightarrow> (\<exists>x. s = Some x \<and> x \<noteq> [])"
  by (cases s) (auto simp: truthy_str_def)

lemma or_str_truthy [simp]: "truthy_str (or_str a b) \<longleftrightarrow> truthy_str a \<or> truthy_str b"
  by (simp add: or_str_def)

section \<open>Insertion-ordered dictionaries\<close>

text \<open>
  A dictionary is the list of its items in insertion order.  Assignment to a present key
  replaces the value in place; a new key goes to the end.
\<close>

fun put :: "'k \<Rightarrow> 'v \<Rightarrow> ('k \<times> 'v) list \<Rightarrow> ('k \<times> 'v) list" where
  "put k v [] = [(k, v)]"
| "put k v ((k', v') # d) = (if k' = k then (k, v) # d else (k', v') # put k v d)"

definition del :: "'k \<Rightarrow> ('k \<times> 'v) list \<Rightarrow> ('k \<times> 'v) list" where
  "del k d = filter (\<lambda>(k', _). k' \<noteq> k) d"

definition keep_keys :: "('k \<Rightarrow> bool) \<Rightarrow> ('k \<times> 'v) list \<Rightarrow> ('k \<times> 'v) list" where
  "keep_keys p d = filter (\<lambda>(k, _). p k) d"

abbreviation keys :: "('k \<times> 'v) list \<Rightarrow> 'k list" where
  "keys d \<equiv> map fst d"

definition key_set :: "('k \<times> 'v) list \<Rightarrow> 'k set" where
  "key_set d = fst ` set d"

lemma key_set_simps [simp]:
  "key_set [] = {}"
  "key_set (kv # d) = insert (fst kv) (key_set d)"
  "key_set (d @ e) = key_set d \<union> key_set e"
  by (auto simp: key_set_def)

definition distinct_keys :: "('k \<times> 'v) list \<Rightarrow> bool" where
  "distinct_keys d \<longleftrightarrow> distinct (keys d)"

lemma distinct_keys_simps [simp]:
  "distinct_keys []"
  "distinct_keys (kv # d) \<longleftrightarrow> fst kv \<notin> key_set d \<and> distinct_keys d"
  by (simp_all add: distinct_keys_def key_set_def)

lemma map_of_None_keys: "map_of d k = None \<longleftrightarrow> k \<notin> key_set d"
  by (simp add: map_of_eq_None_iff key_set_def)

lemma map_of_Some_keys: "map_of d k = Some v \<Longrightarrow> k \<in> key_set d"
  by (metis map_of_None_keys option.discI)

lemma key_set_map_of: "k \<in> key_set d \<longleftrightarrow> (\<exists>v. map_of d k = Some v)"
  by (metis map_of_None_keys not_Some_eq)

lemma key_set_put [simp, dict_simps]: "key_set (put k v d) = insert k (key_set d)"
  by (induction k v d rule: put.induct) auto

lemma keys_put_present: "k \<in> key_set d \<Longrightarrow> keys (put k v d) = keys d"
  by (induction k v d rule: put.induct) auto

lemma keys_put_new: "k \<notin> key_set d \<Longrightarrow> put k v d = d @ [(k, v)]"
  by (induction k v d rule: put.induct) auto

lemma distinct_put [simp, dict_simps]: "distinct_keys d \<Longrightarrow> distinct_keys (put k v d)"
  by (induction k v d rule: put.induct) auto

lemma map_of_put [simp, dict_simps]: "map_of (put k v d) = (map_of d)(k \<mapsto> v)"
  by (induction k v d rule: put.induct) auto

lemma length_put: "length (put k v d) = (if k \<in> key_set d then length d else Suc (length d))"
  by (induction k v d rule: put.induct) auto

lemma keep_keys_simps [simp]:
  "keep_keys p [] = []"
  "keep_keys p (kv # d) = (if p (fst kv) then kv # keep_keys p d else keep_keys p d)"
  by (simp_all add: keep_keys_def split_beta)

lemma del_keep_keys: "del k d = keep_keys (\<lambda>k'. k' \<noteq> k) d"
  by (simp add: del_def keep_keys_def)

lemma map_of_keep_keys [simp, dict_simps]:
  "map_of (keep_keys p d) k = (if p k then map_of d k else None)"
  by (induction d) auto

lemma key_set_keep_keys [simp, dict_simps]: "key_set (keep_keys p d) = {k \<in> key_set d. p k}"
  by (induction d) auto

lemma distinct_keep_keys [simp, dict_simps]: "distinct_keys d \<Longrightarrow> distinct_keys (keep_keys p d)"
  by (induction d) auto

lemma keep_keys_keep_keys [simp, dict_simps]:
  "keep_keys p (keep_keys q d) = keep_keys (\<lambda>k. q k \<and> p k) d"
  by (induction d) auto

lemma map_of_del [simp, dict_simps]: "map_of (del k d) = (map_of d)(k := None)"
  by (rule ext) (simp add: del_keep_keys)

lemma key_set_del [simp, dict_simps]: "key_set (del k d) = key_set d - {k}"
  by (auto simp: del_keep_keys)

lemma distinct_del [simp, dict_simps]: "distinct_keys d \<Longrightarrow> distinct_keys (del k d)"
  by (simp add: del_keep_keys)

definition submap :: "('k \<times> 'v) list \<Rightarrow> ('k \<times> 'v) list \<Rightarrow> bool" where
  "submap d e \<longleftrightarrow> (\<forall>k v. map_of d k = Some v \<longrightarrow> map_of e k = Some v)"

lemma submap_keys: "submap d e \<Longrightarrow> key_set d \<subseteq> key_set e"
  unfolding submap_def key_set_map_of subset_iff by blast

lemma submap_keep_keys [intro]:
  "(\<And>k. p k \<Longrightarrow> q k) \<Longrightarrow> submap (keep_keys p d) (keep_keys q d)"
  by (auto simp: submap_def split: if_splits)

lemma submap_keep [simp]: "submap (keep_keys p d) d"
  by (auto simp: submap_def split: if_splits)

lemma submap_refl [simp]: "submap d d"
  by (simp add: submap_def)

section \<open>JSON values\<close>

text \<open>
  What \<open>msgspec.to_builtins\<close> produces.  An instant is kept as a value; its ISO text is the
  encoder's.  Scores are multiples of one half, so floating point numbers are exact rationals.
\<close>

datatype json =
    JNull
  | JBool bool
  | JInt int
  | JFloat rat
  | JStr string
  | JTime instant
  | JArr "json list"
  | JObj "(string \<times> json) list"

type_synonym dict = "(string \<times> json) list"

text \<open>\<open>bool(v)\<close> of a value read from a dictionary; a missing key reads as \<open>None\<close>\<close>

fun json_truthy :: "json \<Rightarrow> bool" where
  "json_truthy JNull = False"
| "json_truthy (JBool b) = b"
| "json_truthy (JInt i) = (i \<noteq> 0)"
| "json_truthy (JFloat r) = (r \<noteq> 0)"
| "json_truthy (JStr s) = (s \<noteq> [])"
| "json_truthy (JTime _) = True"
| "json_truthy (JArr xs) = (xs \<noteq> [])"
| "json_truthy (JObj kvs) = (kvs \<noteq> [])"

definition dict_get :: "dict \<Rightarrow> string \<Rightarrow> json" where
  "dict_get d k = (case map_of d k of None \<Rightarrow> JNull | Some v \<Rightarrow> v)"

fun json_members :: "json \<Rightarrow> json list" where
  "json_members (JArr xs) = xs"
| "json_members _ = []"

text \<open>\<open>v[k]\<close> on a decoded value\<close>

definition json_item :: "json \<Rightarrow> string \<Rightarrow> json res" where
  "json_item v k = (case v of
     JObj d \<Rightarrow> (case map_of d k of None \<Rightarrow> Inl (KeyError k) | Some x \<Rightarrow> Inr x)
   | _ \<Rightarrow> Inl TypeError)"

text \<open>the items of a nested object\<close>

fun json_obj :: "json \<Rightarrow> dict res" where
  "json_obj (JObj d) = Inr d"
| "json_obj _ = Inl TypeError"

fun json_list :: "json \<Rightarrow> json list res" where
  "json_list (JArr xs) = Inr xs"
| "json_list _ = Inl TypeError"

fun json_str :: "json \<Rightarrow> string option" where
  "json_str (JStr s) = Some s"
| "json_str _ = None"

fun json_of_opt :: "('a \<Rightarrow> json) \<Rightarrow> 'a option \<Rightarrow> json" where
  "json_of_opt f None = JNull"
| "json_of_opt f (Some x) = f x"

definition json_strs :: "string list \<Rightarrow> json" where
  "json_strs xs = JArr (map JStr xs)"

lemma json_members_strs [simp]: "json_members (json_strs xs) = map JStr xs"
  by (simp add: json_strs_def)

end
