(* ===== verification/Models.thy ===== *)
theory Models
  imports Prelude
begin

text \<open>
  The data model of \<open>backend/src/models.py\<close>: every enumeration as a datatype with its wire
  value, every \<open>msgspec.Struct\<close> as a record in the order of its fields (a Python subclass
  extends its parent's record), and \<open><record>_builtins\<close>, the dictionary
  \<open>msgspec.to_builtins\<close> makes of it: one item per field, inherited fields first.  Field names
  carry a prefix per record, because Isabelle's field names are global; the dictionary has the
  source's names.  Python sets of names are lists read as sets.
\<close>

section \<open>Enumerations\<close>

datatype object_type =
    USER | SANCTION | TOURNAMENT | DECK | LEAGUE | PROMO

fun objtype_value :: "object_type \<Rightarrow> string" where
  "objtype_value USER = ''user''"
| "objtype_value SANCTION = ''sanction''"
| "objtype_value TOURNAMENT = ''tournament''"
| "objtype_value DECK = ''deck''"
| "objtype_value LEAGUE = ''league''"
| "objtype_value PROMO = ''promo''"

lemma objtype_value_inj [simp]: "objtype_value a = objtype_value b \<longleftrightarrow> a = b"
  by (cases a; cases b) simp_all

datatype data_level =
    LV_PUBLIC | LV_MEMBER | LV_FULL

fun data_level_value :: "data_level \<Rightarrow> string" where
  "data_level_value LV_PUBLIC = ''public''"
| "data_level_value LV_MEMBER = ''member''"
| "data_level_value LV_FULL = ''full''"

lemma data_level_value_inj [simp]: "data_level_value a = data_level_value b \<longleftrightarrow> a = b"
  by (cases a; cases b) simp_all

datatype role =
    IC | NC | PRINCE | ETHICS | PTC | PT | RULEMONGER | JUDGE | SHERIFF | DEV

fun role_value :: "role \<Rightarrow> string" where
  "role_value IC = ''IC''"
| "role_value NC = ''NC''"
| "role_value PRINCE = ''Prince''"
| "role_value ETHICS = ''Ethics''"
| "role_value PTC = ''PTC''"
| "role_value PT = ''PT''"
| "role_value RULEMONGER = ''Rulemonger''"
| "role_value JUDGE = ''Judge''"
| "role_value SHERIFF = ''Sheriff''"
| "role_value DEV = ''DEV''"

lemma role_value_inj [simp]: "role_value a = role_value b \<longleftrightarrow> a = b"
  by (cases a; cases b) simp_all

datatype auth_method_type =
    AM_EMAIL | AM_DISCORD | AM_PASSKEY

fun auth_type_value :: "auth_method_type \<Rightarrow> string" where
  "auth_type_value AM_EMAIL = ''email''"
| "auth_type_value AM_DISCORD = ''discord''"
| "auth_type_value AM_PASSKEY = ''passkey''"

lemma auth_type_value_inj [simp]: "auth_type_value a = auth_type_value b \<longleftrightarrow> a = b"
  by (cases a; cases b) simp_all

datatype sanction_level =
    CAUTION | WARNING | STANDINGS_ADJUSTMENT | DISQUALIFICATION | SUSPENSION | PROBATION

fun level_value :: "sanction_level \<Rightarrow> string" where
  "level_value CAUTION = ''caution''"
| "level_value WARNING = ''warning''"
| "level_value STANDINGS_ADJUSTMENT = ''standings_adjustment''"
| "level_value DISQUALIFICATION = ''disqualification''"
| "level_value SUSPENSION = ''suspension''"
| "level_value PROBATION = ''probation''"

lemma level_value_inj [simp]: "level_value a = level_value b \<longleftrightarrow> a = b"
  by (cases a; cases b) simp_all

datatype sanction_category =
    PROCEDURAL_ERROR | TOURNAMENT_ERROR | UNSPORTSMANLIKE_CONDUCT

fun category_value :: "sanction_category \<Rightarrow> string" where
  "category_value PROCEDURAL_ERROR = ''procedural_error''"
| "category_value TOURNAMENT_ERROR = ''tournament_error''"
| "category_value UNSPORTSMANLIKE_CONDUCT = ''unsportsmanlike_conduct''"

lemma category_value_inj [simp]: "category_value a = category_value b \<longleftrightarrow> a = b"
  by (cases a; cases b) simp_all

datatype sanction_subcategory =
    MISSED_MANDATORY_EFFECT | CARD_ACCESS_ERROR | GAME_RULE_VIOLATION
    | FAILURE_TO_MAINTAIN_GAME_STATE | ILLEGAL_DECKLIST | ILLEGAL_MAIN_DECK_LEGAL_DECKLIST
    | ILLEGAL_MAIN_DECK_NO_DECKLIST | OUTSIDE_ASSISTANCE | SLOW_PLAY
    | LIMITED_PROCEDURE_VIOLATION | PUBLIC_INFO_MISCOMMUNICATION | OBSCURING_GAME_STATE
    | MARKED_CARDS | INSUFFICIENT_SHUFFLING | MINOR | MAJOR | AGGRESSIVE_BEHAVIOUR
    | BRIBERY_AND_WAGERING | THEFT_OF_TOURNAMENT_MATERIAL | STALLING | CHEATING | FRAUD
    | COLLUSION | HEALTH_AND_SAFETY_DISRUPTION | RAGE_QUITTING | FAILURE_TO_PLAY_TO_WIN

fun subcategory_value :: "sanction_subcategory \<Rightarrow> string" where
  "subcategory_value MISSED_MANDATORY_EFFECT = ''missed_mandatory_effect''"
| "subcategory_value CARD_ACCESS_ERROR = ''card_access_error''"
| "subcategory_value GAME_RULE_VIOLATION = ''game_rule_violation''"
| "subcategory_value FAILURE_TO_MAINTAIN_GAME_STATE = ''failure_to_maintain_game_state''"
| "subcategory_value ILLEGAL_DECKLIST = ''illegal_decklist''"
| "subcategory_value ILLEGAL_MAIN_DECK_LEGAL_DECKLIST = ''illegal_main_deck_legal_decklist''"
| "subcategory_value ILLEGAL_MAIN_DECK_NO_DECKLIST = ''illegal_main_deck_no_decklist''"
| "subcategory_value OUTSIDE_ASSISTANCE = ''outside_assistance''"
| "subcategory_value SLOW_PLAY = ''slow_play''"
| "subcategory_value LIMITED_PROCEDURE_VIOLATION = ''limited_procedure_violation''"
| "subcategory_value PUBLIC_INFO_MISCOMMUNICATION = ''public_info_miscommunication''"
| "subcategory_value OBSCURING_GAME_STATE = ''obscuring_game_state''"
| "subcategory_value MARKED_CARDS = ''marked_cards''"
| "subcategory_value INSUFFICIENT_SHUFFLING = ''insufficient_shuffling''"
| "subcategory_value MINOR = ''minor''"
| "subcategory_value MAJOR = ''major''"
| "subcategory_value AGGRESSIVE_BEHAVIOUR = ''aggressive_behaviour''"
| "subcategory_value BRIBERY_AND_WAGERING = ''bribery_and_wagering''"
| "subcategory_value THEFT_OF_TOURNAMENT_MATERIAL = ''theft_of_tournament_material''"
| "subcategory_value STALLING = ''stalling''"
| "subcategory_value CHEATING = ''cheating''"
| "subcategory_value FRAUD = ''fraud''"
| "subcategory_value COLLUSION = ''collusion''"
| "subcategory_value HEALTH_AND_SAFETY_DISRUPTION = ''health_and_safety_disruption''"
| "subcategory_value RAGE_QUITTING = ''rage_quitting''"
| "subcategory_value FAILURE_TO_PLAY_TO_WIN = ''failure_to_play_to_win''"

lemma subcategory_value_inj [simp]: "subcategory_value a = subcategory_value b \<longleftrightarrow> a = b"
  by (cases a; cases b) simp_all

datatype community_link_type =
    LINK_DISCORD | LINK_TELEGRAM | LINK_WHATSAPP | LINK_FORUM | LINK_FACEBOOK | LINK_WEBSITE
    | LINK_TWITCH | LINK_YOUTUBE | LINK_REDDIT | LINK_INSTAGRAM | LINK_BLOG | LINK_SPOTIFY
    | LINK_X | LINK_BLUESKY | LINK_OTHER

fun link_type_value :: "community_link_type \<Rightarrow> string" where
  "link_type_value LINK_DISCORD = ''discord''"
| "link_type_value LINK_TELEGRAM = ''telegram''"
| "link_type_value LINK_WHATSAPP = ''whatsapp''"
| "link_type_value LINK_FORUM = ''forum''"
| "link_type_value LINK_FACEBOOK = ''facebook''"
| "link_type_value LINK_WEBSITE = ''website''"
| "link_type_value LINK_TWITCH = ''twitch''"
| "link_type_value LINK_YOUTUBE = ''youtube''"
| "link_type_value LINK_REDDIT = ''reddit''"
| "link_type_value LINK_INSTAGRAM = ''instagram''"
| "link_type_value LINK_BLOG = ''blog''"
| "link_type_value LINK_SPOTIFY = ''spotify''"
| "link_type_value LINK_X = ''x''"
| "link_type_value LINK_BLUESKY = ''bluesky''"
| "link_type_value LINK_OTHER = ''other''"

lemma link_type_value_inj [simp]: "link_type_value a = link_type_value b \<longleftrightarrow> a = b"
  by (cases a; cases b) simp_all

datatype link_moderation =
    HIDDEN | NATIONAL | GLOBAL

fun moderation_value :: "link_moderation \<Rightarrow> string" where
  "moderation_value HIDDEN = ''hidden''"
| "moderation_value NATIONAL = ''national''"
| "moderation_value GLOBAL = ''global''"

lemma moderation_value_inj [simp]: "moderation_value a = moderation_value b \<longleftrightarrow> a = b"
  by (cases a; cases b) simp_all

datatype rating_category =
    CONSTRUCTED_ONLINE | CONSTRUCTED_OFFLINE | LIMITED_ONLINE | LIMITED_OFFLINE

fun rating_category_value :: "rating_category \<Rightarrow> string" where
  "rating_category_value CONSTRUCTED_ONLINE = ''constructed_online''"
| "rating_category_value CONSTRUCTED_OFFLINE = ''constructed_offline''"
| "rating_category_value LIMITED_ONLINE = ''limited_online''"
| "rating_category_value LIMITED_OFFLINE = ''limited_offline''"

lemma rating_category_value_inj [simp]: "rating_category_value a = rating_category_value b \<longleftrightarrow> a = b"
  by (cases a; cases b) simp_all

datatype league_kind =
    LK_LEAGUE | LK_META

fun league_kind_value :: "league_kind \<Rightarrow> string" where
  "league_kind_value LK_LEAGUE = ''League''"
| "league_kind_value LK_META = ''Meta-League''"

lemma league_kind_value_inj [simp]: "league_kind_value a = league_kind_value b \<longleftrightarrow> a = b"
  by (cases a; cases b) simp_all

datatype league_standings_mode =
    LM_RTP | LM_SCORE | LM_GP

fun league_mode_value :: "league_standings_mode \<Rightarrow> string" where
  "league_mode_value LM_RTP = ''RTP''"
| "league_mode_value LM_SCORE = ''Score''"
| "league_mode_value LM_GP = ''GP''"

lemma league_mode_value_inj [simp]: "league_mode_value a = league_mode_value b \<longleftrightarrow> a = b"
  by (cases a; cases b) simp_all

datatype tournament_state =
    PLANNED | REGISTRATION | WAITING | T_PLAYING | T_FINISHED

fun tstate_value :: "tournament_state \<Rightarrow> string" where
  "tstate_value PLANNED = ''Planned''"
| "tstate_value REGISTRATION = ''Registration''"
| "tstate_value WAITING = ''Waiting''"
| "tstate_value T_PLAYING = ''Playing''"
| "tstate_value T_FINISHED = ''Finished''"

lemma tstate_value_inj [simp]: "tstate_value a = tstate_value b \<longleftrightarrow> a = b"
  by (cases a; cases b) simp_all

datatype tournament_format =
    Standard | V5 | Limited | Storyline

fun format_value :: "tournament_format \<Rightarrow> string" where
  "format_value Standard = ''Standard''"
| "format_value V5 = ''V5''"
| "format_value Limited = ''Limited''"
| "format_value Storyline = ''Storyline''"

lemma format_value_inj [simp]: "format_value a = format_value b \<longleftrightarrow> a = b"
  by (cases a; cases b) simp_all

datatype tournament_rank =
    RANK_BASIC | RANK_NC | RANK_CC

fun rank_value :: "tournament_rank \<Rightarrow> string" where
  "rank_value RANK_BASIC = ''''"
| "rank_value RANK_NC = ''National Championship''"
| "rank_value RANK_CC = ''Continental Championship''"

lemma rank_value_inj [simp]: "rank_value a = rank_value b \<longleftrightarrow> a = b"
  by (cases a; cases b) simp_all

datatype standings_mode =
    SM_PRIVATE | SM_CUTOFF | SM_TOP_10 | SM_PUBLIC

fun standings_mode_value :: "standings_mode \<Rightarrow> string" where
  "standings_mode_value SM_PRIVATE = ''Private''"
| "standings_mode_value SM_CUTOFF = ''Cutoff''"
| "standings_mode_value SM_TOP_10 = ''Top 10''"
| "standings_mode_value SM_PUBLIC = ''Public''"

lemma standings_mode_value_inj [simp]: "standings_mode_value a = standings_mode_value b \<longleftrightarrow> a = b"
  by (cases a; cases b) simp_all

datatype decklists_mode =
    DL_WINNER | DL_FINALISTS | DL_ALL

fun decklists_mode_value :: "decklists_mode \<Rightarrow> string" where
  "decklists_mode_value DL_WINNER = ''Winner''"
| "decklists_mode_value DL_FINALISTS = ''Finalists''"
| "decklists_mode_value DL_ALL = ''All''"

lemma decklists_mode_value_inj [simp]: "decklists_mode_value a = decklists_mode_value b \<longleftrightarrow> a = b"
  by (cases a; cases b) simp_all

datatype player_state =
    REGISTERED | CHECKED_IN | P_PLAYING | COMPLETED | P_FINISHED | DISQUALIFIED

fun player_state_value :: "player_state \<Rightarrow> string" where
  "player_state_value REGISTERED = ''Registered''"
| "player_state_value CHECKED_IN = ''Checked-in''"
| "player_state_value P_PLAYING = ''Playing''"
| "player_state_value COMPLETED = ''Completed''"
| "player_state_value P_FINISHED = ''Finished''"
| "player_state_value DISQUALIFIED = ''Disqualified''"

lemma player_state_value_inj [simp]: "player_state_value a = player_state_value b \<longleftrightarrow> a = b"
  by (cases a; cases b) simp_all

datatype payment_status =
    PAY_PENDING | PAY_PAID | PAY_REFUNDED | PAY_CANCELLED

fun payment_value :: "payment_status \<Rightarrow> string" where
  "payment_value PAY_PENDING = ''Pending''"
| "payment_value PAY_PAID = ''Paid''"
| "payment_value PAY_REFUNDED = ''Refunded''"
| "payment_value PAY_CANCELLED = ''Cancelled''"

lemma payment_value_inj [simp]: "payment_value a = payment_value b \<longleftrightarrow> a = b"
  by (cases a; cases b) simp_all

datatype table_state =
    TS_FINISHED | TS_IN_PROGRESS | TS_INVALID | TS_CANCELLED

fun table_state_value :: "table_state \<Rightarrow> string" where
  "table_state_value TS_FINISHED = ''Finished''"
| "table_state_value TS_IN_PROGRESS = ''In Progress''"
| "table_state_value TS_INVALID = ''Invalid''"
| "table_state_value TS_CANCELLED = ''Cancelled''"

lemma table_state_value_inj [simp]: "table_state_value a = table_state_value b \<longleftrightarrow> a = b"
  by (cases a; cases b) simp_all

datatype attribution_kind =
    AK_ANONYMOUS | AK_OWNER | AK_MEMBER | AK_ARCHIVE

fun attribution_value :: "attribution_kind \<Rightarrow> string" where
  "attribution_value AK_ANONYMOUS = ''Anonymous''"
| "attribution_value AK_OWNER = ''Owner''"
| "attribution_value AK_MEMBER = ''Member''"
| "attribution_value AK_ARCHIVE = ''Archive''"

lemma attribution_value_inj [simp]: "attribution_value a = attribution_value b \<longleftrightarrow> a = b"
  by (cases a; cases b) simp_all

datatype raffle_pool =
    RP_ALL_PLAYERS | RP_NON_FINALISTS | RP_GAME_WINNERS | RP_NO_GAME_WIN | RP_NO_VICTORY_POINT

fun raffle_pool_value :: "raffle_pool \<Rightarrow> string" where
  "raffle_pool_value RP_ALL_PLAYERS = ''AllPlayers''"
| "raffle_pool_value RP_NON_FINALISTS = ''NonFinalists''"
| "raffle_pool_value RP_GAME_WINNERS = ''GameWinners''"
| "raffle_pool_value RP_NO_GAME_WIN = ''NoGameWin''"
| "raffle_pool_value RP_NO_VICTORY_POINT = ''NoVictoryPoint''"

lemma raffle_pool_value_inj [simp]: "raffle_pool_value a = raffle_pool_value b \<longleftrightarrow> a = b"
  by (cases a; cases b) simp_all

datatype twda_outcome =
    TWDA_SUBMITTED | TWDA_SKIPPED | TWDA_FAILED

fun twda_outcome_value :: "twda_outcome \<Rightarrow> string" where
  "twda_outcome_value TWDA_SUBMITTED = ''submitted''"
| "twda_outcome_value TWDA_SKIPPED = ''skipped''"
| "twda_outcome_value TWDA_FAILED = ''failed''"

lemma twda_outcome_value_inj [simp]: "twda_outcome_value a = twda_outcome_value b \<longleftrightarrow> a = b"
  by (cases a; cases b) simp_all

datatype oauth_scope =
    PROFILE_READ | PROFILE_EMAIL | EVENT_RUN | API_READ

fun oauth_scope_value :: "oauth_scope \<Rightarrow> string" where
  "oauth_scope_value PROFILE_READ = ''profile:read''"
| "oauth_scope_value PROFILE_EMAIL = ''profile:email''"
| "oauth_scope_value EVENT_RUN = ''event:run''"
| "oauth_scope_value API_READ = ''api:read''"

lemma oauth_scope_value_inj [simp]: "oauth_scope_value a = oauth_scope_value b \<longleftrightarrow> a = b"
  by (cases a; cases b) simp_all

datatype promo_kind =
    PK_CARD | PK_PACK | PK_OTHER

fun promo_kind_value :: "promo_kind \<Rightarrow> string" where
  "promo_kind_value PK_CARD = ''card''"
| "promo_kind_value PK_PACK = ''pack''"
| "promo_kind_value PK_OTHER = ''other''"

lemma promo_kind_value_inj [simp]: "promo_kind_value a = promo_kind_value b \<longleftrightarrow> a = b"
  by (cases a; cases b) simp_all

datatype promo_ledger_kind =
    INTAKE | ASSIGNMENT | DISTRIBUTION

fun ledger_kind_value :: "promo_ledger_kind \<Rightarrow> string" where
  "ledger_kind_value INTAKE = ''intake''"
| "ledger_kind_value ASSIGNMENT = ''assignment''"
| "ledger_kind_value DISTRIBUTION = ''distribution''"

lemma ledger_kind_value_inj [simp]: "ledger_kind_value a = ledger_kind_value b \<longleftrightarrow> a = b"
  by (cases a; cases b) simp_all

section \<open>Encoders for containers of basic values\<close>

definition json_ints :: "(string \<times> int) list \<Rightarrow> json" where
  "json_ints m = JObj (map (\<lambda>(k, v). (k, JInt v)) m)"

definition json_strmap :: "(string \<times> string) list \<Rightarrow> json" where
  "json_strmap m = JObj (map (\<lambda>(k, v). (k, JStr v)) m)"

section \<open>Members\<close>

record community_link =
  cl_type :: community_link_type
  cl_url :: string
  cl_label :: string
  cl_languages :: "string list"
  cl_country :: "string option"
  cl_moderation :: "link_moderation option"

definition community_link_builtins :: "community_link \<Rightarrow> dict" where
  "community_link_builtins x = [
     (''type'', JStr (link_type_value (cl_type x))),
     (''url'', JStr (cl_url x)),
     (''label'', JStr (cl_label x)),
     (''languages'', json_strs (cl_languages x)),
     (''country'', json_of_opt JStr (cl_country x)),
     (''moderation'', json_of_opt (\<lambda>v. JStr (moderation_value v)) (cl_moderation x))]"

record rating_entry =
  re_tournament_uid :: string
  re_tournament_name :: string
  re_date :: instant
  re_player_count :: int
  re_rank :: string
  re_vp :: rat
  re_gw :: int
  re_finalist_position :: int
  re_points :: int
  re_position :: int

definition rating_entry_builtins :: "rating_entry \<Rightarrow> dict" where
  "rating_entry_builtins x = [
     (''tournament_uid'', JStr (re_tournament_uid x)),
     (''tournament_name'', JStr (re_tournament_name x)),
     (''date'', JTime (re_date x)),
     (''player_count'', JInt (re_player_count x)),
     (''rank'', JStr (re_rank x)),
     (''vp'', JFloat (re_vp x)),
     (''gw'', JInt (re_gw x)),
     (''finalist_position'', JInt (re_finalist_position x)),
     (''points'', JInt (re_points x)),
     (''position'', JInt (re_position x))]"

record category_rating =
  cr_total :: int
  cr_tournaments :: "rating_entry list"

definition category_rating_builtins :: "category_rating \<Rightarrow> dict" where
  "category_rating_builtins x = [
     (''total'', JInt (cr_total x)),
     (''tournaments'', JArr (map (\<lambda>v. JObj (rating_entry_builtins v)) (cr_tournaments x)))]"

record base_object =
  uid :: string
  modified :: instant
  deleted_at :: "instant option"

record auth_method =
  am_uid :: string
  am_modified :: instant
  am_user_uid :: string
  am_method_type :: auth_method_type
  am_identifier :: string
  am_credential_hash :: "string option"
  am_verified :: bool
  am_created_at :: "instant option"
  am_last_used_at :: "instant option"
  am_sign_count :: int
  am_email :: "string option"
  am_username :: "string option"

record user = base_object +
  u_name :: string
  u_country :: "string option"
  u_vekn_id :: "string option"
  u_city :: "string option"
  u_city_geoname_id :: "int option"
  u_state :: "string option"
  u_nickname :: "string option"
  u_roles :: "role list"
  u_avatar_path :: "string option"
  u_promo_stock :: "(string \<times> int) list"
  u_contact_email :: "string option"
  u_contact_discord :: "string option"
  u_discord_id :: "string option"
  u_contact_phone :: "string option"
  u_phone_is_whatsapp :: bool
  u_github_login :: "string option"
  u_github_id :: "string option"
  u_community_links :: "community_link list"
  u_coopted_by :: "string option"
  u_coopted_at :: "instant option"
  u_deceased_at :: "instant option"
  u_deceased_by_uid :: "string option"
  u_anonymized_at :: "instant option"
  u_anonymized_by_uid :: "string option"
  u_vekn_synced :: bool
  u_vekn_synced_at :: "instant option"
  u_local_modifications :: "string list"
  u_vekn_prefix :: "string option"
  u_calendar_token :: "string option"
  u_agenda_hidden :: "string list option"
  u_agenda_added :: "string list option"
  u_constructed_online :: "category_rating option"
  u_constructed_offline :: "category_rating option"
  u_limited_online :: "category_rating option"
  u_limited_offline :: "category_rating option"
  u_wins :: "string list"

definition user_builtins :: "user \<Rightarrow> dict" where
  "user_builtins u = [
     (''uid'', JStr (uid u)),
     (''modified'', JTime (modified u)),
     (''deleted_at'', json_of_opt JTime (deleted_at u)),
     (''name'', JStr (u_name u)),
     (''country'', json_of_opt JStr (u_country u)),
     (''vekn_id'', json_of_opt JStr (u_vekn_id u)),
     (''city'', json_of_opt JStr (u_city u)),
     (''city_geoname_id'', json_of_opt JInt (u_city_geoname_id u)),
     (''state'', json_of_opt JStr (u_state u)),
     (''nickname'', json_of_opt JStr (u_nickname u)),
     (''roles'', json_strs (map role_value (u_roles u))),
     (''avatar_path'', json_of_opt JStr (u_avatar_path u)),
     (''promo_stock'', json_ints (u_promo_stock u)),
     (''contact_email'', json_of_opt JStr (u_contact_email u)),
     (''contact_discord'', json_of_opt JStr (u_contact_discord u)),
     (''discord_id'', json_of_opt JStr (u_discord_id u)),
     (''contact_phone'', json_of_opt JStr (u_contact_phone u)),
     (''phone_is_whatsapp'', JBool (u_phone_is_whatsapp u)),
     (''github_login'', json_of_opt JStr (u_github_login u)),
     (''github_id'', json_of_opt JStr (u_github_id u)),
     (''community_links'', JArr (map (\<lambda>v. JObj (community_link_builtins v)) (u_community_links u))),
     (''coopted_by'', json_of_opt JStr (u_coopted_by u)),
     (''coopted_at'', json_of_opt JTime (u_coopted_at u)),
     (''deceased_at'', json_of_opt JTime (u_deceased_at u)),
     (''deceased_by_uid'', json_of_opt JStr (u_deceased_by_uid u)),
     (''anonymized_at'', json_of_opt JTime (u_anonymized_at u)),
     (''anonymized_by_uid'', json_of_opt JStr (u_anonymized_by_uid u)),
     (''vekn_synced'', JBool (u_vekn_synced u)),
     (''vekn_synced_at'', json_of_opt JTime (u_vekn_synced_at u)),
     (''local_modifications'', json_strs (u_local_modifications u)),
     (''vekn_prefix'', json_of_opt JStr (u_vekn_prefix u)),
     (''calendar_token'', json_of_opt JStr (u_calendar_token u)),
     (''agenda_hidden'', json_of_opt json_strs (u_agenda_hidden u)),
     (''agenda_added'', json_of_opt json_strs (u_agenda_added u)),
     (''constructed_online'', json_of_opt (\<lambda>v. JObj (category_rating_builtins v)) (u_constructed_online u)),
     (''constructed_offline'', json_of_opt (\<lambda>v. JObj (category_rating_builtins v)) (u_constructed_offline u)),
     (''limited_online'', json_of_opt (\<lambda>v. JObj (category_rating_builtins v)) (u_limited_online u)),
     (''limited_offline'', json_of_opt (\<lambda>v. JObj (category_rating_builtins v)) (u_limited_offline u)),
     (''wins'', json_strs (u_wins u))]"

definition is_active_account :: "user option \<Rightarrow> bool" where
  "is_active_account ou =
     (case ou of None \<Rightarrow> False | Some u \<Rightarrow> deleted_at u = None \<and> u_anonymized_at u = None)"

section \<open>Sanctions and leagues\<close>

record score =
  sc_gw :: int
  sc_vp :: rat
  sc_tp :: int

definition score_builtins :: "score \<Rightarrow> dict" where
  "score_builtins x = [
     (''gw'', JInt (sc_gw x)),
     (''vp'', JFloat (sc_vp x)),
     (''tp'', JInt (sc_tp x))]"

record sanction = base_object +
  s_user_uid :: string
  s_issued_by_uid :: string
  s_tournament_uid :: "string option"
  s_level :: sanction_level
  s_category :: sanction_category
  s_subcategory :: "sanction_subcategory option"
  s_round_number :: "int option"
  s_description :: string
  s_issued_at :: instant
  s_expires_at :: "instant option"
  s_lifted_at :: "instant option"
  s_lifted_by_uid :: "string option"

definition sanction_builtins :: "sanction \<Rightarrow> dict" where
  "sanction_builtins s = [
     (''uid'', JStr (uid s)),
     (''modified'', JTime (modified s)),
     (''deleted_at'', json_of_opt JTime (deleted_at s)),
     (''user_uid'', JStr (s_user_uid s)),
     (''issued_by_uid'', JStr (s_issued_by_uid s)),
     (''tournament_uid'', json_of_opt JStr (s_tournament_uid s)),
     (''level'', JStr (level_value (s_level s))),
     (''category'', JStr (category_value (s_category s))),
     (''subcategory'', json_of_opt (\<lambda>v. JStr (subcategory_value v)) (s_subcategory s)),
     (''round_number'', json_of_opt JInt (s_round_number s)),
     (''description'', JStr (s_description s)),
     (''issued_at'', JTime (s_issued_at s)),
     (''expires_at'', json_of_opt JTime (s_expires_at s)),
     (''lifted_at'', json_of_opt JTime (s_lifted_at s)),
     (''lifted_by_uid'', json_of_opt JStr (s_lifted_by_uid s))]"

record league_final_seat =
  lf_player_uid :: string
  lf_result :: "score option"

definition league_final_seat_builtins :: "league_final_seat \<Rightarrow> dict" where
  "league_final_seat_builtins x = [
     (''player_uid'', JStr (lf_player_uid x)),
     (''result'', json_of_opt (\<lambda>v. JObj (score_builtins v)) (lf_result x))]"

record league_final =
  lf_seed_order :: "string list"
  lf_seating :: "league_final_seat list"
  lf_winner :: "string option"

definition league_final_builtins :: "league_final \<Rightarrow> dict" where
  "league_final_builtins x = [
     (''seed_order'', json_strs (lf_seed_order x)),
     (''seating'', JArr (map (\<lambda>v. JObj (league_final_seat_builtins v)) (lf_seating x))),
     (''winner'', json_of_opt JStr (lf_winner x))]"

record league = base_object +
  l_name :: string
  l_kind :: league_kind
  l_standings_mode :: league_standings_mode
  l_format :: "string option"
  l_country :: "string option"
  l_start :: "instant option"
  l_finish :: "instant option"
  l_description :: string
  l_organizers_uids :: "string list"
  l_parent_uid :: "string option"
  l_open_to_country_princes :: bool
  l_final :: "league_final option"

definition league_builtins :: "league \<Rightarrow> dict" where
  "league_builtins l = [
     (''uid'', JStr (uid l)),
     (''modified'', JTime (modified l)),
     (''deleted_at'', json_of_opt JTime (deleted_at l)),
     (''name'', JStr (l_name l)),
     (''kind'', JStr (league_kind_value (l_kind l))),
     (''standings_mode'', JStr (league_mode_value (l_standings_mode l))),
     (''format'', json_of_opt JStr (l_format l)),
     (''country'', json_of_opt JStr (l_country l)),
     (''start'', json_of_opt JTime (l_start l)),
     (''finish'', json_of_opt JTime (l_finish l)),
     (''description'', JStr (l_description l)),
     (''organizers_uids'', json_strs (l_organizers_uids l)),
     (''parent_uid'', json_of_opt JStr (l_parent_uid l)),
     (''open_to_country_princes'', JBool (l_open_to_country_princes l)),
     (''final'', json_of_opt (\<lambda>v. JObj (league_final_builtins v)) (l_final l))]"

section \<open>Tournaments\<close>

record room =
  room_name :: string
  room_count :: int

definition room_builtins :: "room \<Rightarrow> dict" where
  "room_builtins x = [
     (''name'', JStr (room_name x)),
     (''count'', JInt (room_count x))]"

record player =
  pl_user_uid :: "string option"
  pl_state :: player_state
  pl_payment_status :: payment_status
  pl_toss :: int
  pl_result :: score
  pl_finalist :: bool
  pl_display_name :: "string option"
  pl_non_competing :: bool
  pl_missing_decklist :: bool
  pl_waitlisted :: bool

definition player_builtins :: "player \<Rightarrow> dict" where
  "player_builtins x = [
     (''user_uid'', json_of_opt JStr (pl_user_uid x)),
     (''state'', JStr (player_state_value (pl_state x))),
     (''payment_status'', JStr (payment_value (pl_payment_status x))),
     (''toss'', JInt (pl_toss x)),
     (''result'', JObj (score_builtins (pl_result x))),
     (''finalist'', JBool (pl_finalist x)),
     (''display_name'', json_of_opt JStr (pl_display_name x)),
     (''non_competing'', JBool (pl_non_competing x)),
     (''missing_decklist'', JBool (pl_missing_decklist x)),
     (''waitlisted'', JBool (pl_waitlisted x))]"

record seat =
  seat_player_uid :: string
  seat_result :: score
  seat_judge_uid :: string

definition seat_builtins :: "seat \<Rightarrow> dict" where
  "seat_builtins x = [
     (''player_uid'', JStr (seat_player_uid x)),
     (''result'', JObj (score_builtins (seat_result x))),
     (''judge_uid'', JStr (seat_judge_uid x))]"

record score_override =
  so_judge_uid :: string
  so_comment :: string

definition score_override_builtins :: "score_override \<Rightarrow> dict" where
  "score_override_builtins x = [
     (''judge_uid'', JStr (so_judge_uid x)),
     (''comment'', JStr (so_comment x))]"

record table =
  tb_seating :: "seat list"
  tb_state :: table_state
  tb_override :: "score_override option"
  tb_organized_by :: "string option"

definition table_builtins :: "table \<Rightarrow> dict" where
  "table_builtins x = [
     (''seating'', JArr (map (\<lambda>v. JObj (seat_builtins v)) (tb_seating x))),
     (''state'', JStr (table_state_value (tb_state x))),
     (''override'', json_of_opt (\<lambda>v. JObj (score_override_builtins v)) (tb_override x)),
     (''organized_by'', json_of_opt JStr (tb_organized_by x))]"

record finals_table = table +
  tb_seed_order :: "string list"

definition finals_table_builtins :: "finals_table \<Rightarrow> dict" where
  "finals_table_builtins x = [
     (''seating'', JArr (map (\<lambda>v. JObj (seat_builtins v)) (tb_seating x))),
     (''state'', JStr (table_state_value (tb_state x))),
     (''override'', json_of_opt (\<lambda>v. JObj (score_override_builtins v)) (tb_override x)),
     (''organized_by'', json_of_opt JStr (tb_organized_by x)),
     (''seed_order'', json_strs (tb_seed_order x))]"

record standing =
  st_user_uid :: string
  st_gw :: rat
  st_vp :: rat
  st_tp :: int
  st_toss :: int
  st_finalist :: bool
  st_disqualified :: bool
  st_non_competing :: bool
  st_withdrawn :: bool

definition standing_builtins :: "standing \<Rightarrow> dict" where
  "standing_builtins x = [
     (''user_uid'', JStr (st_user_uid x)),
     (''gw'', JFloat (st_gw x)),
     (''vp'', JFloat (st_vp x)),
     (''tp'', JInt (st_tp x)),
     (''toss'', JInt (st_toss x)),
     (''finalist'', JBool (st_finalist x)),
     (''disqualified'', JBool (st_disqualified x)),
     (''non_competing'', JBool (st_non_competing x)),
     (''withdrawn'', JBool (st_withdrawn x))]"

record raffle_draw =
  rd_label :: string
  rd_pool :: raffle_pool
  rd_winners :: "string list"
  rd_prize_promo_uid :: "string option"

definition raffle_draw_builtins :: "raffle_draw \<Rightarrow> dict" where
  "raffle_draw_builtins x = [
     (''label'', JStr (rd_label x)),
     (''pool'', JStr (raffle_pool_value (rd_pool x))),
     (''winners'', json_strs (rd_winners x)),
     (''prize_promo_uid'', json_of_opt JStr (rd_prize_promo_uid x))]"

record promo_distribution =
  pd_promo_uid :: string
  pd_qty :: int

definition promo_distribution_builtins :: "promo_distribution \<Rightarrow> dict" where
  "promo_distribution_builtins x = [
     (''promo_uid'', JStr (pd_promo_uid x)),
     (''qty'', JInt (pd_qty x))]"

record twda_status =
  tw_outcome :: twda_outcome
  tw_reason :: string
  tw_pr_url :: string
  tw_at :: "instant option"

definition twda_status_builtins :: "twda_status \<Rightarrow> dict" where
  "twda_status_builtins x = [
     (''outcome'', JStr (twda_outcome_value (tw_outcome x))),
     (''reason'', JStr (tw_reason x)),
     (''pr_url'', JStr (tw_pr_url x)),
     (''at'', json_of_opt JTime (tw_at x))]"

record timer_state =
  tm_started_at :: "instant option"
  tm_elapsed_before_pause :: rat
  tm_paused :: bool

definition timer_state_builtins :: "timer_state \<Rightarrow> dict" where
  "timer_state_builtins x = [
     (''started_at'', json_of_opt JTime (tm_started_at x)),
     (''elapsed_before_pause'', JFloat (tm_elapsed_before_pause x)),
     (''paused'', JBool (tm_paused x))]"

record announcement =
  an_id :: string
  an_body :: string
  an_created_at :: instant
  an_author_uid :: string
  an_author_name :: string

definition announcement_builtins :: "announcement \<Rightarrow> dict" where
  "announcement_builtins x = [
     (''id'', JStr (an_id x)),
     (''body'', JStr (an_body x)),
     (''created_at'', JTime (an_created_at x)),
     (''author_uid'', JStr (an_author_uid x)),
     (''author_name'', JStr (an_author_name x))]"

record tournament_minimal = base_object +
  t_name :: string
  t_format :: tournament_format
  t_rank :: tournament_rank
  t_online :: bool
  t_start :: "instant option"
  t_finish :: "instant option"
  t_timezone :: string
  t_country :: "string option"
  t_city :: "string option"
  t_city_geoname_id :: "int option"
  t_league_uid :: "string option"
  t_state :: tournament_state

record tournament_config = tournament_minimal +
  t_organizers_uids :: "string list"
  t_venue :: string
  t_venue_url :: string
  t_address :: string
  t_map_url :: string
  t_registration_url :: string
  t_proxies :: bool
  t_multideck :: bool
  t_decklist_required :: bool
  t_description :: string
  t_standings_mode :: standings_mode
  t_decklists_mode :: decklists_mode
  t_max_rounds :: int
  t_max_players :: int
  t_open_rounds :: bool
  t_self_organized_rounds :: bool
  t_table_rooms :: "room list"
  t_first_table_number :: int
  t_continue_room_numbering :: bool
  t_round_time :: int
  t_finals_time :: int

record tournament = tournament_config +
  t_banner_path :: "string option"
  t_external_ids :: "(string \<times> string) list"
  t_event_code :: string
  t_checkin_code :: string
  t_players :: "player list"
  t_rounds :: "table list list"
  t_finals :: "finals_table option"
  t_winner :: string
  t_standings :: "standing list"
  t_reported_player_count :: int
  t_raffles :: "raffle_draw list"
  t_promos_distributed :: "promo_distribution list"
  t_promo_stock_source_uid :: string
  t_vekn_pushed_at :: "instant option"
  t_vekn_results_stale :: bool
  t_vekn_event_absent_at :: "instant option"
  t_twda_status :: "twda_status option"
  t_offline_mode :: bool
  t_offline_device_id :: string
  t_offline_user_uid :: string
  t_offline_since :: "instant option"
  t_timer :: timer_state
  t_table_extra_time :: "(string \<times> int) list"
  t_announcements :: "announcement list"

definition tournament_builtins :: "tournament \<Rightarrow> dict" where
  "tournament_builtins t = [
     (''uid'', JStr (uid t)),
     (''modified'', JTime (modified t)),
     (''deleted_at'', json_of_opt JTime (deleted_at t)),
     (''name'', JStr (t_name t)),
     (''format'', JStr (format_value (t_format t))),
     (''rank'', JStr (rank_value (t_rank t))),
     (''online'', JBool (t_online t)),
     (''start'', json_of_opt JTime (t_start t)),
     (''finish'', json_of_opt JTime (t_finish t)),
     (''timezone'', JStr (t_timezone t)),
     (''country'', json_of_opt JStr (t_country t)),
     (''city'', json_of_opt JStr (t_city t)),
     (''city_geoname_id'', json_of_opt JInt (t_city_geoname_id t)),
     (''league_uid'', json_of_opt JStr (t_league_uid t)),
     (''state'', JStr (tstate_value (t_state t))),
     (''organizers_uids'', json_strs (t_organizers_uids t)),
     (''venue'', JStr (t_venue t)),
     (''venue_url'', JStr (t_venue_url t)),
     (''address'', JStr (t_address t)),
     (''map_url'', JStr (t_map_url t)),
     (''registration_url'', JStr (t_registration_url t)),
     (''proxies'', JBool (t_proxies t)),
     (''multideck'', JBool (t_multideck t)),
     (''decklist_required'', JBool (t_decklist_required t)),
     (''description'', JStr (t_description t)),
     (''standings_mode'', JStr (standings_mode_value (t_standings_mode t))),
     (''decklists_mode'', JStr (decklists_mode_value (t_decklists_mode t))),
     (''max_rounds'', JInt (t_max_rounds t)),
     (''max_players'', JInt (t_max_players t)),
     (''open_rounds'', JBool (t_open_rounds t)),
     (''self_organized_rounds'', JBool (t_self_organized_rounds t)),
     (''table_rooms'', JArr (map (\<lambda>v. JObj (room_builtins v)) (t_table_rooms t))),
     (''first_table_number'', JInt (t_first_table_number t)),
     (''continue_room_numbering'', JBool (t_continue_room_numbering t)),
     (''round_time'', JInt (t_round_time t)),
     (''finals_time'', JInt (t_finals_time t)),
     (''banner_path'', json_of_opt JStr (t_banner_path t)),
     (''external_ids'', json_strmap (t_external_ids t)),
     (''event_code'', JStr (t_event_code t)),
     (''checkin_code'', JStr (t_checkin_code t)),
     (''players'', JArr (map (\<lambda>v. JObj (player_builtins v)) (t_players t))),
     (''rounds'', JArr (map (\<lambda>vs. JArr (map (\<lambda>v. JObj (table_builtins v)) vs)) (t_rounds t))),
     (''finals'', json_of_opt (\<lambda>v. JObj (finals_table_builtins v)) (t_finals t)),
     (''winner'', JStr (t_winner t)),
     (''standings'', JArr (map (\<lambda>v. JObj (standing_builtins v)) (t_standings t))),
     (''reported_player_count'', JInt (t_reported_player_count t)),
     (''raffles'', JArr (map (\<lambda>v. JObj (raffle_draw_builtins v)) (t_raffles t))),
     (''promos_distributed'', JArr (map (\<lambda>v. JObj (promo_distribution_builtins v)) (t_promos_distributed t))),
     (''promo_stock_source_uid'', JStr (t_promo_stock_source_uid t)),
     (''vekn_pushed_at'', json_of_opt JTime (t_vekn_pushed_at t)),
     (''vekn_results_stale'', JBool (t_vekn_results_stale t)),
     (''vekn_event_absent_at'', json_of_opt JTime (t_vekn_event_absent_at t)),
     (''twda_status'', json_of_opt (\<lambda>v. JObj (twda_status_builtins v)) (t_twda_status t)),
     (''offline_mode'', JBool (t_offline_mode t)),
     (''offline_device_id'', JStr (t_offline_device_id t)),
     (''offline_user_uid'', JStr (t_offline_user_uid t)),
     (''offline_since'', json_of_opt JTime (t_offline_since t)),
     (''timer'', JObj (timer_state_builtins (t_timer t))),
     (''table_extra_time'', json_ints (t_table_extra_time t)),
     (''announcements'', JArr (map (\<lambda>v. JObj (announcement_builtins v)) (t_announcements t)))]"

section \<open>Decks\<close>

record deck_attribution =
  da_kind :: attribution_kind
  da_vekn_id :: string
  da_name :: string

definition deck_attribution_builtins :: "deck_attribution \<Rightarrow> dict" where
  "deck_attribution_builtins x = [
     (''kind'', JStr (attribution_value (da_kind x))),
     (''vekn_id'', JStr (da_vekn_id x)),
     (''name'', JStr (da_name x))]"

record deck_view =
  dv_user_uid :: string
  dv_round :: int

definition deck_view_builtins :: "deck_view \<Rightarrow> dict" where
  "deck_view_builtins x = [
     (''user_uid'', JStr (dv_user_uid x)),
     (''round'', JInt (dv_round x))]"

record deck = base_object +
  d_tournament_uid :: string
  d_user_uid :: string
  d_round :: "int option"
  d_name :: string
  d_comments :: string
  d_cards :: "(string \<times> int) list"
  d_attribution :: deck_attribution
  d_public :: bool
  d_winner :: bool
  d_private :: bool
  d_views :: "deck_view list"

definition deck_builtins :: "deck \<Rightarrow> dict" where
  "deck_builtins d = [
     (''uid'', JStr (uid d)),
     (''modified'', JTime (modified d)),
     (''deleted_at'', json_of_opt JTime (deleted_at d)),
     (''tournament_uid'', JStr (d_tournament_uid d)),
     (''user_uid'', JStr (d_user_uid d)),
     (''round'', json_of_opt JInt (d_round d)),
     (''name'', JStr (d_name d)),
     (''comments'', JStr (d_comments d)),
     (''cards'', json_ints (d_cards d)),
     (''attribution'', JObj (deck_attribution_builtins (d_attribution d))),
     (''public'', JBool (d_public d)),
     (''winner'', JBool (d_winner d)),
     (''private'', JBool (d_private d)),
     (''views'', JArr (map (\<lambda>v. JObj (deck_view_builtins v)) (d_views d)))]"

section \<open>Promos\<close>

record promo_holding =
  ph_assigned :: int
  ph_remaining :: int

definition promo_holding_builtins :: "promo_holding \<Rightarrow> dict" where
  "promo_holding_builtins x = [
     (''assigned'', JInt (ph_assigned x)),
     (''remaining'', JInt (ph_remaining x))]"

record promo_ledger_entry =
  le_uid :: string
  le_kind :: promo_ledger_kind
  le_promo_uid :: string
  le_qty :: int
  le_from_uid :: string
  le_to_uid :: "string option"
  le_note :: string
  le_happened_at :: instant
  le_created_by :: string
  le_created_at :: instant

record promo = base_object +
  p_name :: string
  p_kind :: promo_kind
  p_description :: string
  p_release_date :: "instant option"
  p_active :: bool
  p_allowed_ranks :: "tournament_rank list"
  p_league_uids :: "string list"
  p_image_path :: "string option"
  p_holdings :: "(string \<times> promo_holding) list"

definition promo_builtins :: "promo \<Rightarrow> dict" where
  "promo_builtins p = [
     (''uid'', JStr (uid p)),
     (''modified'', JTime (modified p)),
     (''deleted_at'', json_of_opt JTime (deleted_at p)),
     (''name'', JStr (p_name p)),
     (''kind'', JStr (promo_kind_value (p_kind p))),
     (''description'', JStr (p_description p)),
     (''release_date'', json_of_opt JTime (p_release_date p)),
     (''active'', JBool (p_active p)),
     (''allowed_ranks'', json_strs (map rank_value (p_allowed_ranks p))),
     (''league_uids'', json_strs (p_league_uids p)),
     (''image_path'', json_of_opt JStr (p_image_path p)),
     (''holdings'', JObj (map (\<lambda>(k, v). (k, JObj (promo_holding_builtins v))) (p_holdings p)))]"

section \<open>OAuth\<close>

record oauth_token = base_object +
  ot_token_jti :: string
  ot_client_id :: string
  ot_user_uid :: string
  ot_scopes :: "oauth_scope list"
  ot_tournament_uid :: "string option"
  ot_token_type :: string
  ot_expires_at :: instant
  ot_revoked :: bool
  ot_parent_token_uid :: "string option"

record oauth_consent = base_object +
  oc_user_uid :: string
  oc_client_id :: string
  oc_scopes :: "oauth_scope list"
  oc_tournament_uid :: "string option"

section \<open>Constructors: the defaults of the optional fields\<close>

definition new_category_rating :: "int \<Rightarrow> (rating_entry list) \<Rightarrow> category_rating" where
  "new_category_rating v_cr_total v_cr_tournaments =
     \<lparr>cr_total = v_cr_total, cr_tournaments = v_cr_tournaments\<rparr>"

definition new_user :: "string \<Rightarrow> instant \<Rightarrow> string \<Rightarrow> user" where
  "new_user v_uid v_modified v_u_name =
     \<lparr>uid = v_uid, modified = v_modified, deleted_at = None, u_name = v_u_name,
      u_country = None, u_vekn_id = None, u_city = None, u_city_geoname_id = None,
      u_state = None, u_nickname = None, u_roles = [], u_avatar_path = None,
      u_promo_stock = [], u_contact_email = None, u_contact_discord = None,
      u_discord_id = None, u_contact_phone = None, u_phone_is_whatsapp = False,
      u_github_login = None, u_github_id = None, u_community_links = [], u_coopted_by = None,
      u_coopted_at = None, u_deceased_at = None, u_deceased_by_uid = None,
      u_anonymized_at = None, u_anonymized_by_uid = None, u_vekn_synced = False,
      u_vekn_synced_at = None, u_local_modifications = [], u_vekn_prefix = None,
      u_calendar_token = None, u_agenda_hidden = None, u_agenda_added = None,
      u_constructed_online = None, u_constructed_offline = None, u_limited_online = None,
      u_limited_offline = None, u_wins = []\<rparr>"

definition new_score :: "int \<Rightarrow> rat \<Rightarrow> int \<Rightarrow> score" where
  "new_score v_sc_gw v_sc_vp v_sc_tp =
     \<lparr>sc_gw = v_sc_gw, sc_vp = v_sc_vp, sc_tp = v_sc_tp\<rparr>"

definition new_seat :: "string \<Rightarrow> score \<Rightarrow> seat" where
  "new_seat v_seat_player_uid v_seat_result =
     \<lparr>seat_player_uid = v_seat_player_uid, seat_result = v_seat_result,
      seat_judge_uid = []\<rparr>"

definition new_player :: "(string option) \<Rightarrow> player" where
  "new_player v_pl_user_uid =
     \<lparr>pl_user_uid = v_pl_user_uid, pl_state = REGISTERED,
      pl_payment_status = PAY_PENDING, pl_toss = 0, pl_result = new_score 0 0 0,
      pl_finalist = False, pl_display_name = None, pl_non_competing = False,
      pl_missing_decklist = False, pl_waitlisted = False\<rparr>"

definition new_table :: "(seat list) \<Rightarrow> table" where
  "new_table v_tb_seating =
     \<lparr>tb_seating = v_tb_seating, tb_state = TS_IN_PROGRESS, tb_override = None,
      tb_organized_by = None\<rparr>"

definition new_finals_table :: "(seat list) \<Rightarrow> (string list) \<Rightarrow> finals_table" where
  "new_finals_table v_tb_seating v_tb_seed_order =
     \<lparr>tb_seating = v_tb_seating, tb_state = TS_IN_PROGRESS, tb_override = None,
      tb_organized_by = None, tb_seed_order = v_tb_seed_order\<rparr>"

definition new_standing :: "string \<Rightarrow> standing" where
  "new_standing v_st_user_uid =
     \<lparr>st_user_uid = v_st_user_uid, st_gw = 0, st_vp = 0, st_tp = 0, st_toss = 0,
      st_finalist = False, st_disqualified = False, st_non_competing = False,
      st_withdrawn = False\<rparr>"

definition new_sanction :: "string \<Rightarrow> instant \<Rightarrow> string \<Rightarrow> string \<Rightarrow> sanction_level \<Rightarrow> sanction_category \<Rightarrow> string \<Rightarrow> instant \<Rightarrow> sanction" where
  "new_sanction v_uid v_modified v_s_user_uid v_s_issued_by_uid v_s_level v_s_category v_s_description v_s_issued_at =
     \<lparr>uid = v_uid, modified = v_modified, deleted_at = None, s_user_uid = v_s_user_uid,
      s_issued_by_uid = v_s_issued_by_uid, s_tournament_uid = None, s_level = v_s_level,
      s_category = v_s_category, s_subcategory = None, s_round_number = None,
      s_description = v_s_description, s_issued_at = v_s_issued_at, s_expires_at = None,
      s_lifted_at = None, s_lifted_by_uid = None\<rparr>"

definition new_deck_attribution :: "attribution_kind \<Rightarrow> deck_attribution" where
  "new_deck_attribution v_da_kind =
     \<lparr>da_kind = v_da_kind, da_vekn_id = [], da_name = []\<rparr>"

definition new_deck :: "string \<Rightarrow> instant \<Rightarrow> string \<Rightarrow> string \<Rightarrow> deck" where
  "new_deck v_uid v_modified v_d_tournament_uid v_d_user_uid =
     \<lparr>uid = v_uid, modified = v_modified, deleted_at = None,
      d_tournament_uid = v_d_tournament_uid, d_user_uid = v_d_user_uid, d_round = None,
      d_name = [], d_comments = [], d_cards = [],
      d_attribution = new_deck_attribution AK_ANONYMOUS, d_public = False, d_winner = False,
      d_private = False, d_views = []\<rparr>"

definition new_timer_state :: "timer_state" where
  "new_timer_state  =
     \<lparr>tm_started_at = None, tm_elapsed_before_pause = 0, tm_paused = True\<rparr>"

definition new_tournament :: "string \<Rightarrow> instant \<Rightarrow> string \<Rightarrow> string \<Rightarrow> tournament" where
  "new_tournament v_uid v_modified v_t_name v_t_checkin_code =
     \<lparr>uid = v_uid, modified = v_modified, deleted_at = None, t_name = v_t_name,
      t_format = Standard, t_rank = RANK_BASIC, t_online = False, t_start = None,
      t_finish = None, t_timezone = ''UTC'', t_country = None, t_city = None,
      t_city_geoname_id = None, t_league_uid = None, t_state = PLANNED, t_organizers_uids = [],
      t_venue = [], t_venue_url = [], t_address = [], t_map_url = [], t_registration_url = [],
      t_proxies = False, t_multideck = False, t_decklist_required = False, t_description = [],
      t_standings_mode = SM_PRIVATE, t_decklists_mode = DL_WINNER, t_max_rounds = 0,
      t_max_players = 0, t_open_rounds = False, t_self_organized_rounds = False,
      t_table_rooms = [], t_first_table_number = 1, t_continue_room_numbering = False,
      t_round_time = 0, t_finals_time = 0, t_banner_path = None, t_external_ids = [],
      t_event_code = [], t_checkin_code = v_t_checkin_code, t_players = [], t_rounds = [],
      t_finals = None, t_winner = [], t_standings = [], t_reported_player_count = 0,
      t_raffles = [], t_promos_distributed = [], t_promo_stock_source_uid = [],
      t_vekn_pushed_at = None, t_vekn_results_stale = False, t_vekn_event_absent_at = None,
      t_twda_status = None, t_offline_mode = False, t_offline_device_id = [],
      t_offline_user_uid = [], t_offline_since = None, t_timer = new_timer_state,
      t_table_extra_time = [], t_announcements = []\<rparr>"

definition new_promo_holding :: "promo_holding" where
  "new_promo_holding  =
     \<lparr>ph_assigned = 0, ph_remaining = 0\<rparr>"

definition new_promo :: "string \<Rightarrow> instant \<Rightarrow> string \<Rightarrow> promo" where
  "new_promo v_uid v_modified v_p_name =
     \<lparr>uid = v_uid, modified = v_modified, deleted_at = None, p_name = v_p_name,
      p_kind = PK_CARD, p_description = [], p_release_date = None, p_active = True,
      p_allowed_ranks = [], p_league_uids = [], p_image_path = None, p_holdings = []\<rparr>"

definition new_league :: "string \<Rightarrow> instant \<Rightarrow> string \<Rightarrow> league" where
  "new_league v_uid v_modified v_l_name =
     \<lparr>uid = v_uid, modified = v_modified, deleted_at = None, l_name = v_l_name,
      l_kind = LK_LEAGUE, l_standings_mode = LM_RTP, l_format = None, l_country = None,
      l_start = None, l_finish = None, l_description = [], l_organizers_uids = [],
      l_parent_uid = None, l_open_to_country_princes = False, l_final = None\<rparr>"

end
