(* ===== verification/Permissions.thy ===== *)
theory Permissions
  imports Models
begin

text \<open>
  Authorization.  The matrix, its evaluator and the resolvers of \<open>engine/src/permissions.rs\<close>,
  which is the only decision point of the stack, and on top of it the marshalling layer of
  \<open>backend/src/permissions.py\<close>: one function per route guard, which names a capability and
  fills the request.  The JSON text that crosses the binding is left out: a request is passed as
  the record the engine parses it into.  Naming a capability the engine does not know raises.
\<close>

section \<open>The engine\<close>

subsection \<open>Contexts, capabilities and rows\<close>

fun role_from_str :: "string \<Rightarrow> role option" where
  "role_from_str s =
     (if s = ''IC'' then Some IC else if s = ''NC'' then Some NC
      else if s = ''Prince'' then Some PRINCE else if s = ''Ethics'' then Some ETHICS
      else if s = ''PTC'' then Some PTC else if s = ''PT'' then Some PT
      else if s = ''Rulemonger'' then Some RULEMONGER else if s = ''Judge'' then Some JUDGE
      else if s = ''Sheriff'' then Some SHERIFF else if s = ''DEV'' then Some DEV else None)"

lemma role_from_value [simp]: "role_from_str (role_value r) = Some r"
  by (cases r) simp_all

record user_context =
  uc_roles :: "role list"
  uc_country :: "string option"
  uc_vekn_id :: "string option"
  uc_has_nda :: bool

definition has_role :: "user_context \<Rightarrow> role \<Rightarrow> bool" where
  "has_role a r \<longleftrightarrow> r \<in> set (uc_roles a)"

definition has_any :: "user_context \<Rightarrow> role list \<Rightarrow> bool" where
  "has_any a rs \<longleftrightarrow> (\<exists>r \<in> set rs. has_role a r)"

datatype permission_result = Allow | Deny string

fun allowed :: "permission_result \<Rightarrow> bool" where
  "allowed Allow = True"
| "allowed (Deny _) = False"

record owned_resource =
  or_country :: "string option"
  or_organizers_uids :: "uid list"
  or_open_to_country_princes :: bool

definition has_organizer :: "owned_resource \<Rightarrow> uid \<Rightarrow> bool" where
  "has_organizer r u \<longleftrightarrow> u \<in> set (or_organizers_uids r)"

datatype capability =
    SponsorMember | EditMemberProfile | DeleteMember | AnonymizeMember | MarkDeceased
    | ManageVekn | ListNonMember | ExportMembers | MergeAccounts | CreateTournament
    | OrganizeTournament | ForceUnlockTournament | ManageLeagues | EditLeague | ModerateLink
    | PromoteLinkNational | PromoteLinkGlobal | IssueRestrictedSanction
    | IssueTournamentSanction | LiftRestrictedSanction | LiftTournamentSanction
    | ModifySanction | DeleteAnySanction | DeleteOrganizerSanction | ViewSanctionReason
    | ManagePromos | RecordPromoIntake | ViewFullPromoLedger | ManageOauthClients
    | RunAdminSync | ManageNda | SetArchivalResults

record rule =
  ru_capability :: capability
  ru_name :: string
  ru_global :: "role list"
  ru_same_country :: "role list"
  ru_self_service :: bool
  ru_organizer :: bool
  ru_deny :: string
  ru_deny_scope :: "string option"
  ru_countryless_target :: bool

definition OFFICIAL_ROLES :: "role list" where
  "OFFICIAL_ROLES = [IC, NC, PRINCE]"

subsection \<open>The matrix\<close>

definition row_sponsor_member :: rule where
  "row_sponsor_member =
     \<lparr>ru_capability = SponsorMember, ru_name = ''sponsor_member'',
      ru_global = OFFICIAL_ROLES, ru_same_country = [],
      ru_self_service = False, ru_organizer = False,
      ru_deny = ''Only IC, NC, or Prince can sponsor members'',
      ru_deny_scope = None, ru_countryless_target = False\<rparr>"

definition row_edit_member_profile :: rule where
  "row_edit_member_profile =
     \<lparr>ru_capability = EditMemberProfile, ru_name = ''edit_member_profile'',
      ru_global = [IC], ru_same_country = [NC],
      ru_self_service = True, ru_organizer = False,
      ru_deny = ''You don't have permission to edit this user'',
      ru_deny_scope = (Some ''You can only edit users in your country''), ru_countryless_target = False\<rparr>"

definition row_delete_member :: rule where
  "row_delete_member =
     \<lparr>ru_capability = DeleteMember, ru_name = ''delete_member'',
      ru_global = [IC], ru_same_country = [],
      ru_self_service = False, ru_organizer = False,
      ru_deny = ''Only IC can delete members'',
      ru_deny_scope = None, ru_countryless_target = False\<rparr>"

definition row_anonymize_member :: rule where
  "row_anonymize_member =
     \<lparr>ru_capability = AnonymizeMember, ru_name = ''anonymize_member'',
      ru_global = [IC], ru_same_country = [],
      ru_self_service = False, ru_organizer = False,
      ru_deny = ''Only IC can anonymize members'',
      ru_deny_scope = None, ru_countryless_target = False\<rparr>"

definition row_mark_deceased :: rule where
  "row_mark_deceased =
     \<lparr>ru_capability = MarkDeceased, ru_name = ''mark_deceased'',
      ru_global = [IC], ru_same_country = [NC],
      ru_self_service = False, ru_organizer = False,
      ru_deny = ''Only IC, or the member's national coordinator, can change deceased status'',
      ru_deny_scope = None, ru_countryless_target = False\<rparr>"

definition row_manage_vekn :: rule where
  "row_manage_vekn =
     \<lparr>ru_capability = ManageVekn, ru_name = ''manage_vekn'',
      ru_global = [IC], ru_same_country = [NC],
      ru_self_service = False, ru_organizer = False,
      ru_deny = ''Only IC, or the member's national coordinator, can manage VEKN IDs'',
      ru_deny_scope = (Some ''You can only manage VEKN IDs for users in your country''), ru_countryless_target = False\<rparr>"

definition row_list_non_member :: rule where
  "row_list_non_member =
     \<lparr>ru_capability = ListNonMember, ru_name = ''list_non_member'',
      ru_global = [IC], ru_same_country = [NC, PRINCE],
      ru_self_service = False, ru_organizer = False,
      ru_deny = ''You don't have permission to list users without a VEKN ID'',
      ru_deny_scope = None, ru_countryless_target = True\<rparr>"

definition row_export_members :: rule where
  "row_export_members =
     \<lparr>ru_capability = ExportMembers, ru_name = ''export_members'',
      ru_global = OFFICIAL_ROLES, ru_same_country = [],
      ru_self_service = False, ru_organizer = False,
      ru_deny = ''Only IC, NC, or Prince can export the member list'',
      ru_deny_scope = None, ru_countryless_target = False\<rparr>"

definition row_merge_accounts :: rule where
  "row_merge_accounts =
     \<lparr>ru_capability = MergeAccounts, ru_name = ''merge_accounts'',
      ru_global = [IC], ru_same_country = [],
      ru_self_service = False, ru_organizer = False,
      ru_deny = ''Only IC can merge accounts'',
      ru_deny_scope = None, ru_countryless_target = False\<rparr>"

definition row_create_tournament :: rule where
  "row_create_tournament =
     \<lparr>ru_capability = CreateTournament, ru_name = ''create_tournament'',
      ru_global = OFFICIAL_ROLES, ru_same_country = [],
      ru_self_service = False, ru_organizer = False,
      ru_deny = ''Only IC, NC, or Prince can manage tournaments'',
      ru_deny_scope = None, ru_countryless_target = False\<rparr>"

definition row_organize_tournament :: rule where
  "row_organize_tournament =
     \<lparr>ru_capability = OrganizeTournament, ru_name = ''organize_tournament'',
      ru_global = [IC], ru_same_country = [NC],
      ru_self_service = False, ru_organizer = True,
      ru_deny = ''You are not an organizer of this tournament'',
      ru_deny_scope = None, ru_countryless_target = False\<rparr>"

definition row_force_unlock_tournament :: rule where
  "row_force_unlock_tournament =
     \<lparr>ru_capability = ForceUnlockTournament, ru_name = ''force_unlock_tournament'',
      ru_global = [IC], ru_same_country = [],
      ru_self_service = False, ru_organizer = False,
      ru_deny = ''Only IC can force-unlock a tournament'',
      ru_deny_scope = None, ru_countryless_target = False\<rparr>"

definition row_manage_leagues :: rule where
  "row_manage_leagues =
     \<lparr>ru_capability = ManageLeagues, ru_name = ''manage_leagues'',
      ru_global = [IC, NC], ru_same_country = [],
      ru_self_service = False, ru_organizer = False,
      ru_deny = ''Only IC or NC can manage leagues'',
      ru_deny_scope = None, ru_countryless_target = False\<rparr>"

definition row_edit_league :: rule where
  "row_edit_league =
     \<lparr>ru_capability = EditLeague, ru_name = ''edit_league'',
      ru_global = [IC], ru_same_country = [NC],
      ru_self_service = False, ru_organizer = True,
      ru_deny = ''You don't have permission to edit this league'',
      ru_deny_scope = None, ru_countryless_target = False\<rparr>"

definition row_moderate_link :: rule where
  "row_moderate_link =
     \<lparr>ru_capability = ModerateLink, ru_name = ''moderate_link'',
      ru_global = [IC], ru_same_country = [NC],
      ru_self_service = False, ru_organizer = False,
      ru_deny = ''You don't have permission to moderate this link'',
      ru_deny_scope = (Some ''You can only moderate links in your country''), ru_countryless_target = False\<rparr>"

definition row_promote_link_national :: rule where
  "row_promote_link_national =
     \<lparr>ru_capability = PromoteLinkNational, ru_name = ''promote_link_national'',
      ru_global = [IC], ru_same_country = [NC],
      ru_self_service = False, ru_organizer = False,
      ru_deny = ''Only IC, or the country's national coordinator, can promote a link nationally'',
      ru_deny_scope = None, ru_countryless_target = False\<rparr>"

definition row_promote_link_global :: rule where
  "row_promote_link_global =
     \<lparr>ru_capability = PromoteLinkGlobal, ru_name = ''promote_link_global'',
      ru_global = [IC], ru_same_country = [],
      ru_self_service = False, ru_organizer = False,
      ru_deny = ''Only IC can promote a link globally'',
      ru_deny_scope = None, ru_countryless_target = False\<rparr>"

definition row_issue_restricted_sanction :: rule where
  "row_issue_restricted_sanction =
     \<lparr>ru_capability = IssueRestrictedSanction, ru_name = ''issue_restricted_sanction'',
      ru_global = [IC, ETHICS], ru_same_country = [],
      ru_self_service = False, ru_organizer = False,
      ru_deny = ''Only IC or Ethics can issue suspensions or probations'',
      ru_deny_scope = None, ru_countryless_target = False\<rparr>"

definition row_issue_tournament_sanction :: rule where
  "row_issue_tournament_sanction =
     \<lparr>ru_capability = IssueTournamentSanction, ru_name = ''issue_tournament_sanction'',
      ru_global = [IC, ETHICS], ru_same_country = [],
      ru_self_service = False, ru_organizer = True,
      ru_deny = ''Only IC, Ethics, or a tournament organizer can issue this sanction'',
      ru_deny_scope = None, ru_countryless_target = False\<rparr>"

definition row_lift_restricted_sanction :: rule where
  "row_lift_restricted_sanction =
     \<lparr>ru_capability = LiftRestrictedSanction, ru_name = ''lift_restricted_sanction'',
      ru_global = [IC, ETHICS], ru_same_country = [],
      ru_self_service = False, ru_organizer = False,
      ru_deny = ''Only IC or Ethics can lift suspensions or probations'',
      ru_deny_scope = None, ru_countryless_target = False\<rparr>"

definition row_lift_tournament_sanction :: rule where
  "row_lift_tournament_sanction =
     \<lparr>ru_capability = LiftTournamentSanction, ru_name = ''lift_tournament_sanction'',
      ru_global = [IC, RULEMONGER], ru_same_country = [NC],
      ru_self_service = False, ru_organizer = False,
      ru_deny = ''You don't have permission to lift this sanction'',
      ru_deny_scope = None, ru_countryless_target = False\<rparr>"

definition row_modify_sanction :: rule where
  "row_modify_sanction =
     \<lparr>ru_capability = ModifySanction, ru_name = ''modify_sanction'',
      ru_global = [IC, ETHICS], ru_same_country = [],
      ru_self_service = False, ru_organizer = False,
      ru_deny = ''Only IC or Ethics can modify a sanction'',
      ru_deny_scope = None, ru_countryless_target = False\<rparr>"

definition row_delete_any_sanction :: rule where
  "row_delete_any_sanction =
     \<lparr>ru_capability = DeleteAnySanction, ru_name = ''delete_any_sanction'',
      ru_global = [IC, ETHICS], ru_same_country = [],
      ru_self_service = False, ru_organizer = False,
      ru_deny = ''You don't have permission to delete this sanction'',
      ru_deny_scope = None, ru_countryless_target = False\<rparr>"

definition row_delete_organizer_sanction :: rule where
  "row_delete_organizer_sanction =
     \<lparr>ru_capability = DeleteOrganizerSanction, ru_name = ''delete_organizer_sanction'',
      ru_global = [], ru_same_country = [],
      ru_self_service = False, ru_organizer = True,
      ru_deny = ''You don't have permission to delete this sanction'',
      ru_deny_scope = None, ru_countryless_target = False\<rparr>"

definition row_view_sanction_reason :: rule where
  "row_view_sanction_reason =
     \<lparr>ru_capability = ViewSanctionReason, ru_name = ''view_sanction_reason'',
      ru_global = [IC, ETHICS, RULEMONGER], ru_same_country = [NC],
      ru_self_service = True, ru_organizer = True,
      ru_deny = ''You don't have permission to see this sanction's reason'',
      ru_deny_scope = None, ru_countryless_target = False\<rparr>"

definition row_manage_promos :: rule where
  "row_manage_promos =
     \<lparr>ru_capability = ManagePromos, ru_name = ''manage_promos'',
      ru_global = [IC], ru_same_country = [],
      ru_self_service = False, ru_organizer = False,
      ru_deny = ''Only IC can manage promos'',
      ru_deny_scope = None, ru_countryless_target = False\<rparr>"

definition row_record_promo_intake :: rule where
  "row_record_promo_intake =
     \<lparr>ru_capability = RecordPromoIntake, ru_name = ''record_promo_intake'',
      ru_global = [IC, NC], ru_same_country = [],
      ru_self_service = False, ru_organizer = False,
      ru_deny = ''Only IC or NC can record promo intakes'',
      ru_deny_scope = None, ru_countryless_target = False\<rparr>"

definition row_view_full_promo_ledger :: rule where
  "row_view_full_promo_ledger =
     \<lparr>ru_capability = ViewFullPromoLedger, ru_name = ''view_full_promo_ledger'',
      ru_global = [IC, NC], ru_same_country = [],
      ru_self_service = False, ru_organizer = False,
      ru_deny = ''Only IC or NC can view the full promo ledger'',
      ru_deny_scope = None, ru_countryless_target = False\<rparr>"

definition row_manage_oauth_clients :: rule where
  "row_manage_oauth_clients =
     \<lparr>ru_capability = ManageOauthClients, ru_name = ''manage_oauth_clients'',
      ru_global = [IC, DEV], ru_same_country = [],
      ru_self_service = False, ru_organizer = False,
      ru_deny = ''Only IC or DEV can manage OAuth clients'',
      ru_deny_scope = None, ru_countryless_target = False\<rparr>"

definition row_run_admin_sync :: rule where
  "row_run_admin_sync =
     \<lparr>ru_capability = RunAdminSync, ru_name = ''run_admin_sync'',
      ru_global = [IC], ru_same_country = [],
      ru_self_service = False, ru_organizer = False,
      ru_deny = ''Only IC can trigger a sync'',
      ru_deny_scope = None, ru_countryless_target = False\<rparr>"

definition row_manage_nda :: rule where
  "row_manage_nda =
     \<lparr>ru_capability = ManageNda, ru_name = ''manage_nda'',
      ru_global = [IC, PTC], ru_same_country = [],
      ru_self_service = False, ru_organizer = False,
      ru_deny = ''Only IC or PTC can manage NDA records'',
      ru_deny_scope = None, ru_countryless_target = False\<rparr>"

definition row_set_archival_results :: rule where
  "row_set_archival_results =
     \<lparr>ru_capability = SetArchivalResults, ru_name = ''set_archival_results'',
      ru_global = [IC], ru_same_country = [],
      ru_self_service = False, ru_organizer = False,
      ru_deny = ''Only IC can correct an archival record'',
      ru_deny_scope = None, ru_countryless_target = False\<rparr>"

definition CAPABILITIES :: "rule list" where
  "CAPABILITIES = [
     row_sponsor_member, row_edit_member_profile, row_delete_member, row_anonymize_member,
     row_mark_deceased, row_manage_vekn, row_list_non_member, row_export_members,
     row_merge_accounts, row_create_tournament, row_organize_tournament,
     row_force_unlock_tournament, row_manage_leagues, row_edit_league, row_moderate_link,
     row_promote_link_national, row_promote_link_global, row_issue_restricted_sanction,
     row_issue_tournament_sanction, row_lift_restricted_sanction, row_lift_tournament_sanction,
     row_modify_sanction, row_delete_any_sanction, row_delete_organizer_sanction,
     row_view_sanction_reason, row_manage_promos, row_record_promo_intake,
     row_view_full_promo_ledger, row_manage_oauth_clients, row_run_admin_sync, row_manage_nda,
     row_set_archival_results]"
definition capability_from_str :: "string \<Rightarrow> capability option" where
  "capability_from_str s = map_option ru_capability (find (\<lambda>r. ru_name r = s) CAPABILITIES)"

text \<open>\<open>rule_for\<close> panics on a capability without a row; \<open>every_capability_has_one_rule\<close> shows
  there is none, so \<open>the\<close> is never applied to \<open>None\<close>.\<close>

definition rule_for :: "capability \<Rightarrow> rule" where
  "rule_for c = the (find (\<lambda>r. ru_capability r = c) CAPABILITIES)"

record appointment =
  ap_role :: role
  ap_global :: "role list"
  ap_same_country :: "role list"

definition ROLE_APPOINTMENTS :: "appointment list" where
  "ROLE_APPOINTMENTS = [
     \<lparr>ap_role = PRINCE, ap_global = [IC], ap_same_country = [NC]\<rparr>,
     \<lparr>ap_role = PT, ap_global = [IC, PTC], ap_same_country = []\<rparr>,
     \<lparr>ap_role = JUDGE, ap_global = [], ap_same_country = []\<rparr>,
     \<lparr>ap_role = SHERIFF, ap_global = [], ap_same_country = []\<rparr>,
     \<lparr>ap_role = IC, ap_global = [IC], ap_same_country = []\<rparr>,
     \<lparr>ap_role = NC, ap_global = [IC], ap_same_country = []\<rparr>,
     \<lparr>ap_role = ETHICS, ap_global = [IC], ap_same_country = []\<rparr>,
     \<lparr>ap_role = PTC, ap_global = [IC], ap_same_country = []\<rparr>,
     \<lparr>ap_role = RULEMONGER, ap_global = [IC], ap_same_country = []\<rparr>,
     \<lparr>ap_role = DEV, ap_global = [IC], ap_same_country = []\<rparr>]"

definition appointment_for :: "role \<Rightarrow> appointment" where
  "appointment_for r = the (find (\<lambda>a. ap_role a = r) ROLE_APPOINTMENTS)"

subsection \<open>The evaluator\<close>

record request =
  rq_actor :: user_context
  rq_actor_uid :: uid
  rq_target_uid :: "uid option"
  rq_target_country :: "string option"
  rq_resource :: "owned_resource option"

definition new_request :: "user_context \<Rightarrow> uid \<Rightarrow> request" where
  "new_request a u = \<lparr>rq_actor = a, rq_actor_uid = u, rq_target_uid = None,
     rq_target_country = None, rq_resource = None\<rparr>"

definition in_own_country :: "request \<Rightarrow> bool" where
  "in_own_country q \<longleftrightarrow> uc_country (rq_actor q) \<noteq> None
     \<and> uc_country (rq_actor q) = rq_target_country q"

definition check_rule :: "rule \<Rightarrow> request \<Rightarrow> permission_result" where
  "check_rule rule q =
     (if ru_self_service rule \<and> rq_target_uid q = Some (rq_actor_uid q) then Allow
      else if has_any (rq_actor q) (ru_global rule) then Allow
      else
        let last = (if ru_organizer rule
                       \<and> (case rq_resource q of None \<Rightarrow> False
                          | Some r \<Rightarrow> has_organizer r (rq_actor_uid q))
                    then Allow else Deny (ru_deny rule))
        in if has_any (rq_actor q) (ru_same_country rule)
           then (if in_own_country q
                    \<or> ru_countryless_target rule \<and> rq_target_country q = None then Allow
                 else case ru_deny_scope rule of Some scoped \<Rightarrow> Deny scoped | None \<Rightarrow> last)
           else last)"

definition check :: "capability \<Rightarrow> request \<Rightarrow> permission_result" where
  "check c q = check_rule (rule_for c) q"

definition unconditional_capabilities_of :: "user_context \<Rightarrow> string list" where
  "unconditional_capabilities_of a =
     map ru_name (filter (\<lambda>r. has_any a (ru_global r)) CAPABILITIES)"

subsection \<open>Resolvers\<close>

definition change_role_result :: "user_context \<Rightarrow> user_context \<Rightarrow> role \<Rightarrow> permission_result" where
  "change_role_result actor target r =
     (if uc_vekn_id target = None then Deny ''User must have a VEKN ID to be assigned roles''
      else if r = PT \<and> \<not> has_role target PT \<and> \<not> uc_has_nda target
        then Deny ''A signed NDA must be on record to grant the PT role''
      else
        let ap = appointment_for r
        in if has_any actor (ap_global ap) then Allow
           else if has_any actor (ap_same_country ap)
             then (if uc_country actor \<noteq> None \<and> uc_country actor = uc_country target then Allow
                   else Deny (''You can only change the '' @ role_value r
                              @ '' role in your own country''))
           else Deny (''You don't have permission to change the '' @ role_value r @ '' role''))"

definition OFFICIAL_ROLES_BY_AUTHORITY :: "role list" where
  "OFFICIAL_ROLES_BY_AUTHORITY = [IC, NC, PRINCE]"

definition change_country_result :: "user_context \<Rightarrow> user_context \<Rightarrow> permission_result" where
  "change_country_result actor target =
     (case find (has_role target) OFFICIAL_ROLES_BY_AUTHORITY of
        Some highest \<Rightarrow> change_role_result actor target highest
      | None \<Rightarrow> Allow)"

definition CONTACT_PUBLISHING_ROLES :: "role list" where
  "CONTACT_PUBLISHING_ROLES = [NC, PRINCE]"

definition link_tournament_result ::
    "user_context \<Rightarrow> uid \<Rightarrow> owned_resource \<Rightarrow> permission_result" where
  "link_tournament_result actor u league =
     (if allowed (check EditLeague ((new_request actor u)
           \<lparr>rq_target_country := or_country league, rq_resource := Some league\<rparr>)) then Allow
      else if or_open_to_country_princes league \<and> has_role actor PRINCE
           \<and> uc_country actor \<noteq> None \<and> uc_country actor = or_country league then Allow
      else Deny ''You don't have permission to attach tournaments to this league'')"

definition take_offline_result ::
    "user_context \<Rightarrow> uid \<Rightarrow> owned_resource \<Rightarrow> permission_result" where
  "take_offline_result actor u tournament =
     (let organizes = check OrganizeTournament ((new_request actor u)
            \<lparr>rq_target_country := or_country tournament, rq_resource := Some tournament\<rparr>)
      in if \<not> allowed organizes then organizes
         else check SponsorMember (new_request actor u))"

record sanction_context =
  sx_level :: string
  sx_tournament_country :: "string option"
  sx_tournament_state :: string
  sx_tournament_organizers_uids :: "uid list"

definition restricted_level :: "string \<Rightarrow> bool" where
  "restricted_level l \<longleftrightarrow> l = ''suspension'' \<or> l = ''probation''"

definition organizer_issuable :: "string \<Rightarrow> bool" where
  "organizer_issuable l \<longleftrightarrow>
     l \<in> {''caution'', ''warning'', ''standings_adjustment'', ''disqualification''}"

definition issue_sanction_result ::
    "user_context \<Rightarrow> uid \<Rightarrow> string \<Rightarrow> owned_resource \<Rightarrow> permission_result" where
  "issue_sanction_result issuer u level tournament =
     check (if restricted_level level then IssueRestrictedSanction else IssueTournamentSanction)
       ((new_request issuer u)\<lparr>rq_resource := Some tournament\<rparr>)"

definition lift_sanction_result ::
    "user_context \<Rightarrow> uid \<Rightarrow> sanction_context \<Rightarrow> permission_result" where
  "lift_sanction_result actor u sx =
     (if restricted_level (sx_level sx) then check LiftRestrictedSanction (new_request actor u)
      else check LiftTournamentSanction
             ((new_request actor u)\<lparr>rq_target_country := sx_tournament_country sx\<rparr>))"

definition delete_sanction_result ::
    "user_context \<Rightarrow> uid \<Rightarrow> sanction_context \<Rightarrow> permission_result" where
  "delete_sanction_result actor u sx =
     (let result = check DeleteAnySanction (new_request actor u)
      in if allowed result \<or> \<not> organizer_issuable (sx_level sx)
            \<or> sx_tournament_state sx = ''Finished'' then result
         else check DeleteOrganizerSanction ((new_request actor u)
                \<lparr>rq_resource := Some \<lparr>or_country = sx_tournament_country sx,
                   or_organizers_uids = sx_tournament_organizers_uids sx,
                   or_open_to_country_princes = False\<rparr>\<rparr>))"

section \<open>The Python layer\<close>

definition user_to_context :: "user \<Rightarrow> user_context" where
  "user_to_context u = \<lparr>uc_roles = u_roles u, uc_country = u_country u,
     uc_vekn_id = u_vekn_id u, uc_has_nda = False\<rparr>"

definition tournament_resource :: "tournament \<Rightarrow> owned_resource" where
  "tournament_resource t = \<lparr>or_country = t_country t, or_organizers_uids = t_organizers_uids t,
     or_open_to_country_princes = False\<rparr>"

definition league_resource :: "league \<Rightarrow> owned_resource" where
  "league_resource l = \<lparr>or_country = l_country l, or_organizers_uids = l_organizers_uids l,
     or_open_to_country_princes = False\<rparr>"

definition py_check :: "string \<Rightarrow> user \<Rightarrow> user option \<Rightarrow> string option \<Rightarrow> owned_resource option
    \<Rightarrow> bool res" where
  "py_check name actor target tcountry resource =
     (let country = (case target of Some t \<Rightarrow> u_country t | None \<Rightarrow> tcountry);
          country' = (case resource of
              Some r \<Rightarrow> if target = None \<and> tcountry = None then or_country r else country
            | None \<Rightarrow> country)
      in case capability_from_str name of
           None \<Rightarrow> Inl (ValueError (''Unknown capability: '' @ name))
         | Some c \<Rightarrow> Inr (allowed (check c
             \<lparr>rq_actor = user_to_context actor, rq_actor_uid = uid actor,
              rq_target_uid = map_option uid target, rq_target_country = country',
              rq_resource = resource\<rparr>)))"

definition is_official :: "user \<Rightarrow> bool" where
  "is_official u = has_any (user_to_context u) OFFICIAL_ROLES"

definition publishes_contact :: "string list \<Rightarrow> bool" where
  "publishes_contact roles =
     has_any \<lparr>uc_roles = List.map_filter role_from_str roles, uc_country = None,
              uc_vekn_id = None, uc_has_nda = False\<rparr> CONTACT_PUBLISHING_ROLES"

text \<open>The channels of \<open>_contact_context\<close> the engine finds non-empty\<close>

definition contact_channels :: "user \<Rightarrow> string list" where
  "contact_channels u = map fst (filter (truthy_str \<circ> snd)
     [(''contact_email'', u_contact_email u), (''contact_phone'', u_contact_phone u),
      (''discord_id'', u_discord_id u)])"

definition breaks_contact_floor :: "user \<Rightarrow> user \<Rightarrow> bool" where
  "breaks_contact_floor before after \<longleftrightarrow>
     has_any (user_to_context after) CONTACT_PUBLISHING_ROLES
     \<and> contact_channels before \<noteq> [] \<and> contact_channels after = []"

definition can_change_role :: "user \<Rightarrow> user \<Rightarrow> role \<Rightarrow> bool \<Rightarrow> bool" where
  "can_change_role actor target r target_has_nda =
     allowed (change_role_result (user_to_context actor)
       ((user_to_context target)\<lparr>uc_has_nda := target_has_nda\<rparr>) r)"

definition can_change_country :: "user \<Rightarrow> user \<Rightarrow> bool" where
  "can_change_country actor target =
     allowed (change_country_result (user_to_context actor) (user_to_context target))"

definition can_sponsor_member :: "user \<Rightarrow> bool res" where
  "can_sponsor_member actor = py_check ''sponsor_member'' actor None None None"

definition can_edit_user :: "user \<Rightarrow> user \<Rightarrow> bool res" where
  "can_edit_user actor target = py_check ''edit_member_profile'' actor (Some target) None None"

definition can_manage_nda :: "user \<Rightarrow> bool res" where
  "can_manage_nda actor = py_check ''manage_nda'' actor None None None"

definition can_manage_vekn :: "user \<Rightarrow> user \<Rightarrow> bool res" where
  "can_manage_vekn actor target = py_check ''manage_vekn'' actor (Some target) None None"

definition can_merge_accounts :: "user \<Rightarrow> bool res" where
  "can_merge_accounts actor = py_check ''merge_accounts'' actor None None None"

definition can_mark_deceased :: "user \<Rightarrow> string option \<Rightarrow> bool res" where
  "can_mark_deceased actor country = py_check ''mark_deceased'' actor None country None"

definition can_delete_member :: "user \<Rightarrow> bool res" where
  "can_delete_member actor = py_check ''delete_member'' actor None None None"

definition can_anonymize_member :: "user \<Rightarrow> bool res" where
  "can_anonymize_member actor = py_check ''anonymize_member'' actor None None None"

definition can_moderate_link :: "user \<Rightarrow> string option \<Rightarrow> bool res" where
  "can_moderate_link actor country = py_check ''moderate_link'' actor None country None"

definition can_promote_link_national :: "user \<Rightarrow> string option \<Rightarrow> bool res" where
  "can_promote_link_national actor country = py_check ''promote_link_national'' actor None country None"

definition can_promote_link_global :: "user \<Rightarrow> bool res" where
  "can_promote_link_global actor = py_check ''promote_link_global'' actor None None None"

definition can_create_tournament :: "user \<Rightarrow> bool res" where
  "can_create_tournament actor = py_check ''create_tournament'' actor None None None"

definition is_organizer :: "user \<Rightarrow> tournament \<Rightarrow> bool res" where
  "is_organizer actor t = py_check ''organize_tournament'' actor None None (Some (tournament_resource t))"

definition can_force_unlock_tournament :: "user \<Rightarrow> bool res" where
  "can_force_unlock_tournament actor = py_check ''force_unlock_tournament'' actor None None None"

definition can_manage_leagues :: "user \<Rightarrow> bool res" where
  "can_manage_leagues actor = py_check ''manage_leagues'' actor None None None"

definition can_edit_league :: "user \<Rightarrow> league \<Rightarrow> bool res" where
  "can_edit_league actor l = py_check ''edit_league'' actor None None (Some (league_resource l))"

definition can_modify_sanction :: "user \<Rightarrow> bool res" where
  "can_modify_sanction actor = py_check ''modify_sanction'' actor None None None"

definition can_manage_promos :: "user \<Rightarrow> bool res" where
  "can_manage_promos actor = py_check ''manage_promos'' actor None None None"

definition can_record_promo_intake :: "user \<Rightarrow> bool res" where
  "can_record_promo_intake actor = py_check ''record_promo_intake'' actor None None None"

definition can_view_full_promo_ledger :: "user \<Rightarrow> bool res" where
  "can_view_full_promo_ledger actor = py_check ''view_full_promo_ledger'' actor None None None"

definition can_manage_oauth_clients :: "user \<Rightarrow> bool res" where
  "can_manage_oauth_clients actor = py_check ''manage_oauth_clients'' actor None None None"

definition can_run_admin_sync :: "user \<Rightarrow> bool res" where
  "can_run_admin_sync actor = py_check ''run_admin_sync'' actor None None None"

definition can_take_tournament_offline :: "user \<Rightarrow> tournament \<Rightarrow> bool" where
  "can_take_tournament_offline u t =
     allowed (take_offline_result (user_to_context u) (uid u) (tournament_resource t))"

definition can_link_tournament_to_league :: "user \<Rightarrow> league \<Rightarrow> bool" where
  "can_link_tournament_to_league u l =
     allowed (link_tournament_result (user_to_context u) (uid u)
       ((league_resource l)\<lparr>or_open_to_country_princes := l_open_to_country_princes l\<rparr>))"

definition can_issue_sanction :: "user \<Rightarrow> sanction_level \<Rightarrow> tournament option \<Rightarrow> bool" where
  "can_issue_sanction issuer level ot =
     allowed (issue_sanction_result (user_to_context issuer) (uid issuer) (level_value level)
       \<lparr>or_country = None,
        or_organizers_uids = (case ot of None \<Rightarrow> [] | Some t \<Rightarrow> t_organizers_uids t),
        or_open_to_country_princes = False\<rparr>)"

definition can_lift_sanction :: "user \<Rightarrow> sanction \<Rightarrow> tournament option \<Rightarrow> bool" where
  "can_lift_sanction u s ot =
     allowed (lift_sanction_result (user_to_context u) (uid u)
       \<lparr>sx_level = level_value (s_level s),
        sx_tournament_country = (case ot of None \<Rightarrow> None | Some t \<Rightarrow> t_country t),
        sx_tournament_state = [], sx_tournament_organizers_uids = []\<rparr>)"

definition can_delete_sanction :: "user \<Rightarrow> sanction \<Rightarrow> tournament option \<Rightarrow> bool" where
  "can_delete_sanction u s ot =
     allowed (delete_sanction_result (user_to_context u) (uid u)
       \<lparr>sx_level = level_value (s_level s), sx_tournament_country = None,
        sx_tournament_state = (case ot of None \<Rightarrow> [] | Some t \<Rightarrow> tstate_value (t_state t)),
        sx_tournament_organizers_uids =
          (case ot of None \<Rightarrow> [] | Some t \<Rightarrow> t_organizers_uids t)\<rparr>)"

definition unconditional_capabilities :: "user \<Rightarrow> string list" where
  "unconditional_capabilities u = unconditional_capabilities_of (user_to_context u)"

section \<open>Facts about the matrix\<close>

named_theorems rule_simps "the grants of each row"

lemmas row_defs =
  row_sponsor_member_def
  row_edit_member_profile_def
  row_delete_member_def
  row_anonymize_member_def
  row_mark_deceased_def
  row_manage_vekn_def
  row_list_non_member_def
  row_export_members_def
  row_merge_accounts_def
  row_create_tournament_def
  row_organize_tournament_def
  row_force_unlock_tournament_def
  row_manage_leagues_def
  row_edit_league_def
  row_moderate_link_def
  row_promote_link_national_def
  row_promote_link_global_def
  row_issue_restricted_sanction_def
  row_issue_tournament_sanction_def
  row_lift_restricted_sanction_def
  row_lift_tournament_sanction_def
  row_modify_sanction_def
  row_delete_any_sanction_def
  row_delete_organizer_sanction_def
  row_view_sanction_reason_def
  row_manage_promos_def
  row_record_promo_intake_def
  row_view_full_promo_ledger_def
  row_manage_oauth_clients_def
  row_run_admin_sync_def
  row_manage_nda_def
  row_set_archival_results_def

lemma row_capability [simp]:
  "ru_capability row_sponsor_member = SponsorMember"
  "ru_capability row_edit_member_profile = EditMemberProfile"
  "ru_capability row_delete_member = DeleteMember"
  "ru_capability row_anonymize_member = AnonymizeMember"
  "ru_capability row_mark_deceased = MarkDeceased"
  "ru_capability row_manage_vekn = ManageVekn"
  "ru_capability row_list_non_member = ListNonMember"
  "ru_capability row_export_members = ExportMembers"
  "ru_capability row_merge_accounts = MergeAccounts"
  "ru_capability row_create_tournament = CreateTournament"
  "ru_capability row_organize_tournament = OrganizeTournament"
  "ru_capability row_force_unlock_tournament = ForceUnlockTournament"
  "ru_capability row_manage_leagues = ManageLeagues"
  "ru_capability row_edit_league = EditLeague"
  "ru_capability row_moderate_link = ModerateLink"
  "ru_capability row_promote_link_national = PromoteLinkNational"
  "ru_capability row_promote_link_global = PromoteLinkGlobal"
  "ru_capability row_issue_restricted_sanction = IssueRestrictedSanction"
  "ru_capability row_issue_tournament_sanction = IssueTournamentSanction"
  "ru_capability row_lift_restricted_sanction = LiftRestrictedSanction"
  "ru_capability row_lift_tournament_sanction = LiftTournamentSanction"
  "ru_capability row_modify_sanction = ModifySanction"
  "ru_capability row_delete_any_sanction = DeleteAnySanction"
  "ru_capability row_delete_organizer_sanction = DeleteOrganizerSanction"
  "ru_capability row_view_sanction_reason = ViewSanctionReason"
  "ru_capability row_manage_promos = ManagePromos"
  "ru_capability row_record_promo_intake = RecordPromoIntake"
  "ru_capability row_view_full_promo_ledger = ViewFullPromoLedger"
  "ru_capability row_manage_oauth_clients = ManageOauthClients"
  "ru_capability row_run_admin_sync = RunAdminSync"
  "ru_capability row_manage_nda = ManageNda"
  "ru_capability row_set_archival_results = SetArchivalResults"
  by (simp_all add: row_defs)

lemma rule_for_rows [simp]:
  "rule_for SponsorMember = row_sponsor_member"
  "rule_for EditMemberProfile = row_edit_member_profile"
  "rule_for DeleteMember = row_delete_member"
  "rule_for AnonymizeMember = row_anonymize_member"
  "rule_for MarkDeceased = row_mark_deceased"
  "rule_for ManageVekn = row_manage_vekn"
  "rule_for ListNonMember = row_list_non_member"
  "rule_for ExportMembers = row_export_members"
  "rule_for MergeAccounts = row_merge_accounts"
  "rule_for CreateTournament = row_create_tournament"
  "rule_for OrganizeTournament = row_organize_tournament"
  "rule_for ForceUnlockTournament = row_force_unlock_tournament"
  "rule_for ManageLeagues = row_manage_leagues"
  "rule_for EditLeague = row_edit_league"
  "rule_for ModerateLink = row_moderate_link"
  "rule_for PromoteLinkNational = row_promote_link_national"
  "rule_for PromoteLinkGlobal = row_promote_link_global"
  "rule_for IssueRestrictedSanction = row_issue_restricted_sanction"
  "rule_for IssueTournamentSanction = row_issue_tournament_sanction"
  "rule_for LiftRestrictedSanction = row_lift_restricted_sanction"
  "rule_for LiftTournamentSanction = row_lift_tournament_sanction"
  "rule_for ModifySanction = row_modify_sanction"
  "rule_for DeleteAnySanction = row_delete_any_sanction"
  "rule_for DeleteOrganizerSanction = row_delete_organizer_sanction"
  "rule_for ViewSanctionReason = row_view_sanction_reason"
  "rule_for ManagePromos = row_manage_promos"
  "rule_for RecordPromoIntake = row_record_promo_intake"
  "rule_for ViewFullPromoLedger = row_view_full_promo_ledger"
  "rule_for ManageOauthClients = row_manage_oauth_clients"
  "rule_for RunAdminSync = row_run_admin_sync"
  "rule_for ManageNda = row_manage_nda"
  "rule_for SetArchivalResults = row_set_archival_results"
  by (simp_all add: rule_for_def CAPABILITIES_def)

lemma row_grants [rule_simps]:
  "ru_global row_sponsor_member = OFFICIAL_ROLES" "ru_same_country row_sponsor_member = []"
  "ru_self_service row_sponsor_member = False" "ru_organizer row_sponsor_member = False"
  "ru_global row_edit_member_profile = [IC]" "ru_same_country row_edit_member_profile = [NC]"
  "ru_self_service row_edit_member_profile = True" "ru_organizer row_edit_member_profile = False"
  "ru_global row_delete_member = [IC]" "ru_same_country row_delete_member = []"
  "ru_self_service row_delete_member = False" "ru_organizer row_delete_member = False"
  "ru_global row_anonymize_member = [IC]" "ru_same_country row_anonymize_member = []"
  "ru_self_service row_anonymize_member = False" "ru_organizer row_anonymize_member = False"
  "ru_global row_mark_deceased = [IC]" "ru_same_country row_mark_deceased = [NC]"
  "ru_self_service row_mark_deceased = False" "ru_organizer row_mark_deceased = False"
  "ru_global row_manage_vekn = [IC]" "ru_same_country row_manage_vekn = [NC]"
  "ru_self_service row_manage_vekn = False" "ru_organizer row_manage_vekn = False"
  "ru_global row_list_non_member = [IC]" "ru_same_country row_list_non_member = [NC, PRINCE]"
  "ru_self_service row_list_non_member = False" "ru_organizer row_list_non_member = False"
  "ru_global row_export_members = OFFICIAL_ROLES" "ru_same_country row_export_members = []"
  "ru_self_service row_export_members = False" "ru_organizer row_export_members = False"
  "ru_global row_merge_accounts = [IC]" "ru_same_country row_merge_accounts = []"
  "ru_self_service row_merge_accounts = False" "ru_organizer row_merge_accounts = False"
  "ru_global row_create_tournament = OFFICIAL_ROLES" "ru_same_country row_create_tournament = []"
  "ru_self_service row_create_tournament = False" "ru_organizer row_create_tournament = False"
  "ru_global row_organize_tournament = [IC]" "ru_same_country row_organize_tournament = [NC]"
  "ru_self_service row_organize_tournament = False" "ru_organizer row_organize_tournament = True"
  "ru_global row_force_unlock_tournament = [IC]" "ru_same_country row_force_unlock_tournament = []"
  "ru_self_service row_force_unlock_tournament = False" "ru_organizer row_force_unlock_tournament = False"
  "ru_global row_manage_leagues = [IC, NC]" "ru_same_country row_manage_leagues = []"
  "ru_self_service row_manage_leagues = False" "ru_organizer row_manage_leagues = False"
  "ru_global row_edit_league = [IC]" "ru_same_country row_edit_league = [NC]"
  "ru_self_service row_edit_league = False" "ru_organizer row_edit_league = True"
  "ru_global row_moderate_link = [IC]" "ru_same_country row_moderate_link = [NC]"
  "ru_self_service row_moderate_link = False" "ru_organizer row_moderate_link = False"
  "ru_global row_promote_link_national = [IC]" "ru_same_country row_promote_link_national = [NC]"
  "ru_self_service row_promote_link_national = False" "ru_organizer row_promote_link_national = False"
  "ru_global row_promote_link_global = [IC]" "ru_same_country row_promote_link_global = []"
  "ru_self_service row_promote_link_global = False" "ru_organizer row_promote_link_global = False"
  "ru_global row_issue_restricted_sanction = [IC, ETHICS]" "ru_same_country row_issue_restricted_sanction = []"
  "ru_self_service row_issue_restricted_sanction = False" "ru_organizer row_issue_restricted_sanction = False"
  "ru_global row_issue_tournament_sanction = [IC, ETHICS]" "ru_same_country row_issue_tournament_sanction = []"
  "ru_self_service row_issue_tournament_sanction = False" "ru_organizer row_issue_tournament_sanction = True"
  "ru_global row_lift_restricted_sanction = [IC, ETHICS]" "ru_same_country row_lift_restricted_sanction = []"
  "ru_self_service row_lift_restricted_sanction = False" "ru_organizer row_lift_restricted_sanction = False"
  "ru_global row_lift_tournament_sanction = [IC, RULEMONGER]" "ru_same_country row_lift_tournament_sanction = [NC]"
  "ru_self_service row_lift_tournament_sanction = False" "ru_organizer row_lift_tournament_sanction = False"
  "ru_global row_modify_sanction = [IC, ETHICS]" "ru_same_country row_modify_sanction = []"
  "ru_self_service row_modify_sanction = False" "ru_organizer row_modify_sanction = False"
  "ru_global row_delete_any_sanction = [IC, ETHICS]" "ru_same_country row_delete_any_sanction = []"
  "ru_self_service row_delete_any_sanction = False" "ru_organizer row_delete_any_sanction = False"
  "ru_global row_delete_organizer_sanction = []" "ru_same_country row_delete_organizer_sanction = []"
  "ru_self_service row_delete_organizer_sanction = False" "ru_organizer row_delete_organizer_sanction = True"
  "ru_global row_view_sanction_reason = [IC, ETHICS, RULEMONGER]" "ru_same_country row_view_sanction_reason = [NC]"
  "ru_self_service row_view_sanction_reason = True" "ru_organizer row_view_sanction_reason = True"
  "ru_global row_manage_promos = [IC]" "ru_same_country row_manage_promos = []"
  "ru_self_service row_manage_promos = False" "ru_organizer row_manage_promos = False"
  "ru_global row_record_promo_intake = [IC, NC]" "ru_same_country row_record_promo_intake = []"
  "ru_self_service row_record_promo_intake = False" "ru_organizer row_record_promo_intake = False"
  "ru_global row_view_full_promo_ledger = [IC, NC]" "ru_same_country row_view_full_promo_ledger = []"
  "ru_self_service row_view_full_promo_ledger = False" "ru_organizer row_view_full_promo_ledger = False"
  "ru_global row_manage_oauth_clients = [IC, DEV]" "ru_same_country row_manage_oauth_clients = []"
  "ru_self_service row_manage_oauth_clients = False" "ru_organizer row_manage_oauth_clients = False"
  "ru_global row_run_admin_sync = [IC]" "ru_same_country row_run_admin_sync = []"
  "ru_self_service row_run_admin_sync = False" "ru_organizer row_run_admin_sync = False"
  "ru_global row_manage_nda = [IC, PTC]" "ru_same_country row_manage_nda = []"
  "ru_self_service row_manage_nda = False" "ru_organizer row_manage_nda = False"
  "ru_global row_set_archival_results = [IC]" "ru_same_country row_set_archival_results = []"
  "ru_self_service row_set_archival_results = False" "ru_organizer row_set_archival_results = False"
  by (simp_all add: row_defs)

lemma row_countryless [rule_simps]:
  "ru_countryless_target row_sponsor_member = False"
  "ru_countryless_target row_edit_member_profile = False"
  "ru_countryless_target row_delete_member = False"
  "ru_countryless_target row_anonymize_member = False"
  "ru_countryless_target row_mark_deceased = False"
  "ru_countryless_target row_manage_vekn = False"
  "ru_countryless_target row_list_non_member = True"
  "ru_countryless_target row_export_members = False"
  "ru_countryless_target row_merge_accounts = False"
  "ru_countryless_target row_create_tournament = False"
  "ru_countryless_target row_organize_tournament = False"
  "ru_countryless_target row_force_unlock_tournament = False"
  "ru_countryless_target row_manage_leagues = False"
  "ru_countryless_target row_edit_league = False"
  "ru_countryless_target row_moderate_link = False"
  "ru_countryless_target row_promote_link_national = False"
  "ru_countryless_target row_promote_link_global = False"
  "ru_countryless_target row_issue_restricted_sanction = False"
  "ru_countryless_target row_issue_tournament_sanction = False"
  "ru_countryless_target row_lift_restricted_sanction = False"
  "ru_countryless_target row_lift_tournament_sanction = False"
  "ru_countryless_target row_modify_sanction = False"
  "ru_countryless_target row_delete_any_sanction = False"
  "ru_countryless_target row_delete_organizer_sanction = False"
  "ru_countryless_target row_view_sanction_reason = False"
  "ru_countryless_target row_manage_promos = False"
  "ru_countryless_target row_record_promo_intake = False"
  "ru_countryless_target row_view_full_promo_ledger = False"
  "ru_countryless_target row_manage_oauth_clients = False"
  "ru_countryless_target row_run_admin_sync = False"
  "ru_countryless_target row_manage_nda = False"
  "ru_countryless_target row_set_archival_results = False"
  by (simp_all add: row_defs)

lemma rule_for_in: "rule_for c \<in> set CAPABILITIES"
  by (cases c) (simp_all add: CAPABILITIES_def)

lemma rule_for_capability [simp]: "ru_capability (rule_for c) = c"
  by (cases c) simp_all

lemma row_names [rule_simps]:
  "ru_name row_sponsor_member = ''sponsor_member''"
  "ru_name row_edit_member_profile = ''edit_member_profile''"
  "ru_name row_delete_member = ''delete_member''"
  "ru_name row_anonymize_member = ''anonymize_member''"
  "ru_name row_mark_deceased = ''mark_deceased''"
  "ru_name row_manage_vekn = ''manage_vekn''"
  "ru_name row_list_non_member = ''list_non_member''"
  "ru_name row_export_members = ''export_members''"
  "ru_name row_merge_accounts = ''merge_accounts''"
  "ru_name row_create_tournament = ''create_tournament''"
  "ru_name row_organize_tournament = ''organize_tournament''"
  "ru_name row_force_unlock_tournament = ''force_unlock_tournament''"
  "ru_name row_manage_leagues = ''manage_leagues''"
  "ru_name row_edit_league = ''edit_league''"
  "ru_name row_moderate_link = ''moderate_link''"
  "ru_name row_promote_link_national = ''promote_link_national''"
  "ru_name row_promote_link_global = ''promote_link_global''"
  "ru_name row_issue_restricted_sanction = ''issue_restricted_sanction''"
  "ru_name row_issue_tournament_sanction = ''issue_tournament_sanction''"
  "ru_name row_lift_restricted_sanction = ''lift_restricted_sanction''"
  "ru_name row_lift_tournament_sanction = ''lift_tournament_sanction''"
  "ru_name row_modify_sanction = ''modify_sanction''"
  "ru_name row_delete_any_sanction = ''delete_any_sanction''"
  "ru_name row_delete_organizer_sanction = ''delete_organizer_sanction''"
  "ru_name row_view_sanction_reason = ''view_sanction_reason''"
  "ru_name row_manage_promos = ''manage_promos''"
  "ru_name row_record_promo_intake = ''record_promo_intake''"
  "ru_name row_view_full_promo_ledger = ''view_full_promo_ledger''"
  "ru_name row_manage_oauth_clients = ''manage_oauth_clients''"
  "ru_name row_run_admin_sync = ''run_admin_sync''"
  "ru_name row_manage_nda = ''manage_nda''"
  "ru_name row_set_archival_results = ''set_archival_results''"
  by (simp_all add: row_defs)

lemma capability_from_row:
  "capability_from_str ''sponsor_member'' = Some SponsorMember"
  "capability_from_str ''edit_member_profile'' = Some EditMemberProfile"
  "capability_from_str ''delete_member'' = Some DeleteMember"
  "capability_from_str ''anonymize_member'' = Some AnonymizeMember"
  "capability_from_str ''mark_deceased'' = Some MarkDeceased"
  "capability_from_str ''manage_vekn'' = Some ManageVekn"
  "capability_from_str ''list_non_member'' = Some ListNonMember"
  "capability_from_str ''export_members'' = Some ExportMembers"
  "capability_from_str ''merge_accounts'' = Some MergeAccounts"
  "capability_from_str ''create_tournament'' = Some CreateTournament"
  "capability_from_str ''organize_tournament'' = Some OrganizeTournament"
  "capability_from_str ''force_unlock_tournament'' = Some ForceUnlockTournament"
  "capability_from_str ''manage_leagues'' = Some ManageLeagues"
  "capability_from_str ''edit_league'' = Some EditLeague"
  "capability_from_str ''moderate_link'' = Some ModerateLink"
  "capability_from_str ''promote_link_national'' = Some PromoteLinkNational"
  "capability_from_str ''promote_link_global'' = Some PromoteLinkGlobal"
  "capability_from_str ''issue_restricted_sanction'' = Some IssueRestrictedSanction"
  "capability_from_str ''issue_tournament_sanction'' = Some IssueTournamentSanction"
  "capability_from_str ''lift_restricted_sanction'' = Some LiftRestrictedSanction"
  "capability_from_str ''lift_tournament_sanction'' = Some LiftTournamentSanction"
  "capability_from_str ''modify_sanction'' = Some ModifySanction"
  "capability_from_str ''delete_any_sanction'' = Some DeleteAnySanction"
  "capability_from_str ''delete_organizer_sanction'' = Some DeleteOrganizerSanction"
  "capability_from_str ''view_sanction_reason'' = Some ViewSanctionReason"
  "capability_from_str ''manage_promos'' = Some ManagePromos"
  "capability_from_str ''record_promo_intake'' = Some RecordPromoIntake"
  "capability_from_str ''view_full_promo_ledger'' = Some ViewFullPromoLedger"
  "capability_from_str ''manage_oauth_clients'' = Some ManageOauthClients"
  "capability_from_str ''run_admin_sync'' = Some RunAdminSync"
  "capability_from_str ''manage_nda'' = Some ManageNda"
  "capability_from_str ''set_archival_results'' = Some SetArchivalResults"
  by (simp_all add: capability_from_str_def CAPABILITIES_def row_names)

lemma capability_from_name: "capability_from_str (ru_name (rule_for c)) = Some c"
  by (cases c) (simp_all add: row_names capability_from_row)

lemma scoped_rows_have_no_organizer_grant:
  "ru_deny_scope (rule_for c) \<noteq> None \<Longrightarrow> \<not> ru_organizer (rule_for c)"
  by (cases c) (simp_all add: row_defs)


lemmas check_defs = check_def check_rule_def Let_def new_request_def in_own_country_def
  has_any_def has_role_def has_organizer_def

lemma allowed_iff: "allowed r \<longleftrightarrow> r = Allow"
  by (cases r) simp_all

text \<open>What one row decides, without its denial texts.\<close>

lemma allowed_check_rule:
  assumes "ru_deny_scope rule \<noteq> None \<Longrightarrow> \<not> ru_organizer rule"
  shows "allowed (check_rule rule q) \<longleftrightarrow>
     ru_self_service rule \<and> rq_target_uid q = Some (rq_actor_uid q)
     \<or> has_any (rq_actor q) (ru_global rule)
     \<or> has_any (rq_actor q) (ru_same_country rule)
       \<and> (in_own_country q \<or> ru_countryless_target rule \<and> rq_target_country q = None)
     \<or> ru_organizer rule
       \<and> (\<exists>r. rq_resource q = Some r \<and> has_organizer r (rq_actor_uid q))"
  using assms by (auto simp: check_rule_def Let_def split: option.splits)

lemma allowed_check:
  "allowed (check c q) \<longleftrightarrow>
     ru_self_service (rule_for c) \<and> rq_target_uid q = Some (rq_actor_uid q)
     \<or> has_any (rq_actor q) (ru_global (rule_for c))
     \<or> has_any (rq_actor q) (ru_same_country (rule_for c))
       \<and> (in_own_country q \<or> ru_countryless_target (rule_for c) \<and> rq_target_country q = None)
     \<or> ru_organizer (rule_for c)
       \<and> (\<exists>r. rq_resource q = Some r \<and> has_organizer r (rq_actor_uid q))"
  unfolding check_def by (rule allowed_check_rule) (rule scoped_rows_have_no_organizer_grant)

lemma has_any_mono: "set (uc_roles a) \<subseteq> set (uc_roles b) \<Longrightarrow> has_any a rs \<Longrightarrow> has_any b rs"
  by (auto simp: has_any_def has_role_def)

section \<open>Properties\<close>

text \<open>Every capability of the engine has exactly one row in the matrix, its wire name
  resolves back to it, and the row found for it is its own: the lookup that would panic on a
  missing row never does.\<close>

theorem every_capability_has_one_rule:
  "length (filter (\<lambda>r. ru_capability r = c) CAPABILITIES) = 1
   \<and> ru_capability (rule_for c) = c
   \<and> capability_from_str (ru_name (rule_for c)) = Some c"
  by (cases c) (simp_all add: CAPABILITIES_def capability_from_name row_names capability_from_row)

text \<open>C5: Deny by default: whoever holds no role, is not the target of the request and does not
  organize its resource is refused every capability, with the row's own denial.\<close>

theorem deny_by_default:
  assumes "uc_roles (rq_actor q) = []" and "rq_target_uid q \<noteq> Some (rq_actor_uid q)"
    and "\<And>r. rq_resource q = Some r \<Longrightarrow> \<not> has_organizer r (rq_actor_uid q)"
  shows "check c q = Deny (ru_deny (rule_for c))"
  using assms by (auto simp: check_defs split: option.splits)

theorem deny_by_default_witness:
  "check EditMemberProfile ((new_request \<lparr>uc_roles = [], uc_country = Some ''FR'',
     uc_vekn_id = None, uc_has_nda = False\<rparr> ''a'')\<lparr>rq_target_uid := Some ''b''\<rparr>)
   = Deny (ru_deny row_edit_member_profile)"
  using deny_by_default
    [of "(new_request \<lparr>uc_roles = [], uc_country = Some ''FR'', uc_vekn_id = None,
            uc_has_nda = False\<rparr> ''a'')\<lparr>rq_target_uid := Some ''b''\<rparr>" EditMemberProfile]
  by (simp add: new_request_def)

text \<open>C7: Authority is monotone in the roles: whoever holds more roles than another actor with
  the same uid and country is allowed whatever the other is.  (It would fail if a row had both
  a scoped denial and an organizer grant: an organizer would lose the event by becoming NC
  elsewhere.)\<close>

theorem roles_never_cost_authority:
  assumes "set (uc_roles (rq_actor q)) \<subseteq> set (uc_roles b)"
    and "uc_country b = uc_country (rq_actor q)"
    and "allowed (check c q)"
  shows "allowed (check c (q\<lparr>rq_actor := b\<rparr>))"
  using assms(3) has_any_mono [OF assms(1)] assms(2)
  by (auto simp: allowed_check in_own_country_def)

theorem roles_never_cost_authority_witness:
  "allowed (check OrganizeTournament
     \<lparr>rq_actor = \<lparr>uc_roles = [NC], uc_country = Some ''FR'', uc_vekn_id = None,
        uc_has_nda = False\<rparr>, rq_actor_uid = ''a'', rq_target_uid = None,
      rq_target_country = Some ''US'',
      rq_resource = Some \<lparr>or_country = Some ''US'', or_organizers_uids = [''a''],
        or_open_to_country_princes = False\<rparr>\<rparr>)"
  using roles_never_cost_authority
    [of "\<lparr>rq_actor = \<lparr>uc_roles = [], uc_country = Some ''FR'', uc_vekn_id = None,
           uc_has_nda = False\<rparr>, rq_actor_uid = ''a'', rq_target_uid = None,
         rq_target_country = Some ''US'',
         rq_resource = Some \<lparr>or_country = Some ''US'', or_organizers_uids = [''a''],
           or_open_to_country_princes = False\<rparr>\<rparr>"
        "\<lparr>uc_roles = [NC], uc_country = Some ''FR'', uc_vekn_id = None, uc_has_nda = False\<rparr>"
        OrganizeTournament]
  by (simp add: allowed_check rule_simps has_organizer_def)

text \<open>C6: Who may grant or revoke a role, in full: the target holds a VEKN id; granting PT (not
  revoking it) takes a signed NDA; and the actor is IC, or an NC changing Prince in their own
  country, or a PTC changing PT; Judge and Sheriff are nobody's to change.\<close>

theorem change_role_authority:
  "can_change_role actor target r nda \<longleftrightarrow>
     u_vekn_id target \<noteq> None
     \<and> \<not> (r = PT \<and> PT \<notin> set (u_roles target) \<and> \<not> nda)
     \<and> r \<noteq> JUDGE \<and> r \<noteq> SHERIFF
     \<and> (IC \<in> set (u_roles actor)
        \<or> r = PRINCE \<and> NC \<in> set (u_roles actor) \<and> u_country actor \<noteq> None
          \<and> u_country actor = u_country target
        \<or> r = PT \<and> PTC \<in> set (u_roles actor))"
  by (cases r; cases "u_country actor"; cases "u_country target")
     (auto simp: can_change_role_def change_role_result_def appointment_for_def
       ROLE_APPOINTMENTS_def user_to_context_def has_any_def has_role_def Let_def)

lemma level_value_restricted [simp]:
  "restricted_level (level_value l) \<longleftrightarrow> l = SUSPENSION \<or> l = PROBATION"
  by (cases l) (simp_all add: restricted_level_def)

lemma level_value_issuable [simp]:
  "organizer_issuable (level_value l) \<longleftrightarrow> l \<noteq> SUSPENSION \<and> l \<noteq> PROBATION"
  by (cases l) (simp_all add: organizer_issuable_def)

lemmas sanction_guard_defs = can_delete_sanction_def can_issue_sanction_def
  delete_sanction_result_def issue_sanction_result_def user_to_context_def new_request_def

lemma can_issue_sanction_iff:
  "can_issue_sanction u l ot \<longleftrightarrow>
     IC \<in> set (u_roles u) \<or> ETHICS \<in> set (u_roles u)
     \<or> l \<noteq> SUSPENSION \<and> l \<noteq> PROBATION
       \<and> (\<exists>t. ot = Some t \<and> uid u \<in> set (t_organizers_uids t))"
  by (auto simp: sanction_guard_defs allowed_check rule_simps has_any_def has_role_def
        has_organizer_def split: option.splits)

lemma can_delete_sanction_iff:
  "can_delete_sanction u s ot \<longleftrightarrow>
     IC \<in> set (u_roles u) \<or> ETHICS \<in> set (u_roles u)
     \<or> s_level s \<noteq> SUSPENSION \<and> s_level s \<noteq> PROBATION
       \<and> (\<exists>t. ot = Some t \<and> t_state t \<noteq> T_FINISHED \<and> uid u \<in> set (t_organizers_uids t))"
proof -
  have "tstate_value st = ''Finished'' \<longleftrightarrow> st = T_FINISHED" for st by (cases st) simp_all
  then show ?thesis
    by (auto simp: sanction_guard_defs allowed_check rule_simps has_any_def has_role_def
          has_organizer_def Let_def split: option.splits)
qed

text \<open>Undo without escalating: whoever may delete a sanction could have issued it at that
  level for that tournament; and an organizer outside the Ethics chain deletes one only while
  the tournament is unfinished.\<close>

theorem delete_sanction_within_issue:
  assumes "can_delete_sanction u s ot"
  shows "can_issue_sanction u (s_level s) ot
    \<and> (IC \<notin> set (u_roles u) \<and> ETHICS \<notin> set (u_roles u)
       \<longrightarrow> (\<exists>t. ot = Some t \<and> t_state t \<noteq> T_FINISHED \<and> uid u \<in> set (t_organizers_uids t)))"
  using assms by (auto simp: can_issue_sanction_iff can_delete_sanction_iff)

lemmas py_check_defs = py_check_def Let_def capability_from_row user_to_context_def

lemma is_organizer_iff:
  "is_organizer u t = Inr (IC \<in> set (u_roles u)
     \<or> NC \<in> set (u_roles u) \<and> u_country u \<noteq> None \<and> u_country u = t_country t
     \<or> uid u \<in> set (t_organizers_uids t))"
  by (auto simp: is_organizer_def py_check_defs allowed_check rule_simps tournament_resource_def
        has_any_def has_role_def has_organizer_def in_own_country_def)

theorem delete_sanction_within_issue_witness:
  "can_issue_sanction
     ((new_user ''u'' (Instant 2025 1 1 0) ''Ann'')\<lparr>u_roles := [ETHICS]\<rparr>) SUSPENSION None"
  using delete_sanction_within_issue
    [of "(new_user ''u'' (Instant 2025 1 1 0) ''Ann'')\<lparr>u_roles := [ETHICS]\<rparr>"
        "new_sanction ''s'' (Instant 2025 1 1 0) ''v'' ''w'' SUSPENSION UNSPORTSMANLIKE_CONDUCT ''d'' (Instant 2025 1 1 0)" None]
  by (simp add: can_delete_sanction_iff new_user_def new_sanction_def)

lemma can_sponsor_member_iff: "can_sponsor_member u = Inr (is_official u)"
  by (simp add: can_sponsor_member_def is_official_def py_check_defs allowed_check rule_simps
        OFFICIAL_ROLES_def has_any_def has_role_def)

text \<open>Taking a tournament offline is exactly running it and holding the power to create
  members; in particular a Prince who does not organize the event never may.\<close>

theorem take_offline_authority:
  "can_take_tournament_offline u t \<longleftrightarrow>
     is_organizer u t = Inr True \<and> can_sponsor_member u = Inr True"
  by (auto simp: can_take_tournament_offline_def take_offline_result_def is_organizer_iff
        can_sponsor_member_iff is_official_def user_to_context_def new_request_def
        allowed_check rule_simps OFFICIAL_ROLES_def tournament_resource_def
        has_any_def has_role_def has_organizer_def in_own_country_def Let_def)

end
