(* ===== verification/Access_Levels.thy ===== *)
theory Access_Levels
  imports Permissions
begin

text \<open>
  \<open>backend/src/access_levels.py\<close>: the public, member, api and full projections of every object
  type, computed on the dictionary of the object, and the cloaking of published contacts with
  its inverse in \<open>frontend/src/lib/contact.ts\<close>.  Texts are their UTF-8 bytes, so Python's
  \<open>encode\<close> and the browser's \<open>TextDecoder\<close> are the identity.  Sets of field names are sets; a
  subscript of a missing key raises.
\<close>

section \<open>Base64\<close>

definition b64_alphabet :: string where
  "b64_alphabet = ''ABCDEFGHIJKLMNOPQRSTUVWXYZabcdefghijklmnopqrstuvwxyz0123456789+/''"

definition b64_char :: "nat \<Rightarrow> char" where
  "b64_char n = b64_alphabet ! n"

fun b64_bytes :: "nat list \<Rightarrow> string" where
  "b64_bytes [] = []"
| "b64_bytes [a] = [b64_char (a div 4), b64_char (a mod 4 * 16), CHR ''='', CHR ''='']"
| "b64_bytes [a, b] =
     [b64_char (a div 4), b64_char (a mod 4 * 16 + b div 16), b64_char (b mod 16 * 4), CHR ''='']"
| "b64_bytes (a # b # c # bs) =
     [b64_char (a div 4), b64_char (a mod 4 * 16 + b div 16),
      b64_char (b mod 16 * 4 + c div 64), b64_char (c mod 64)] @ b64_bytes bs"

definition b64encode :: "string \<Rightarrow> string" where
  "b64encode s = b64_bytes (map of_char s)"

text \<open>\<open>atob\<close>: four characters at a time, padding only in the last group; \<open>None\<close> on anything
  else, where the browser throws.\<close>

fun b64_index_from :: "nat \<Rightarrow> string \<Rightarrow> char \<Rightarrow> nat option" where
  "b64_index_from n [] c = None"
| "b64_index_from n (x # xs) c = (if x = c then Some n else b64_index_from (Suc n) xs c)"

definition b64_index :: "char \<Rightarrow> nat option" where
  "b64_index c = b64_index_from 0 b64_alphabet c"

definition b64_group :: "char \<Rightarrow> char \<Rightarrow> char \<Rightarrow> char \<Rightarrow> nat list option" where
  "b64_group p q r s =
     (case (b64_index p, b64_index q, b64_index r, b64_index s) of
        (Some a, Some b, Some c, Some d) \<Rightarrow>
          Some [a * 4 + b div 16, b mod 16 * 16 + c div 4, c mod 4 * 64 + d]
      | _ \<Rightarrow> None)"

definition b64_last_group :: "char \<Rightarrow> char \<Rightarrow> char \<Rightarrow> char \<Rightarrow> nat list option" where
  "b64_last_group p q r s =
     (if s \<noteq> CHR ''='' then b64_group p q r s
      else case (b64_index p, b64_index q) of
        (Some a, Some b) \<Rightarrow>
          (if r = CHR ''='' then Some [a * 4 + b div 16]
           else map_option (\<lambda>c. [a * 4 + b div 16, b mod 16 * 16 + c div 4]) (b64_index r))
      | _ \<Rightarrow> None)"

fun atob_bytes :: "string \<Rightarrow> nat list option" where
  "atob_bytes [] = Some []"
| "atob_bytes [p, q, r, s] = b64_last_group p q r s"
| "atob_bytes (p # q # r # s # cs) =
     (case (b64_group p q r s, atob_bytes cs) of
        (Some g, Some bs) \<Rightarrow> Some (g @ bs) | _ \<Rightarrow> None)"
| "atob_bytes _ = None"

section \<open>Cloaked contacts\<close>

definition OBFUSCATED_PREFIX :: string where
  "OBFUSCATED_PREFIX = ''#b64#''"

definition starts_with :: "string \<Rightarrow> string \<Rightarrow> bool" where
  "starts_with s p \<longleftrightarrow> take (length p) s = p"

definition obfuscate :: "string \<Rightarrow> string" where
  "obfuscate v = (if starts_with v OBFUSCATED_PREFIX then v
                  else OBFUSCATED_PREFIX @ b64encode v)"

text \<open>\<open>deobfuscateContact\<close> of the frontend\<close>

definition deobfuscateContact :: "string option \<Rightarrow> string" where
  "deobfuscateContact ov = (case ov of None \<Rightarrow> [] | Some v \<Rightarrow>
     if v = [] then []
     else if \<not> starts_with v OBFUSCATED_PREFIX then v
     else case atob_bytes (drop (length OBFUSCATED_PREFIX) v) of
            Some bs \<Rightarrow> map char_of bs | None \<Rightarrow> v)"

definition PUBLIC_OBFUSCATED_FIELDS :: "string list" where
  "PUBLIC_OBFUSCATED_FIELDS = [''contact_email'', ''contact_phone'']"

definition obfuscate_field :: "string \<Rightarrow> dict \<Rightarrow> dict" where
  "obfuscate_field f proj = (case map_of proj f of
     Some (JStr (c # cs)) \<Rightarrow> put f (JStr (obfuscate (c # cs))) proj
   | _ \<Rightarrow> proj)"

definition obfuscate_public_contacts :: "dict \<Rightarrow> dict" where
  "obfuscate_public_contacts proj = fold obfuscate_field PUBLIC_OBFUSCATED_FIELDS proj"

section \<open>Users\<close>

definition USER_PUBLIC_FIELDS :: "string set" where
  "USER_PUBLIC_FIELDS = {''uid'', ''modified'', ''deleted_at'', ''name'', ''country'', ''roles'',
     ''vekn_prefix''}"

definition USER_CONTACT_FIELDS :: "string set" where
  "USER_CONTACT_FIELDS = {''contact_email'', ''contact_discord'', ''discord_id'',
     ''contact_phone'', ''phone_is_whatsapp''}"

definition USER_COMMUNITY_LINKS :: "string set" where
  "USER_COMMUNITY_LINKS = {''community_links''}"

definition USER_LINKS_ONLY_FIELDS :: "string set" where
  "USER_LINKS_ONLY_FIELDS = {''uid'', ''modified'', ''deleted_at'', ''country'', ''roles'',
     ''community_links''}"

definition USER_MEMBER_FIELDS :: "string set" where
  "USER_MEMBER_FIELDS = USER_PUBLIC_FIELDS
     \<union> {''vekn_id'', ''city'', ''city_geoname_id'', ''state'', ''nickname'', ''avatar_path''}
     \<union> {''deceased_at'', ''anonymized_at''}
     \<union> {''discord_id''}
     \<union> {''constructed_online'', ''constructed_offline'', ''limited_online'',
        ''limited_offline'', ''wins''}"

definition API_SYNC_FIELDS :: "string set" where
  "API_SYNC_FIELDS = {''modified'', ''deleted_at''}"

definition USER_API_CITY_FIELDS :: "string set" where
  "USER_API_CITY_FIELDS = {''city'', ''city_geoname_id''}"

definition USER_API_FIELDS :: "string set" where
  "USER_API_FIELDS = {''uid'', ''vekn_id'', ''country'', ''roles'', ''community_links'',
     ''constructed_online'', ''constructed_offline'', ''limited_online'', ''limited_offline'',
     ''wins''} \<union> USER_API_CITY_FIELDS"

definition USER_API_CITY_ROLES :: "role list" where
  "USER_API_CITY_ROLES = [IC, NC, PRINCE, RULEMONGER, JUDGE, SHERIFF]"

definition pick :: "dict \<Rightarrow> string set \<Rightarrow> dict" where
  "pick d ks = keep_keys (\<lambda>k. k \<in> ks) d"

text \<open>\<open>d.get("roles", [])\<close> as the list of its texts\<close>

definition roles_of :: "dict \<Rightarrow> string list" where
  "roles_of d = List.map_filter json_str (json_members (dict_get d ''roles''))"

definition compute_user_public :: "dict \<Rightarrow> dict option" where
  "compute_user_public d =
     (if publishes_contact (roles_of d)
      then Some (obfuscate_public_contacts
             (pick d (USER_PUBLIC_FIELDS \<union> USER_CONTACT_FIELDS \<union> USER_COMMUNITY_LINKS)))
      else if role_value IC \<in> set (roles_of d)
        then Some (pick d (USER_PUBLIC_FIELDS \<union> USER_COMMUNITY_LINKS))
      else if json_truthy (dict_get d ''community_links'')
        then Some (pick d USER_LINKS_ONLY_FIELDS)
      else None)"

definition compute_user_member :: "dict \<Rightarrow> dict" where
  "compute_user_member d =
     (if publishes_contact (roles_of d)
      then pick d (USER_MEMBER_FIELDS \<union> USER_CONTACT_FIELDS \<union> USER_COMMUNITY_LINKS)
      else if role_value IC \<in> set (roles_of d)
        then pick d (USER_MEMBER_FIELDS \<union> USER_COMMUNITY_LINKS)
      else if json_truthy (dict_get d ''community_links'')
        then pick d (USER_MEMBER_FIELDS \<union> USER_COMMUNITY_LINKS)
      else pick d USER_MEMBER_FIELDS)"

definition compute_user_api :: "dict \<Rightarrow> dict option" where
  "compute_user_api d =
     (if \<not> json_truthy (dict_get d ''vekn_id'') then None
      else if \<forall>r \<in> set USER_API_CITY_ROLES. role_value r \<notin> set (roles_of d)
        then Some (pick d (USER_API_FIELDS - USER_API_CITY_FIELDS))
      else Some (pick d USER_API_FIELDS))"

definition USER_OWNER_ONLY_FIELDS :: "string set" where
  "USER_OWNER_ONLY_FIELDS = {''calendar_token'', ''agenda_hidden'', ''agenda_added''}"

definition compute_user_full :: "dict \<Rightarrow> dict" where
  "compute_user_full d = keep_keys (\<lambda>k. k \<notin> USER_OWNER_ONLY_FIELDS) d"

section \<open>Tournaments\<close>

definition TOURNAMENT_PUBLIC_FIELDS :: "string set" where
  "TOURNAMENT_PUBLIC_FIELDS = {''uid'', ''modified'', ''deleted_at'', ''name'', ''format'',
     ''rank'', ''online'', ''start'', ''finish'', ''timezone'', ''country'', ''city'',
     ''city_geoname_id'', ''league_uid'', ''state'', ''banner_path'', ''venue'', ''venue_url'',
     ''address'', ''map_url'', ''registration_url'', ''description'', ''external_ids'',
     ''event_code'', ''proxies'', ''multideck'', ''decklist_required'', ''max_rounds'',
     ''max_players'', ''open_rounds'', ''self_organized_rounds''}"

definition TOURNAMENT_MEMBER_EXCLUDE :: "string set" where
  "TOURNAMENT_MEMBER_EXCLUDE = {''checkin_code'', ''vekn_pushed_at'', ''vekn_results_stale'',
     ''vekn_event_absent_at'', ''twda_status''}"

definition TOURNAMENT_API_EXCLUDE :: "string set" where
  "TOURNAMENT_API_EXCLUDE = TOURNAMENT_MEMBER_EXCLUDE \<union> API_SYNC_FIELDS
     \<union> {''announcements'', ''raffles'', ''promos_distributed'', ''promo_stock_source_uid'',
        ''offline_device_id''}"

definition PLAYER_API_EXCLUDE :: "string set" where
  "PLAYER_API_EXCLUDE = {''display_name'', ''missing_decklist'', ''payment_status'',
     ''waitlisted''}"

definition compute_tournament_public :: "dict \<Rightarrow> dict" where
  "compute_tournament_public d =
     (let proj = pick d TOURNAMENT_PUBLIC_FIELDS
      in if json_truthy (dict_get d ''online'') then del ''venue_url'' proj else proj)"

definition compute_tournament_member :: "dict \<Rightarrow> dict" where
  "compute_tournament_member d = keep_keys (\<lambda>k. k \<notin> TOURNAMENT_MEMBER_EXCLUDE) d"

definition player_api :: "json \<Rightarrow> json res" where
  "player_api player = bind_res (json_obj player)
     (\<lambda>d. Inr (JObj (keep_keys (\<lambda>k. k \<notin> PLAYER_API_EXCLUDE) d)))"

definition compute_tournament_api :: "dict \<Rightarrow> dict res" where
  "compute_tournament_api d =
     bind_res (json_item (JObj d) ''players'') (\<lambda>ps.
     bind_res (json_list ps) (\<lambda>players.
     bind_res (map_res player_api players) (\<lambda>projected.
     Inr (put ''players'' (JArr projected)
            (keep_keys (\<lambda>k. k \<notin> TOURNAMENT_API_EXCLUDE) d)))))"

definition compute_tournament_full :: "dict \<Rightarrow> dict" where
  "compute_tournament_full d = d"

section \<open>Decks, leagues and promos\<close>

definition DECK_API_EXCLUDE :: "string set" where
  "DECK_API_EXCLUDE = API_SYNC_FIELDS \<union> {''public'', ''private'', ''views''}"

definition published_deck :: "dict \<Rightarrow> dict res" where
  "published_deck d =
     bind_res (json_item (JObj d) ''attribution'') (\<lambda>att.
     bind_res (json_item att ''kind'') (\<lambda>kind.
     let withheld = {''private'', ''views''}
           \<union> (if kind = JStr (attribution_value AK_ANONYMOUS)
                 \<and> \<not> json_truthy (dict_get d ''winner'') then {''user_uid''} else {})
     in Inr (keep_keys (\<lambda>k. k \<notin> withheld) d)))"

definition compute_deck_member :: "dict \<Rightarrow> dict option res" where
  "compute_deck_member d =
     (if json_truthy (dict_get d ''public'')
      then bind_res (published_deck d) (\<lambda>p. Inr (Some p)) else Inr None)"

definition compute_deck_api :: "dict \<Rightarrow> dict option res" where
  "compute_deck_api d =
     (if \<not> json_truthy (dict_get d ''public'') then Inr None
      else bind_res (published_deck d) (\<lambda>p.
        let proj = keep_keys (\<lambda>k. k \<notin> DECK_API_EXCLUDE) p
        in bind_res (json_item (JObj proj) ''attribution'') (\<lambda>att.
           bind_res (json_obj att) (\<lambda>a.
           Inr (Some (put ''attribution'' (JObj (keep_keys (\<lambda>k. k \<noteq> ''name'') a)) proj))))))"

definition compute_deck_full :: "dict \<Rightarrow> dict" where
  "compute_deck_full d = d"

definition compute_league_public :: "dict \<Rightarrow> dict" where
  "compute_league_public d = keep_keys (\<lambda>k. k \<noteq> ''organizers_uids'') d"

definition compute_promo_public :: "dict \<Rightarrow> dict" where
  "compute_promo_public d = keep_keys (\<lambda>k. k \<noteq> ''holdings'') d"

definition compute_league_api :: "dict \<Rightarrow> dict" where
  "compute_league_api d = keep_keys (\<lambda>k. k \<notin> API_SYNC_FIELDS) d"

section \<open>Dispatch by object type\<close>

definition objtype_of :: "string \<Rightarrow> object_type option" where
  "objtype_of s = find (\<lambda>t. objtype_value t = s) [USER, SANCTION, TOURNAMENT, DECK, LEAGUE, PROMO]"

definition unknown_type :: "string \<Rightarrow> 'a res" where
  "unknown_type s = Inl (ValueError (''Unknown object type: '' @ s))"

definition compute_public :: "string \<Rightarrow> dict \<Rightarrow> dict option res" where
  "compute_public ty d = (case objtype_of ty of
     None \<Rightarrow> unknown_type ty
   | Some USER \<Rightarrow> Inr (compute_user_public d)
   | Some TOURNAMENT \<Rightarrow> Inr (Some (compute_tournament_public d))
   | Some SANCTION \<Rightarrow> Inr None
   | Some DECK \<Rightarrow> Inr None
   | Some LEAGUE \<Rightarrow> Inr (Some (compute_league_public d))
   | Some PROMO \<Rightarrow> Inr (Some (compute_promo_public d)))"

definition compute_member :: "string \<Rightarrow> dict \<Rightarrow> dict option res" where
  "compute_member ty d = (case objtype_of ty of
     None \<Rightarrow> unknown_type ty
   | Some USER \<Rightarrow> Inr (Some (compute_user_member d))
   | Some TOURNAMENT \<Rightarrow> Inr (Some (compute_tournament_member d))
   | Some SANCTION \<Rightarrow> Inr (Some d)
   | Some DECK \<Rightarrow> compute_deck_member d
   | Some LEAGUE \<Rightarrow> Inr (Some d)
   | Some PROMO \<Rightarrow> Inr (Some (compute_promo_public d)))"

definition compute_api :: "string \<Rightarrow> dict \<Rightarrow> dict option res" where
  "compute_api ty d = (case objtype_of ty of
     None \<Rightarrow> unknown_type ty
   | Some USER \<Rightarrow> Inr (compute_user_api d)
   | Some TOURNAMENT \<Rightarrow> bind_res (compute_tournament_api d) (\<lambda>p. Inr (Some p))
   | Some SANCTION \<Rightarrow> Inr None
   | Some DECK \<Rightarrow> compute_deck_api d
   | Some LEAGUE \<Rightarrow> Inr (Some (compute_league_api d))
   | Some PROMO \<Rightarrow> Inr None)"

definition compute_full :: "string \<Rightarrow> dict \<Rightarrow> dict res" where
  "compute_full ty d = (case objtype_of ty of
     None \<Rightarrow> unknown_type ty
   | Some USER \<Rightarrow> Inr (compute_user_full d)
   | Some TOURNAMENT \<Rightarrow> Inr (compute_tournament_full d)
   | Some SANCTION \<Rightarrow> Inr d
   | Some DECK \<Rightarrow> Inr (compute_deck_full d)
   | Some LEAGUE \<Rightarrow> Inr d
   | Some PROMO \<Rightarrow> Inr d)"

section \<open>Base64 decodes what it encodes\<close>

lemma b64_tables:
  "list_all (\<lambda>n. b64_index (b64_char n) = Some n \<and> b64_char n \<noteq> CHR ''='') [0..<64]"
  by code_simp

lemma b64_index_char [simp]: "n < 64 \<Longrightarrow> b64_index (b64_char n) = Some n"
  using b64_tables by (simp add: list_all_iff)

lemma b64_char_not_pad [simp]: "n < 64 \<Longrightarrow> b64_char n \<noteq> CHR ''=''"
  using b64_tables by (auto simp: list_all_iff)

lemma split_sextets:
  fixes x y n :: nat
  assumes "y < n"
  shows "(x * n + y) div n = x" "(x * n + y) mod n = y"
  using assms by simp_all

lemma sextets:
  fixes a b c :: nat
  assumes "a < 256" "b < 256" "c < 256"
  shows "a div 4 < 64" "a mod 4 * 16 + b div 16 < 64" "b mod 16 * 4 + c div 64 < 64"
    "c mod 64 < 64" "a mod 4 * 16 < 64" "b mod 16 * 4 < 64"
    "a div 4 * 4 + (a mod 4 * 16 + b div 16) div 16 = a"
    "(a mod 4 * 16 + b div 16) mod 16 * 16 + (b mod 16 * 4 + c div 64) div 4 = b"
    "(b mod 16 * 4 + c div 64) mod 4 * 64 + c mod 64 = c"
    "a div 4 * 4 + (a mod 4 * 16) div 16 = a"
    "(a mod 4 * 16 + b div 16) mod 16 * 16 + (b mod 16 * 4) div 4 = b"
proof -
  have lt: "a mod 4 < 4" "b div 16 < 16" "b mod 16 < 16" "c div 64 < 4"
    using assms by auto
  show "a div 4 < 64" "c mod 64 < 64" using assms by auto
  show "a mod 4 * 16 + b div 16 < 64" "b mod 16 * 4 + c div 64 < 64"
    "a mod 4 * 16 < 64" "b mod 16 * 4 < 64"
    using lt by linarith+
  note split = split_sextets [OF lt(2)] split_sextets [OF lt(4)]
  show "a div 4 * 4 + (a mod 4 * 16 + b div 16) div 16 = a"
    "(a mod 4 * 16 + b div 16) mod 16 * 16 + (b mod 16 * 4 + c div 64) div 4 = b"
    "(b mod 16 * 4 + c div 64) mod 4 * 64 + c mod 64 = c"
    "(a mod 4 * 16 + b div 16) mod 16 * 16 + (b mod 16 * 4) div 4 = b"
    unfolding split by (simp_all add: div_mult_mod_eq)
  show "a div 4 * 4 + (a mod 4 * 16) div 16 = a" by (simp add: div_mult_mod_eq)
qed

lemma b64_group_chars:
  "a < 256 \<Longrightarrow> b < 256 \<Longrightarrow> c < 256 \<Longrightarrow>
   b64_group (b64_char (a div 4)) (b64_char (a mod 4 * 16 + b div 16))
     (b64_char (b mod 16 * 4 + c div 64)) (b64_char (c mod 64)) = Some [a, b, c]"
  by (simp add: b64_group_def sextets)

lemma b64_bytes_shape: "bs \<noteq> [] \<Longrightarrow> \<exists>p q r s cs. b64_bytes bs = p # q # r # s # cs"
  by (cases bs rule: b64_bytes.cases) auto

lemma atob_b64: "\<forall>b \<in> set bs. b < 256 \<Longrightarrow> atob_bytes (b64_bytes bs) = Some bs"
proof (induction bs rule: b64_bytes.induct)
  case (2 a)
  then show ?case using sextets [of a 0 0] by (simp add: b64_last_group_def)
next
  case (3 a b)
  then show ?case using sextets [of a b 0] by (simp add: b64_last_group_def)
next
  case (4 a b c bs)
  then have abc: "a < 256" "b < 256" "c < 256" by auto
  show ?case
  proof (cases "bs = []")
    case True
    with abc show ?thesis
      by (simp add: b64_last_group_def b64_group_chars b64_char_not_pad [OF sextets(4)])
  next
    case False
    then obtain p q r s cs where shape: "b64_bytes bs = p # q # r # s # cs"
      using b64_bytes_shape by blast
    have "atob_bytes (b64_bytes bs) = Some bs" using 4 by auto
    with abc show ?thesis by (simp add: shape b64_group_chars)
  qed
qed simp

section \<open>Properties\<close>



subsection \<open>Nesting\<close>

lemmas field_sets = USER_PUBLIC_FIELDS_def USER_CONTACT_FIELDS_def USER_COMMUNITY_LINKS_def
  USER_LINKS_ONLY_FIELDS_def USER_MEMBER_FIELDS_def USER_OWNER_ONLY_FIELDS_def
  API_SYNC_FIELDS_def USER_API_CITY_FIELDS_def USER_API_FIELDS_def
  TOURNAMENT_PUBLIC_FIELDS_def TOURNAMENT_MEMBER_EXCLUDE_def TOURNAMENT_API_EXCLUDE_def
  DECK_API_EXCLUDE_def

lemma keys_pick [simp]: "key_set (pick d ks) = key_set d \<inter> ks"
  by (auto simp: pick_def)

lemma map_of_pick: "map_of (pick d ks) k = (if k \<in> ks then map_of d k else None)"
  by (simp add: pick_def)

lemma keys_obfuscate_field: "keys (obfuscate_field f p) = keys p"
  by (auto simp: obfuscate_field_def intro: keys_put_present map_of_Some_keys
        split: option.splits json.splits list.splits)

lemma keys_obfuscate: "keys (obfuscate_public_contacts p) = keys p"
  by (simp add: obfuscate_public_contacts_def PUBLIC_OBFUSCATED_FIELDS_def keys_obfuscate_field)

lemma key_set_obfuscate [simp]: "key_set (obfuscate_public_contacts p) = key_set p"
  using arg_cong [OF keys_obfuscate, of set] by (simp add: key_set_def)

lemma user_public_in_member:
  assumes "compute_user_public d = Some p"
  shows "key_set p \<subseteq> key_set (compute_user_member d)"
proof -
  have member: "USER_PUBLIC_FIELDS \<subseteq> USER_MEMBER_FIELDS"
    "USER_LINKS_ONLY_FIELDS \<subseteq> USER_MEMBER_FIELDS \<union> USER_COMMUNITY_LINKS"
    by (auto simp: field_sets)
  show ?thesis
  proof (cases "publishes_contact (roles_of d)")
    case True
    then have "p = obfuscate_public_contacts
        (pick d (USER_PUBLIC_FIELDS \<union> USER_CONTACT_FIELDS \<union> USER_COMMUNITY_LINKS))"
      using assms by (simp add: compute_user_public_def)
    then have "key_set p = key_set d
        \<inter> (USER_PUBLIC_FIELDS \<union> USER_CONTACT_FIELDS \<union> USER_COMMUNITY_LINKS)"
      by (simp only: key_set_obfuscate keys_pick)
    moreover have "key_set (compute_user_member d) = key_set d
        \<inter> (USER_MEMBER_FIELDS \<union> USER_CONTACT_FIELDS \<union> USER_COMMUNITY_LINKS)"
      using True by (simp only: compute_user_member_def if_True keys_pick)
    ultimately show ?thesis using member(1) by blast
  next
    case False
    note plain = False
    show ?thesis
    proof (cases "role_value IC \<in> set (roles_of d)")
      case True
      then have "key_set p = key_set d \<inter> (USER_PUBLIC_FIELDS \<union> USER_COMMUNITY_LINKS)"
        using plain assms unfolding compute_user_public_def
        by (simp only: if_False if_True option.inject flip: keys_pick)
      moreover have "key_set (compute_user_member d)
          = key_set d \<inter> (USER_MEMBER_FIELDS \<union> USER_COMMUNITY_LINKS)"
        using plain True by (simp only: compute_user_member_def if_False if_True keys_pick)
      ultimately show ?thesis using member(1) by blast
    next
      case False
      then have links: "json_truthy (dict_get d ''community_links'')"
        and "p = pick d USER_LINKS_ONLY_FIELDS"
        using plain assms by (auto simp only: compute_user_public_def if_False option.inject
            option.simps split: if_splits)
      then have "key_set p = key_set d \<inter> USER_LINKS_ONLY_FIELDS" by (simp only: keys_pick)
      moreover have "key_set (compute_user_member d)
          = key_set d \<inter> (USER_MEMBER_FIELDS \<union> USER_COMMUNITY_LINKS)"
        using plain False links by (simp only: compute_user_member_def if_False if_True keys_pick)
      ultimately show ?thesis using member(2) by blast
    qed
  qed
qed

lemma submap_pick_full:
  "ks \<inter> USER_OWNER_ONLY_FIELDS = {} \<Longrightarrow> submap (pick d ks) (compute_user_full d)"
  unfolding pick_def compute_user_full_def by (rule submap_keep_keys) auto

lemma user_member_in_full: "submap (compute_user_member d) (compute_user_full d)"
  unfolding compute_user_member_def
  by (auto intro!: submap_pick_full simp: field_sets)

lemma published_deck_submap: "published_deck d = Inr p \<Longrightarrow> submap p d"
  by (auto simp: published_deck_def bind_res_Inr Let_def)

lemma tournament_public_in_member:
  "key_set (compute_tournament_public d) \<subseteq> key_set (compute_tournament_member d)"
  by (auto simp: compute_tournament_public_def compute_tournament_member_def Let_def
        field_sets pick_def)

lemmas dispatch_defs = compute_public_def compute_member_def compute_api_def compute_full_def
  unknown_type_def

text \<open>C1: Disclosure grows with the level.  An object visible to the public is visible to
  members, who see at least the fields the public sees; and what members see is part of the full
  projection, value for value.\<close>

theorem projections_nest:
  "(compute_public ty d = Inr (Some p) \<longrightarrow>
      (\<exists>m. compute_member ty d = Inr (Some m) \<and> key_set p \<subseteq> key_set m))
   \<and> (compute_member ty d = Inr (Some m) \<longrightarrow>
      (\<exists>f. compute_full ty d = Inr f \<and> submap m f))"
proof (cases "objtype_of ty")
  case None
  then show ?thesis by (simp add: dispatch_defs)
next
  case (Some t)
  have league: "key_set (compute_league_public d) \<subseteq> key_set d"
    and promo: "submap (compute_promo_public d) d"
    by (auto simp: compute_league_public_def compute_promo_public_def)
  have tournament: "submap (compute_tournament_member d) d"
    by (simp add: compute_tournament_member_def)
  note included = league promo tournament user_member_in_full [of d]
    tournament_public_in_member [of d]
  from Some show ?thesis
    by (cases t, simp_all add: dispatch_defs compute_tournament_full_def compute_deck_full_def
          compute_deck_member_def bind_res_Inr user_public_in_member published_deck_submap,
        (use included in blast)+)
qed

subsection \<open>What a projection withholds\<close>

theorem projections_nest_witness:
  "\<exists>m. compute_member ''league'' [(''uid'', JStr ''l''), (''organizers_uids'', JArr [])] = Inr (Some m)
     \<and> key_set [(''uid'', JStr ''l'')] \<subseteq> key_set m"
  using projections_nest
    [of "''league''" "[(''uid'', JStr ''l''), (''organizers_uids'', JArr [])]" "[(''uid'', JStr ''l'')]"]
  by (simp add: dispatch_defs objtype_of_def compute_league_public_def keep_keys_def)

lemma key_set_user_full:
  "key_set (compute_user_full d) = key_set d - USER_OWNER_ONLY_FIELDS"
  by (auto simp: compute_user_full_def)

lemma member_user_keys:
  "key_set (compute_user_member d)
     \<subseteq> USER_MEMBER_FIELDS \<union> USER_CONTACT_FIELDS \<union> USER_COMMUNITY_LINKS"
  "\<not> publishes_contact (roles_of d) \<Longrightarrow>
     key_set (compute_user_member d) \<subseteq> USER_MEMBER_FIELDS \<union> USER_COMMUNITY_LINKS"
  by (auto simp only: compute_user_member_def keys_pick split: if_splits)

lemma api_user_keys: "compute_user_api d = Some p \<Longrightarrow> key_set p \<subseteq> USER_API_FIELDS"
  by (auto simp: compute_user_api_def split: if_splits)

definition USER_PRIVATE_FIELDS :: "string set" where
  "USER_PRIVATE_FIELDS = {''calendar_token'', ''agenda_hidden'', ''agenda_added'',
     ''promo_stock'', ''github_login'', ''github_id'', ''coopted_by'', ''local_modifications'',
     ''deceased_by_uid'', ''anonymized_by_uid''}"

lemma private_fields_disjoint:
  "USER_PRIVATE_FIELDS \<inter> (USER_MEMBER_FIELDS \<union> USER_CONTACT_FIELDS \<union> USER_COMMUNITY_LINKS) = {}"
  "USER_PRIVATE_FIELDS \<inter> USER_API_FIELDS = {}"
  by (simp_all add: USER_PRIVATE_FIELDS_def field_sets)

text \<open>C2: A member's private data is in no projection below the full one: the calendar token,
  agenda, promo stock, GitHub identity, sponsor and audit fields are in neither the public, the
  member nor the api projection of any user, whatever roles the user holds; and the owner-only
  fields are not even in the full one.\<close>

theorem private_user_fields_withheld:
  "(compute_user_public d = Some p \<longrightarrow> key_set p \<inter> USER_PRIVATE_FIELDS = {})
   \<and> key_set (compute_user_member d) \<inter> USER_PRIVATE_FIELDS = {}
   \<and> (compute_user_api d = Some p \<longrightarrow> key_set p \<inter> USER_PRIVATE_FIELDS = {})
   \<and> key_set (compute_user_full d) \<inter> USER_OWNER_ONLY_FIELDS = {}"
  using user_public_in_member [of d p] member_user_keys(1) [of d] api_user_keys [of d p]
    private_fields_disjoint key_set_user_full [of d] by blast

theorem private_user_fields_withheld_witness:
  "key_set (the (compute_user_public [(''roles'', JArr [JStr ''NC'']), (''calendar_token'', JStr ''t'')]))
   \<inter> USER_PRIVATE_FIELDS = {}"
  using private_user_fields_withheld
    [of "[(''roles'', JArr [JStr ''NC'']), (''calendar_token'', JStr ''t'')]"
        "the (compute_user_public [(''roles'', JArr [JStr ''NC'']), (''calendar_token'', JStr ''t'')])"]
  by (simp add: compute_user_public_def roles_of_def dict_get_def publishes_contact_def
        CONTACT_PUBLISHING_ROLES_def has_any_def has_role_def)

lemma contact_fields_gated:
  assumes "\<not> publishes_contact (roles_of d)"
  shows "key_set (compute_user_member d) \<inter> (USER_CONTACT_FIELDS - {''discord_id''}) = {}"
proof -
  have "(USER_MEMBER_FIELDS \<union> USER_COMMUNITY_LINKS) \<inter> (USER_CONTACT_FIELDS - {''discord_id''}) = {}"
    by (simp add: field_sets)
  then show ?thesis using member_user_keys(2) [OF assms] by blast
qed

lemma starts_with_obfuscate: "starts_with (obfuscate v) OBFUSCATED_PREFIX"
  by (simp add: obfuscate_def starts_with_def)

lemma obfuscate_prefixed: "obfuscate v = w \<Longrightarrow> starts_with w OBFUSCATED_PREFIX"
  using starts_with_obfuscate by blast

definition cloaked :: "json \<Rightarrow> bool" where
  "cloaked v \<longleftrightarrow> (\<forall>s. v = JStr s \<longrightarrow> s = [] \<or> starts_with s OBFUSCATED_PREFIX)"

lemma map_of_obfuscate_field:
  "map_of (obfuscate_field f p) k =
     (case map_of p k of
        Some (JStr (c # cs)) \<Rightarrow> Some (JStr (if k = f then obfuscate (c # cs) else c # cs))
      | r \<Rightarrow> r)"
  by (auto simp: obfuscate_field_def split: option.splits json.splits list.splits)

lemma cloaked_obfuscated:
  assumes "map_of (obfuscate_public_contacts p) k = Some v"
    and "k \<in> {''contact_email'', ''contact_phone''}"
  shows "cloaked v"
  using assms
  by (auto dest!: obfuscate_prefixed simp: starts_with_obfuscate obfuscate_public_contacts_def PUBLIC_OBFUSCATED_FIELDS_def cloaked_def
        map_of_obfuscate_field split: option.splits json.splits list.splits if_splits)



text \<open>Tournament, promo and league secrets: the check-in code and the push and TWDA
  bookkeeping of a tournament reach no projection below the full one, the join link of an online
  event is not public, promo holdings are below full nowhere, and league organizers are not
  public.\<close>

theorem event_secrets_withheld:
  "key_set (compute_tournament_public d) \<inter> TOURNAMENT_MEMBER_EXCLUDE = {}
   \<and> key_set (compute_tournament_member d) \<inter> TOURNAMENT_MEMBER_EXCLUDE = {}
   \<and> (compute_tournament_api d = Inr a \<longrightarrow> key_set a \<inter> TOURNAMENT_MEMBER_EXCLUDE = {})
   \<and> (json_truthy (dict_get d ''online'') \<longrightarrow>
        ''venue_url'' \<notin> key_set (compute_tournament_public d))
   \<and> ''holdings'' \<notin> key_set (compute_promo_public d)
   \<and> ''organizers_uids'' \<notin> key_set (compute_league_public d)"
proof -
  have member: "key_set (compute_tournament_member d) \<inter> TOURNAMENT_MEMBER_EXCLUDE = {}"
    by (auto simp: compute_tournament_member_def)
  moreover from member have "key_set (compute_tournament_public d) \<inter> TOURNAMENT_MEMBER_EXCLUDE = {}"
    using tournament_public_in_member [of d] by blast
  moreover have "''players'' \<notin> TOURNAMENT_MEMBER_EXCLUDE"
    by (simp add: TOURNAMENT_MEMBER_EXCLUDE_def)
  then have "key_set a \<inter> TOURNAMENT_MEMBER_EXCLUDE = {}" if "compute_tournament_api d = Inr a"
    using that by (auto simp: compute_tournament_api_def bind_res_Inr TOURNAMENT_API_EXCLUDE_def)
  moreover have "''venue_url'' \<notin> key_set (compute_tournament_public d)"
    if "json_truthy (dict_get d ''online'')"
    using that by (simp add: compute_tournament_public_def Let_def)
  ultimately show ?thesis
    by (simp add: compute_promo_public_def compute_league_public_def)
qed

theorem event_secrets_withheld_witness:
  "''venue_url'' \<notin> key_set (compute_tournament_public [(''online'', JBool True), (''venue_url'', JStr ''x'')])"
  using event_secrets_withheld [of "[(''online'', JBool True), (''venue_url'', JStr ''x'')]"]
  by (simp add: dict_get_def)

lemma published_deck_keys:
  assumes "published_deck d = Inr q"
  shows "''private'' \<notin> key_set q \<and> ''views'' \<notin> key_set q
    \<and> (map_of d ''attribution'' = Some (JObj att) \<and> map_of att ''kind'' = Some (JStr ''Anonymous'')
       \<and> \<not> json_truthy (dict_get d ''winner'') \<longrightarrow> ''user_uid'' \<notin> key_set q)"
proof -
  obtain a k where "json_item (JObj d) ''attribution'' = Inr a" and "json_item a ''kind'' = Inr k"
    and "q = keep_keys (\<lambda>f. f \<notin> {''private'', ''views''}
           \<union> (if k = JStr (attribution_value AK_ANONYMOUS)
                 \<and> \<not> json_truthy (dict_get d ''winner'') then {''user_uid''} else {})) d"
    using assms by (auto simp: published_deck_def bind_res_Inr Let_def simp del: attribution_value.simps)
  then show ?thesis by (auto simp: json_item_def split: option.splits json.splits if_splits)
qed

text \<open>An anonymous deck stays anonymous: when its attribution is Anonymous and it did not
  win, neither members nor the api learn who played it; and no published deck carries its
  private flag or its log of views.\<close>

theorem anonymous_deck_withholds_player:
  assumes "compute_deck_member d = Inr (Some p) \<or> compute_deck_api d = Inr (Some p)"
  shows "''private'' \<notin> key_set p \<and> ''views'' \<notin> key_set p
    \<and> (map_of d ''attribution'' = Some (JObj att) \<and> map_of att ''kind'' = Some (JStr ''Anonymous'')
       \<and> \<not> json_truthy (dict_get d ''winner'') \<longrightarrow> ''user_uid'' \<notin> key_set p)"
proof -
  obtain q where q: "published_deck d = Inr q"
    and sub: "key_set p \<subseteq> insert ''attribution'' (key_set q)"
  proof -
    assume hyp: "\<And>q. published_deck d = Inr q
      \<Longrightarrow> key_set p \<subseteq> insert ''attribution'' (key_set q) \<Longrightarrow> thesis"
    show thesis using assms
    proof
      assume "compute_deck_member d = Inr (Some p)"
      then show thesis
        by (intro hyp [of p]) (auto simp: compute_deck_member_def bind_res_Inr split: if_splits)
    next
      assume "compute_deck_api d = Inr (Some p)"
      then obtain q where "published_deck d = Inr q"
        and "key_set p = insert ''attribution'' {k \<in> key_set q. k \<notin> DECK_API_EXCLUDE}"
        by (auto simp: compute_deck_api_def bind_res_Inr Let_def split: if_splits)
      then show thesis by (intro hyp [of q]) auto
    qed
  qed
  then show ?thesis using published_deck_keys [OF q, of att] by auto
qed

theorem anonymous_deck_withholds_player_witness:
  "''user_uid'' \<notin> key_set [(''uid'', JStr ''d1''), (''attribution'', JObj [(''kind'', JStr ''Anonymous'')])]"
  using anonymous_deck_withholds_player
    [of "[(''uid'', JStr ''d1''), (''user_uid'', JStr ''u1''), (''public'', JBool True),
          (''attribution'', JObj [(''kind'', JStr ''Anonymous'')])]"
        "[(''uid'', JStr ''d1''), (''attribution'', JObj [(''kind'', JStr ''Anonymous'')])]"]
  by (simp add: compute_deck_api_def published_deck_def json_item_def bind_res_def dict_get_def
        keep_keys_def DECK_API_EXCLUDE_def API_SYNC_FIELDS_def)

end
