(* ===== verification/Store.thy ===== *)
theory Store
  imports Access_Levels
begin

text \<open>
  \<open>backend/src/db.py\<close> with the parts of \<open>db_oauth.py\<close> account surgery uses.  The database is a
  record of its tables.  A row of \<open>objects\<close> holds the decoded value of its \<open>full\<close> column (the
  owner-only fields, which the projection drops, read back as their defaults), the three other
  projections as dictionaries and the owner columns.  A \<open>SELECT\<close> without \<open>ORDER BY\<close> returns rows
  in table order.  \<open>now\<close> is both the application's clock and PostgreSQL's; connections,
  transactions and the text of JSON are left out, since each operation here is atomic.
\<close>

section \<open>Tables\<close>

datatype obj =
    OUser user
  | OSanction sanction
  | OTournament tournament
  | ODeck deck
  | OLeague league
  | OPromo promo

fun obj_type :: "obj \<Rightarrow> object_type" where
  "obj_type (OUser _) = USER"
| "obj_type (OSanction _) = SANCTION"
| "obj_type (OTournament _) = TOURNAMENT"
| "obj_type (ODeck _) = DECK"
| "obj_type (OLeague _) = LEAGUE"
| "obj_type (OPromo _) = PROMO"

fun obj_uid :: "obj \<Rightarrow> uid" where
  "obj_uid (OUser u) = uid u"
| "obj_uid (OSanction s) = uid s"
| "obj_uid (OTournament t) = uid t"
| "obj_uid (ODeck d) = uid d"
| "obj_uid (OLeague l) = uid l"
| "obj_uid (OPromo p) = uid p"

fun obj_deleted_at :: "obj \<Rightarrow> instant option" where
  "obj_deleted_at (OUser u) = deleted_at u"
| "obj_deleted_at (OSanction s) = deleted_at s"
| "obj_deleted_at (OTournament t) = deleted_at t"
| "obj_deleted_at (ODeck d) = deleted_at d"
| "obj_deleted_at (OLeague l) = deleted_at l"
| "obj_deleted_at (OPromo p) = deleted_at p"

fun to_builtins :: "obj \<Rightarrow> dict" where
  "to_builtins (OUser u) = user_builtins u"
| "to_builtins (OSanction s) = sanction_builtins s"
| "to_builtins (OTournament t) = tournament_builtins t"
| "to_builtins (ODeck d) = deck_builtins d"
| "to_builtins (OLeague l) = league_builtins l"
| "to_builtins (OPromo p) = promo_builtins p"

text \<open>What decoding the \<open>full\<close> column gives back\<close>

definition without_owner_columns :: "user \<Rightarrow> user" where
  "without_owner_columns u =
     u\<lparr>u_calendar_token := None, u_agenda_hidden := None, u_agenda_added := None\<rparr>"

fun as_stored :: "obj \<Rightarrow> obj" where
  "as_stored (OUser u) = OUser (without_owner_columns u)"
| "as_stored (OSanction s) = OSanction s"
| "as_stored (OTournament t) = OTournament t"
| "as_stored (ODeck d) = ODeck d"
| "as_stored (OLeague l) = OLeague l"
| "as_stored (OPromo p) = OPromo p"

record row =
  row_deleted_at :: "instant option"
  row_public :: "dict option"
  row_member :: "dict option"
  row_api :: "dict option"
  row_full :: obj
  row_modified_at :: instant
  row_calendar_token :: "string option"
  row_agenda_hidden :: "uid list option"
  row_agenda_added :: "uid list option"

datatype nda_status = NDA_PENDING | NDA_SIGNED | NDA_UPLOADED

record nda_record =
  nr_uid :: uid
  nr_user_uid :: uid
  nr_status :: nda_status
  nr_document_version :: "int option"
  nr_document_sha256 :: "string option"
  nr_signer_name :: "string option"
  nr_signer_email :: "string option"
  nr_signer_address :: "string option"
  nr_signer_phone :: "string option"
  nr_requested_by :: uid
  nr_created_at :: instant
  nr_signed_at :: "instant option"
  nr_pdf :: "string option"
  nr_content_type :: "string option"

text \<open>An image is its bytes and its content type.\<close>

type_synonym image = "string \<times> string"

record push_subscription =
  ps_endpoint :: string
  ps_user_uid :: uid
  ps_p256dh :: string
  ps_auth :: string
  ps_ua :: "string option"
  ps_locale :: string

type_synonym token_data = "(string \<times> string) list"

record db =
  db_objects :: "(uid \<times> row) list"
  db_auth :: "(uid \<times> auth_method) list"
  db_nda :: "nda_record list"
  db_ledger :: "promo_ledger_entry list"
  db_transient :: "(string \<times> token_data \<times> instant) list"
  db_push :: "(string \<times> push_subscription) list"
  db_avatars :: "(uid \<times> image) list"
  db_banners :: "(uid \<times> image) list"
  db_promo_images :: "(uid \<times> image) list"
  db_consents :: "(uid \<times> oauth_consent) list"
  db_tokens :: "oauth_token list"

record broadcast_data =
  bd_obj_type :: object_type
  bd_uid :: uid
  bd_pub :: "dict option"
  bd_mem :: "dict option"
  bd_full :: dict
  bd_country :: "string option"
  bd_org_uids :: "uid list option"
  bd_obj_user_uid :: "uid option"
  bd_tournament_uid :: "uid option"
  bd_modified_at :: "instant option"
  bd_retracted_levels :: "data_level list"

section \<open>Saving\<close>

definition str_list :: "json \<Rightarrow> string list option" where
  "str_list v = (case v of JArr xs \<Rightarrow> Some (List.map_filter json_str xs) | _ \<Rightarrow> None)"

text \<open>The owner columns of the row an \<open>INSERT\<close> brings, coalesced with the stored ones\<close>

fun owner_columns :: "obj \<Rightarrow> string option \<times> uid list option \<times> uid list option" where
  "owner_columns (OUser u) = (u_calendar_token u, u_agenda_hidden u, u_agenda_added u)"
| "owner_columns _ = (None, None, None)"

text \<open>The unique indexes on the VEKN id of users and on the event code of tournaments\<close>

definition lower_char :: "char \<Rightarrow> char" where
  "lower_char c = (let n = (of_char c :: nat) in if 65 \<le> n \<and> n \<le> 90 then char_of (n + 32) else c)"

fun index_keys :: "obj \<Rightarrow> (string \<times> string) option" where
  "index_keys (OUser u) = (if truthy_str (u_vekn_id u)
     then Some (''idx_objects_user_vekn_id'', str_default (u_vekn_id u)) else None)"
| "index_keys (OTournament t) = (if t_event_code t \<noteq> []
     then Some (''idx_objects_tournament_event_code'', map lower_char (t_event_code t)) else None)"
| "index_keys _ = None"

definition index_conflict :: "obj \<Rightarrow> db \<Rightarrow> bool" where
  "index_conflict x s \<longleftrightarrow> index_keys x \<noteq> None
     \<and> list_ex (\<lambda>(k, r). k \<noteq> obj_uid x \<and> index_keys (row_full r) = index_keys x) (db_objects s)"

definition upserted_row ::
    "instant \<Rightarrow> obj \<Rightarrow> instant option \<Rightarrow> row option \<Rightarrow> dict option \<times> dict option \<times> dict option \<Rightarrow> row" where
  "upserted_row now x deleted prev proj =
     (let (tok, hid, add) = owner_columns x
      in \<lparr>row_deleted_at = deleted, row_public = fst proj, row_member = fst (snd proj),
          row_api = snd (snd proj), row_full = as_stored x, row_modified_at = now,
          row_calendar_token = or_opt tok (Option.bind prev row_calendar_token),
          row_agenda_hidden = or_opt hid (Option.bind prev row_agenda_hidden),
          row_agenda_added = or_opt add (Option.bind prev row_agenda_added)\<rparr>)"

definition retracted_levels :: "row option \<Rightarrow> dict option \<Rightarrow> dict option \<Rightarrow> data_level list" where
  "retracted_levels prev pub mem =
     (let was = (\<lambda>col. case prev of None \<Rightarrow> False | Some r \<Rightarrow> col r \<noteq> None)
      in (if was row_public \<and> pub = None then [LV_PUBLIC] else [])
         @ (if was row_member \<and> mem = None then [LV_MEMBER] else []))"

definition save_object :: "instant \<Rightarrow> obj \<Rightarrow> instant option \<Rightarrow> db \<Rightarrow> (broadcast_data \<times> db) res" where
  "save_object now x deleted s =
     (let ty = objtype_value (obj_type x); d = to_builtins x; u = obj_uid x;
          prev = map_of (db_objects s) u in
      bind_res (compute_public ty d) (\<lambda>pub.
      bind_res (compute_member ty d) (\<lambda>mem.
      bind_res (compute_api ty d) (\<lambda>api.
      bind_res (compute_full ty d) (\<lambda>full.
      if index_conflict x s then Inl (UniqueViolation (fst (the (index_keys x)))) else
      Inr (\<lparr>bd_obj_type = obj_type x, bd_uid = u, bd_pub = pub, bd_mem = mem, bd_full = full,
            bd_country = json_str (dict_get d ''country''),
            bd_org_uids = str_list (dict_get d ''organizers_uids''),
            bd_obj_user_uid = json_str (dict_get d ''user_uid''),
            bd_tournament_uid = json_str (dict_get d ''tournament_uid''),
            bd_modified_at = Some now, bd_retracted_levels = retracted_levels prev pub mem\<rparr>,
           s\<lparr>db_objects := put u (upserted_row now x deleted prev (pub, mem, api))
                              (db_objects s)\<rparr>))))))"

definition save_object_from_model :: "instant \<Rightarrow> obj \<Rightarrow> db \<Rightarrow> (broadcast_data \<times> db) res" where
  "save_object_from_model now x s = save_object now x (obj_deleted_at x) s"

definition save_user :: "instant \<Rightarrow> user \<Rightarrow> db \<Rightarrow> (broadcast_data \<times> db) res" where
  "save_user now u = save_object_from_model now (OUser u)"

definition save_sanction :: "instant \<Rightarrow> sanction \<Rightarrow> db \<Rightarrow> (broadcast_data \<times> db) res" where
  "save_sanction now x = save_object_from_model now (OSanction x)"

definition save_tournament :: "instant \<Rightarrow> tournament \<Rightarrow> db \<Rightarrow> (broadcast_data \<times> db) res" where
  "save_tournament now t = save_object_from_model now (OTournament t)"

definition save_league :: "instant \<Rightarrow> league \<Rightarrow> db \<Rightarrow> (broadcast_data \<times> db) res" where
  "save_league now l = save_object_from_model now (OLeague l)"

definition save_promo :: "instant \<Rightarrow> promo \<Rightarrow> db \<Rightarrow> (broadcast_data \<times> db) res" where
  "save_promo now p = save_object_from_model now (OPromo p)"

definition drop_assets :: "(uid \<Rightarrow> bool) \<Rightarrow> db \<Rightarrow> db" where
  "drop_assets p s = s\<lparr>db_objects := keep_keys (\<lambda>u. \<not> p u) (db_objects s),
     db_avatars := keep_keys (\<lambda>u. \<not> p u) (db_avatars s),
     db_banners := keep_keys (\<lambda>u. \<not> p u) (db_banners s),
     db_push := filter (\<lambda>(_, x). \<not> p (ps_user_uid x)) (db_push s),
     db_nda := filter (\<lambda>r. \<not> p (nr_user_uid r)) (db_nda s)\<rparr>"

definition delete_object :: "uid \<Rightarrow> db \<Rightarrow> db" where
  "delete_object u = drop_assets (\<lambda>v. v = u)"

text \<open>\<open>horizon\<close> is \<open>NOW() - days\<close>.\<close>

definition purge_deleted_objects :: "instant \<Rightarrow> db \<Rightarrow> nat \<times> db" where
  "purge_deleted_objects horizon s =
     (let purged = map fst (filter (\<lambda>(_, r). case row_deleted_at r of
            None \<Rightarrow> False | Some t \<Rightarrow> t < horizon) (db_objects s))
      in (length purged, drop_assets (\<lambda>u. u \<in> set purged) s))"

section \<open>Reading\<close>

definition rows :: "db \<Rightarrow> row list" where
  "rows s = map snd (db_objects s)"

definition live_rows :: "db \<Rightarrow> row list" where
  "live_rows s = filter (\<lambda>r. row_deleted_at r = None) (rows s)"

fun as_user :: "obj \<Rightarrow> user option" where
  "as_user (OUser u) = Some u" | "as_user _ = None"

fun as_sanction :: "obj \<Rightarrow> sanction option" where
  "as_sanction (OSanction x) = Some x" | "as_sanction _ = None"

fun as_tournament :: "obj \<Rightarrow> tournament option" where
  "as_tournament (OTournament t) = Some t" | "as_tournament _ = None"

fun as_deck :: "obj \<Rightarrow> deck option" where
  "as_deck (ODeck d) = Some d" | "as_deck _ = None"

fun as_promo :: "obj \<Rightarrow> promo option" where
  "as_promo (OPromo p) = Some p" | "as_promo _ = None"

definition users :: "db \<Rightarrow> user list" where
  "users s = List.map_filter (as_user \<circ> row_full) (rows s)"

definition sanctions :: "db \<Rightarrow> sanction list" where
  "sanctions s = List.map_filter (as_sanction \<circ> row_full) (rows s)"

definition decks :: "db \<Rightarrow> deck list" where
  "decks s = List.map_filter (as_deck \<circ> row_full) (rows s)"

definition live_tournaments :: "db \<Rightarrow> tournament list" where
  "live_tournaments s = List.map_filter (as_tournament \<circ> row_full) (live_rows s)"

text \<open>The type predicate of the query: a row of another type reads as absent.\<close>

definition get_object_full :: "(obj \<Rightarrow> 'a option) \<Rightarrow> db \<Rightarrow> uid \<Rightarrow> 'a option" where
  "get_object_full dec s u = Option.bind (map_of (db_objects s) u) (dec \<circ> row_full)"

definition get_user_by_uid :: "db \<Rightarrow> uid \<Rightarrow> user option" where
  "get_user_by_uid = get_object_full as_user"

definition get_sanction_by_uid :: "db \<Rightarrow> uid \<Rightarrow> sanction option" where
  "get_sanction_by_uid = get_object_full as_sanction"

definition get_tournament_by_uid :: "db \<Rightarrow> uid \<Rightarrow> tournament option" where
  "get_tournament_by_uid = get_object_full as_tournament"

definition get_promo_by_uid :: "db \<Rightarrow> uid \<Rightarrow> promo option" where
  "get_promo_by_uid = get_object_full as_promo"

text \<open>The users found, by uid\<close>

definition get_users_by_uids :: "db \<Rightarrow> uid list \<Rightarrow> (uid \<times> user) list" where
  "get_users_by_uids s us =
     map (\<lambda>u. (uid u, u)) (List.map_filter (\<lambda>(k, r). if k \<in> set us then as_user (row_full r) else None)
       (db_objects s))"

definition get_decks_for_tournament :: "db \<Rightarrow> uid \<Rightarrow> deck list" where
  "get_decks_for_tournament s t =
     filter (\<lambda>d. d_tournament_uid d = t \<and> deleted_at d = None) (decks s)"

definition get_sanctions_for_user :: "db \<Rightarrow> uid \<Rightarrow> sanction list" where
  "get_sanctions_for_user s u =
     rev (sort_key s_issued_at (filter (\<lambda>x. s_user_uid x = u) (sanctions s)))"

definition get_sanctions_for_tournament :: "db \<Rightarrow> uid \<Rightarrow> sanction list" where
  "get_sanctions_for_tournament s t =
     filter (\<lambda>x. s_tournament_uid x = Some t \<and> deleted_at x = None) (sanctions s)"

definition get_all_promos :: "db \<Rightarrow> promo list" where
  "get_all_promos s = List.map_filter (as_promo \<circ> row_full) (live_rows s)"

definition get_user_by_vekn_id :: "db \<Rightarrow> string \<Rightarrow> user option" where
  "get_user_by_vekn_id s v = find (\<lambda>u. u_vekn_id u = Some v \<and> v \<noteq> []) (users s)"

definition get_auth_methods_for_user :: "db \<Rightarrow> uid \<Rightarrow> auth_method list" where
  "get_auth_methods_for_user s u = filter (\<lambda>a. am_user_uid a = u) (map snd (db_auth s))"

definition is_vekn_id_claimed :: "db \<Rightarrow> string \<Rightarrow> bool" where
  "is_vekn_id_claimed s v = (case get_user_by_vekn_id s v of None \<Rightarrow> False
     | Some u \<Rightarrow> get_auth_methods_for_user s (uid u) \<noteq> [])"

definition get_users_with_vekn_prefix :: "db \<Rightarrow> user list" where
  "get_users_with_vekn_prefix s = filter (\<lambda>u. truthy_str (u_vekn_prefix u)) (users s)"

definition get_users_by_vekn_prefix :: "db \<Rightarrow> string \<Rightarrow> user list" where
  "get_users_by_vekn_prefix s p =
     filter (\<lambda>u. case u_vekn_id u of None \<Rightarrow> False | Some v \<Rightarrow> starts_with v p) (users s)"

definition get_users_without_coopted_by :: "db \<Rightarrow> user list" where
  "get_users_without_coopted_by s =
     filter (\<lambda>u. u_coopted_by u = None \<and> truthy_str (u_vekn_id u)) (users s)"

section \<open>Levels and the access fingerprint\<close>

definition base_data_level :: "user option \<Rightarrow> data_level" where
  "base_data_level viewer = (case viewer of
     None \<Rightarrow> LV_PUBLIC
   | Some v \<Rightarrow> if IC \<in> set (u_roles v) then LV_FULL
              else if truthy_str (u_vekn_id v) then LV_MEMBER else LV_PUBLIC)"

definition OVERLAY_ROLES :: "role list" where
  "OVERLAY_ROLES = [IC, NC]"

definition access_inputs :: "user option \<Rightarrow> data_level \<times> string list \<times> string option" where
  "access_inputs viewer =
     (base_data_level viewer,
      (case viewer of None \<Rightarrow> []
       | Some v \<Rightarrow> sort (map role_value (filter (\<lambda>r. r \<in> set (u_roles v)) OVERLAY_ROLES))),
      (case viewer of None \<Rightarrow> None
       | Some v \<Rightarrow> if NC \<in> set (u_roles v) then u_country v else None))"

definition organizer_tournament_uids :: "db \<Rightarrow> uid \<Rightarrow> uid list" where
  "organizer_tournament_uids s u =
     sort (map uid (filter (\<lambda>t. u \<in> set (t_organizers_uids t)) (live_tournaments s)))"

definition DATA_SCHEMA_VERSION :: nat where
  "DATA_SCHEMA_VERSION = 1"

text \<open>The hashed payload of \<open>compute_access_version\<close>; \<open>h\<close> is the digest.\<close>

definition compute_access_version ::
    "(nat \<times> data_level \<times> string list \<times> string option \<times> uid list \<Rightarrow> string)
     \<Rightarrow> db \<Rightarrow> user option \<Rightarrow> string" where
  "compute_access_version h s viewer =
     (let (level, roles, country) = access_inputs viewer;
          org_uids = (case viewer of None \<Rightarrow> []
            | Some v \<Rightarrow> if level = LV_MEMBER then organizer_tournament_uids s (uid v) else [])
      in h (DATA_SCHEMA_VERSION, level, roles, country, org_uids))"

section \<open>Users\<close>

definition soft_delete_user :: "instant \<Rightarrow> uid \<Rightarrow> db \<Rightarrow> ((user \<times> broadcast_data) option \<times> db) res" where
  "soft_delete_user now u s = (case get_user_by_uid s u of
     None \<Rightarrow> Inr (None, s)
   | Some usr \<Rightarrow>
       if truthy_str (u_vekn_id usr)
       then Inl (ValueError ''VEKN members cannot be deleted; mark them deceased instead'')
       else
         let usr' = usr\<lparr>deleted_at := Some now, modified := now\<rparr>
         in bind_res (save_user now usr' s) (\<lambda>(bd, s'). Inr (Some (usr', bd), s')))"

definition get_calendar_token :: "db \<Rightarrow> uid \<Rightarrow> string option" where
  "get_calendar_token s u = Option.bind (map_of (db_objects s) u) row_calendar_token"

definition opt_list :: "'a list option \<Rightarrow> 'a list" where
  "opt_list x = (case x of None \<Rightarrow> [] | Some xs \<Rightarrow> xs)"

definition get_agenda :: "db \<Rightarrow> uid \<Rightarrow> uid list \<times> uid list" where
  "get_agenda s u = (case map_of (db_objects s) u of
     None \<Rightarrow> ([], [])
   | Some r \<Rightarrow> (opt_list (row_agenda_hidden r), opt_list (row_agenda_added r)))"

definition get_user_by_calendar_token :: "db \<Rightarrow> string \<Rightarrow> user option" where
  "get_user_by_calendar_token s tok =
     (case find (\<lambda>r. as_user (row_full r) \<noteq> None \<and> row_calendar_token r = Some tok) (live_rows s) of
        None \<Rightarrow> None
      | Some r \<Rightarrow> map_option (\<lambda>u. u\<lparr>u_agenda_hidden := Some (opt_list (row_agenda_hidden r)),
                                     u_agenda_added := Some (opt_list (row_agenda_added r))\<rparr>)
                   (as_user (row_full r)))"

definition update_row :: "uid \<Rightarrow> (row \<Rightarrow> row) \<Rightarrow> db \<Rightarrow> db" where
  "update_row u f s = s\<lparr>db_objects := map (\<lambda>(k, r). (k, if k = u then f r else r)) (db_objects s)\<rparr>"

datatype agenda_entry = AGENDA_HIDDEN | AGENDA_ADDED

definition set_agenda_entry ::
    "uid \<Rightarrow> uid \<Rightarrow> agenda_entry option \<Rightarrow> db \<Rightarrow> (uid list \<times> uid list) \<times> db" where
  "set_agenda_entry u t entry s =
     (let move = (\<lambda>xs e. removeAll t (opt_list xs) @ (if entry = Some e then [t] else []));
          s' = update_row u (\<lambda>r. r\<lparr>row_agenda_hidden := Some (move (row_agenda_hidden r) AGENDA_HIDDEN),
                                    row_agenda_added := Some (move (row_agenda_added r) AGENDA_ADDED)\<rparr>) s
      in (get_agenda s' u, s'))"

definition clear_owner_columns :: "uid \<Rightarrow> db \<Rightarrow> db" where
  "clear_owner_columns u = update_row u (\<lambda>r. r\<lparr>row_calendar_token := None,
     row_agenda_hidden := None, row_agenda_added := None\<rparr>)"

subsection \<open>VEKN ids\<close>

definition digit_char :: "nat \<Rightarrow> char" where
  "digit_char n = char_of (48 + n)"

fun nat_str :: "nat \<Rightarrow> string" where
  "nat_str n = (if n < 10 then [digit_char n] else nat_str (n div 10) @ [digit_char (n mod 10)])"

declare nat_str.simps [simp del]

definition is_digit :: "char \<Rightarrow> bool" where
  "is_digit c \<longleftrightarrow> 48 \<le> (of_char c :: nat) \<and> (of_char c :: nat) \<le> 57"

definition digits_value :: "string \<Rightarrow> nat" where
  "digits_value s = foldl (\<lambda>n c. 10 * n + (of_char c - 48)) 0 s"

text \<open>\<open>v ~ '^[0-9]{1,9}$'\<close> and \<open>v::integer\<close>\<close>

definition vekn_number :: "string \<Rightarrow> nat option" where
  "vekn_number v = (if 1 \<le> length v \<and> length v \<le> 9 \<and> list_all is_digit v
                    then Some (digits_value v) else None)"

definition vekn_numbers :: "db \<Rightarrow> nat list" where
  "vekn_numbers s = List.map_filter (\<lambda>u. Option.bind (u_vekn_id u) vekn_number) (users s)"

definition MIN_VEKN_ID :: nat where
  "MIN_VEKN_ID = 1000000"

definition next_vekn_number :: "nat list \<Rightarrow> nat" where
  "next_vekn_number ns =
     (if MIN_VEKN_ID \<notin> set ns then MIN_VEKN_ID
      else Suc (Min (set (filter (\<lambda>n. MIN_VEKN_ID \<le> n \<and> Suc n \<notin> set ns) ns))))"

definition allocate_next_vekn_id :: "db \<Rightarrow> string" where
  "allocate_next_vekn_id s = nat_str (next_vekn_number (vekn_numbers s))"

section \<open>Login methods\<close>

definition insert_auth_method :: "auth_method \<Rightarrow> db \<Rightarrow> db" where
  "insert_auth_method a s = s\<lparr>db_auth := db_auth s @ [(am_uid a, a)]\<rparr>"

definition update_auth_method :: "auth_method \<Rightarrow> db \<Rightarrow> db" where
  "update_auth_method a s =
     s\<lparr>db_auth := map (\<lambda>(k, b). (k, if k = am_uid a then a else b)) (db_auth s)\<rparr>"

definition delete_auth_method_unless_last ::
    "uid \<Rightarrow> uid \<Rightarrow> db \<Rightarrow> (auth_method option \<times> auth_method list) \<times> db" where
  "delete_auth_method_unless_last u a s =
     (let methods = get_auth_methods_for_user s u;
          target = find (\<lambda>m. am_uid m = a) methods;
          remaining = filter (\<lambda>m. am_uid m \<noteq> a) methods
      in if target = None \<or> remaining = [] then ((None, methods), s)
         else ((target, remaining), s\<lparr>db_auth := del a (db_auth s)\<rparr>))"

section \<open>NDA records\<close>

definition nda_row :: "instant \<Rightarrow> uid \<Rightarrow> uid \<Rightarrow> nda_status \<Rightarrow> uid \<Rightarrow> nda_record" where
  "nda_row now r u st by =
     \<lparr>nr_uid = r, nr_user_uid = u, nr_status = st, nr_document_version = None,
      nr_document_sha256 = None, nr_signer_name = None, nr_signer_email = None,
      nr_signer_address = None, nr_signer_phone = None, nr_requested_by = by,
      nr_created_at = now, nr_signed_at = None, nr_pdf = None, nr_content_type = None\<rparr>"

definition open_request :: "uid \<Rightarrow> nda_record \<Rightarrow> bool" where
  "open_request u x \<longleftrightarrow> nr_user_uid x = u \<and> nr_status x = NDA_PENDING"

definition create_nda_request :: "instant \<Rightarrow> uid \<Rightarrow> uid \<Rightarrow> uid \<Rightarrow> db \<Rightarrow> bool \<times> db" where
  "create_nda_request now r u by s =
     (if list_ex (open_request u) (db_nda s) then (False, s)
      else (True, s\<lparr>db_nda := db_nda s @ [nda_row now r u NDA_PENDING by]\<rparr>))"

definition get_nda_records :: "db \<Rightarrow> uid \<Rightarrow> nda_record list" where
  "get_nda_records s u =
     rev (sort_key nr_created_at (filter (\<lambda>x. nr_user_uid x = u) (db_nda s)))"

definition get_nda_pending :: "db \<Rightarrow> uid \<Rightarrow> nda_record option" where
  "get_nda_pending s u = find (open_request u) (db_nda s)"

record nda_evidence =
  ns_document_version :: int
  ns_document_sha256 :: string
  ns_signer_name :: string
  ns_signer_email :: string
  ns_signer_address :: string
  ns_signer_phone :: string
  ns_signed_at :: instant
  ns_pdf :: string

definition sealed :: "nda_evidence \<Rightarrow> nda_record \<Rightarrow> nda_record" where
  "sealed e x = x\<lparr>nr_status := NDA_SIGNED,
     nr_document_version := Some (ns_document_version e),
     nr_document_sha256 := Some (ns_document_sha256 e), nr_signer_name := Some (ns_signer_name e),
     nr_signer_email := Some (ns_signer_email e), nr_signer_address := Some (ns_signer_address e),
     nr_signer_phone := Some (ns_signer_phone e), nr_signed_at := Some (ns_signed_at e),
     nr_pdf := Some (ns_pdf e), nr_content_type := Some ''application/pdf''\<rparr>"

definition seal_nda_signature :: "uid \<Rightarrow> uid \<Rightarrow> nda_evidence \<Rightarrow> db \<Rightarrow> bool \<times> db" where
  "seal_nda_signature r u e s =
     (let hit = (\<lambda>x. nr_uid x = r \<and> open_request u x)
      in (list_ex hit (db_nda s),
          s\<lparr>db_nda := map (\<lambda>x. if hit x then sealed e x else x) (db_nda s)\<rparr>))"

definition insert_nda_upload :: "instant \<Rightarrow> uid \<Rightarrow> uid \<Rightarrow> uid \<Rightarrow> string \<Rightarrow> string \<Rightarrow> db \<Rightarrow> db" where
  "insert_nda_upload now r u by pdf ctype s =
     s\<lparr>db_nda := filter (\<lambda>x. \<not> open_request u x) (db_nda s)
        @ [(nda_row now r u NDA_UPLOADED by)
             \<lparr>nr_signed_at := Some now, nr_pdf := Some pdf, nr_content_type := Some ctype\<rparr>]\<rparr>"

definition get_nda_pdf :: "db \<Rightarrow> uid \<Rightarrow> uid \<Rightarrow> (string \<times> string option) option" where
  "get_nda_pdf s u r =
     (case find (\<lambda>x. nr_uid x = r \<and> nr_user_uid x = u \<and> nr_pdf x \<noteq> None) (db_nda s) of
        None \<Rightarrow> None | Some x \<Rightarrow> map_option (\<lambda>p. (p, nr_content_type x)) (nr_pdf x))"

definition user_has_nda :: "db \<Rightarrow> uid \<Rightarrow> bool" where
  "user_has_nda s u \<longleftrightarrow>
     list_ex (\<lambda>x. nr_user_uid x = u \<and> nr_status x \<in> {NDA_SIGNED, NDA_UPLOADED}) (db_nda s)"

text \<open>The partial unique index \<open>idx_nda_records_pending\<close>: at most one open request a member\<close>

definition pending_unique :: "nda_record list \<Rightarrow> bool" where
  "pending_unique rs \<longleftrightarrow>
     distinct (map nr_user_uid (filter (\<lambda>x. nr_status x = NDA_PENDING) rs))"

definition remap_nda_user :: "uid \<Rightarrow> uid \<Rightarrow> db \<Rightarrow> (unit \<times> db) res" where
  "remap_nda_user old new s =
     (let rs = map (\<lambda>x. if nr_user_uid x = old then x\<lparr>nr_user_uid := new\<rparr> else x) (db_nda s)
      in if pending_unique rs then Inr ((), s\<lparr>db_nda := rs\<rparr>)
         else Inl (UniqueViolation ''idx_nda_records_pending''))"

section \<open>Promo ledger\<close>

definition insert_promo_ledger_entries :: "promo_ledger_entry list \<Rightarrow> db \<Rightarrow> db" where
  "insert_promo_ledger_entries es s = s\<lparr>db_ledger := db_ledger s @ es\<rparr>"

definition get_promo_ledger_for_promos :: "db \<Rightarrow> uid list \<Rightarrow> promo_ledger_entry list" where
  "get_promo_ledger_for_promos s ps = filter (\<lambda>e. le_promo_uid e \<in> set ps) (db_ledger s)"

definition remap_promo_ledger_user :: "uid \<Rightarrow> uid \<Rightarrow> db \<Rightarrow> db" where
  "remap_promo_ledger_user old new s =
     s\<lparr>db_ledger := map (\<lambda>e. if le_from_uid e = old \<or> le_to_uid e = Some old \<or> le_created_by e = old
          then e\<lparr>le_from_uid := (if le_from_uid e = old then new else le_from_uid e),
                 le_to_uid := (if le_to_uid e = Some old then Some new else le_to_uid e),
                 le_created_by := (if le_created_by e = old then new else le_created_by e)\<rparr>
          else e) (db_ledger s)\<rparr>"

definition get_tournament_promo_attributions :: "db \<Rightarrow> uid list \<Rightarrow> (uid \<times> uid \<times> int) list" where
  "get_tournament_promo_attributions s ps =
     concat (map (\<lambda>t. if t_promo_stock_source_uid t = [] then []
         else map (\<lambda>r. (pd_promo_uid r, t_promo_stock_source_uid t, pd_qty r))
                (filter (\<lambda>r. pd_promo_uid r \<in> set ps) (t_promos_distributed t)))
       (live_tournaments s))"

definition get_users_with_promo_stock_keys :: "db \<Rightarrow> uid list \<Rightarrow> uid list" where
  "get_users_with_promo_stock_keys s ps =
     map fst (filter (\<lambda>(k, r). row_deleted_at r = None \<and> (case row_full r of
         OUser u \<Rightarrow> list_ex (\<lambda>p. p \<in> set ps) (keys (u_promo_stock u)) | _ \<Rightarrow> False))
       (db_objects s))"

section \<open>Transient tokens\<close>

definition store_transient_token :: "string \<Rightarrow> token_data \<Rightarrow> instant \<Rightarrow> db \<Rightarrow> db" where
  "store_transient_token k d expires s =
     s\<lparr>db_transient := put k (d, expires) (db_transient s)\<rparr>"

definition get_transient_token :: "instant \<Rightarrow> db \<Rightarrow> string \<Rightarrow> token_data option" where
  "get_transient_token now s k = (case map_of (db_transient s) k of
     Some (d, expires) \<Rightarrow> if now < expires then Some d else None
   | None \<Rightarrow> None)"

definition delete_transient_token :: "string \<Rightarrow> db \<Rightarrow> db" where
  "delete_transient_token k s = s\<lparr>db_transient := del k (db_transient s)\<rparr>"

definition cleanup_expired_tokens :: "instant \<Rightarrow> db \<Rightarrow> nat \<times> db" where
  "cleanup_expired_tokens now s =
     (let expired = filter (\<lambda>(_, _, e). e < now) (db_transient s)
      in (length expired,
          s\<lparr>db_transient := filter (\<lambda>(_, _, e). \<not> e < now) (db_transient s)\<rparr>))"

section \<open>OAuth consents and tokens\<close>

definition get_oauth_consents_by_user :: "db \<Rightarrow> uid \<Rightarrow> oauth_consent list" where
  "get_oauth_consents_by_user s u =
     rev (sort_key modified (filter (\<lambda>c. oc_user_uid c = u) (map snd (db_consents s))))"

definition delete_oauth_consent :: "uid \<Rightarrow> string \<Rightarrow> db \<Rightarrow> db" where
  "delete_oauth_consent u c s =
     s\<lparr>db_consents := filter (\<lambda>(_, x). \<not> (oc_user_uid x = u \<and> oc_client_id x = c)) (db_consents s)\<rparr>"

definition revoke_oauth_tokens_for_user_client :: "uid \<Rightarrow> string \<Rightarrow> db \<Rightarrow> db" where
  "revoke_oauth_tokens_for_user_client u c s =
     s\<lparr>db_tokens := map (\<lambda>x. if ot_user_uid x = u \<and> ot_client_id x = c
          then x\<lparr>ot_revoked := True\<rparr> else x) (db_tokens s)\<rparr>"

end
