(* ===== verification/Geonames.thy ===== *)
theory Geonames
  imports Store
begin

text \<open>
  \<open>backend/src/geonames.py\<close>: countries and cities.  The two data files are arguments: \<open>cs\<close> is what
  \<open>load_countries\<close> returns, \<open>cities\<close> what \<open>load_cities\<close> returns, in its order (largest first).
  \<open>fold\<close> is the engine's \<open>fold_ascii\<close>, which rests on a Unicode library.  Text is ASCII here, as
  far as case and white space go.
\<close>

section \<open>Python's text functions\<close>

definition upper_char :: "char \<Rightarrow> char" where
  "upper_char c = (let n = (of_char c :: nat) in if 97 \<le> n \<and> n \<le> 122 then char_of (n - 32) else c)"

definition lower :: "string \<Rightarrow> string" where
  "lower = map lower_char"

definition upper :: "string \<Rightarrow> string" where
  "upper = map upper_char"

definition is_space :: "char \<Rightarrow> bool" where
  "is_space c \<longleftrightarrow> (let n = (of_char c :: nat) in (9 \<le> n \<and> n \<le> 13) \<or> (28 \<le> n \<and> n \<le> 32))"

definition rstrip :: "string \<Rightarrow> string" where
  "rstrip s = rev (dropWhile is_space (rev s))"

definition strip :: "string \<Rightarrow> string" where
  "strip s = rstrip (dropWhile is_space s)"

text \<open>\<open>' '.join(s.split())\<close>\<close>

fun words :: "string \<Rightarrow> string \<Rightarrow> string list" where
  "words acc [] = (if acc = [] then [] else [rev acc])"
| "words acc (c # s) =
     (if is_space c then (if acc = [] then words [] s else rev acc # words [] s) else words (c # acc) s)"

fun join :: "string \<Rightarrow> string list \<Rightarrow> string" where
  "join sep [] = []"
| "join sep [s] = s"
| "join sep (s # t # ss) = s @ sep @ join sep (t # ss)"

section \<open>Countries\<close>

record country_info =
  co_iso_code :: string
  co_iso3 :: string
  co_name :: string
  co_capital :: string
  co_continent :: string

record city =
  ci_geoname_id :: int
  ci_name :: string
  ci_ascii_name :: string
  ci_country_code :: string
  ci_latitude :: rat
  ci_longitude :: rat
  ci_population :: int

type_synonym countries = "(string \<times> country_info) list"

definition get_country :: "countries \<Rightarrow> string \<Rightarrow> country_info option" where
  "get_country cs code = map_of cs (upper code)"

definition COUNTRY_NAME_ALIASES :: "(string \<times> string) list" where
  "COUNTRY_NAME_ALIASES = [(''usa'', ''US''), (''england'', ''GB''), (''scotland'', ''GB''),
     (''wales'', ''GB''), (''russia'', ''RU'')]"

definition country_names :: "countries \<Rightarrow> (string \<times> string) list" where
  "country_names cs = fold (\<lambda>(_, c). put (lower (co_name c)) (co_iso_code c)) cs []"

definition normalize_country :: "countries \<Rightarrow> string option \<Rightarrow> string option" where
  "normalize_country cs v =
     (let value = strip (str_default v)
      in if value = [] then None
         else if length value = 2 then (if map_of cs (upper value) \<noteq> None then Some (upper value) else None)
         else or_str (map_of (country_names cs) (lower value)) (map_of COUNTRY_NAME_ALIASES (lower value)))"

definition stored_country :: "countries \<Rightarrow> string option \<Rightarrow> string option" where
  "stored_country cs v =
     (let value = strip (str_default v)
      in if upper value = ''XX'' then Some ''XX'' else normalize_country cs (Some value))"

definition country_key :: "countries \<Rightarrow> string \<Rightarrow> string" where
  "country_key cs v =
     (let c = normalize_country cs (Some v) in if truthy_str c then the c else lower (strip v))"

definition get_continent :: "countries \<Rightarrow> string \<Rightarrow> string option" where
  "get_continent cs code = map_option co_continent (get_country cs code)"

definition get_countries_on_continent :: "countries \<Rightarrow> string \<Rightarrow> string list" where
  "get_countries_on_continent cs code =
     (let continent = get_continent cs code
      in if \<not> truthy_str continent then []
         else map co_iso_code (filter (\<lambda>c. Some (co_continent c) = continent) (map snd cs)))"

section \<open>Cities\<close>

definition city_by_id :: "city list \<Rightarrow> int \<Rightarrow> city option" where
  "city_by_id cities i = find (\<lambda>c. ci_geoname_id c = i) cities"

definition setdefault :: "'k \<Rightarrow> 'v \<Rightarrow> ('k \<times> 'v) list \<Rightarrow> ('k \<times> 'v) list" where
  "setdefault k v d = (if map_of d k = None then d @ [(k, v)] else d)"

text \<open>A name without its parenthesised suffix, by the expression \<open>\s*\(.*\)\s*$\<close>: names hold no
  line break, so the leftmost match starts at the first parenthesis.\<close>

definition strip_paren :: "string \<Rightarrow> string" where
  "strip_paren s =
     (if CHR ''('' \<in> set s \<and> rstrip s \<noteq> [] \<and> last (rstrip s) = CHR '')''
      then rstrip (takeWhile (\<lambda>c. c \<noteq> CHR ''('') s) else s)"

type_synonym city_table = "((string \<times> string) \<times> city) list"
type_synonym city_index = "city_table \<times> city_table \<times> city_table"

definition index_city :: "city \<Rightarrow> city_index \<Rightarrow> city_index" where
  "index_city c ix =
     (let (by_name, by_ascii, by_base) = ix; cc = upper (ci_country_code c); base = strip (strip_paren (ci_name c))
      in (setdefault (cc, lower (ci_name c)) c by_name,
          setdefault (cc, lower (ci_ascii_name c)) c by_ascii,
          if base \<noteq> ci_name c then setdefault (cc, lower base) c by_base else by_base))"

definition build_city_index :: "city list \<Rightarrow> city_index" where
  "build_city_index cities = fold index_city cities ([], [], [])"

definition match_city :: "(string \<Rightarrow> string) \<Rightarrow> city_index \<Rightarrow> string \<Rightarrow> string \<Rightarrow> city option" where
  "match_city fold_ascii ix raw country_code =
     (let name = strip raw; cc = upper country_code; (by_name, by_ascii, by_base) = ix;
          folded = fold_ascii name
      in if name = [] then None
         else or_opt (map_of by_name (cc, lower name))
             (or_opt (map_of by_ascii (cc, lower name))
             (or_opt (if folded \<noteq> name then map_of by_ascii (cc, lower folded) else None)
               (map_of by_base (cc, lower name)))))"

definition US_STATES :: "(string \<times> string) list" where
  "US_STATES = [
     (''AL'', ''Alabama''),
     (''AK'', ''Alaska''),
     (''AZ'', ''Arizona''),
     (''AR'', ''Arkansas''),
     (''CA'', ''California''),
     (''CO'', ''Colorado''),
     (''CT'', ''Connecticut''),
     (''DE'', ''Delaware''),
     (''DC'', ''District of Columbia''),
     (''FL'', ''Florida''),
     (''GA'', ''Georgia''),
     (''HI'', ''Hawaii''),
     (''ID'', ''Idaho''),
     (''IL'', ''Illinois''),
     (''IN'', ''Indiana''),
     (''IA'', ''Iowa''),
     (''KS'', ''Kansas''),
     (''KY'', ''Kentucky''),
     (''LA'', ''Louisiana''),
     (''ME'', ''Maine''),
     (''MD'', ''Maryland''),
     (''MA'', ''Massachusetts''),
     (''MI'', ''Michigan''),
     (''MN'', ''Minnesota''),
     (''MS'', ''Mississippi''),
     (''MO'', ''Missouri''),
     (''MT'', ''Montana''),
     (''NE'', ''Nebraska''),
     (''NV'', ''Nevada''),
     (''NH'', ''New Hampshire''),
     (''NJ'', ''New Jersey''),
     (''NM'', ''New Mexico''),
     (''NY'', ''New York''),
     (''NC'', ''North Carolina''),
     (''ND'', ''North Dakota''),
     (''OH'', ''Ohio''),
     (''OK'', ''Oklahoma''),
     (''OR'', ''Oregon''),
     (''PA'', ''Pennsylvania''),
     (''RI'', ''Rhode Island''),
     (''SC'', ''South Carolina''),
     (''SD'', ''South Dakota''),
     (''TN'', ''Tennessee''),
     (''TX'', ''Texas''),
     (''UT'', ''Utah''),
     (''VT'', ''Vermont''),
     (''VA'', ''Virginia''),
     (''WA'', ''Washington''),
     (''WV'', ''West Virginia''),
     (''WI'', ''Wisconsin''),
     (''WY'', ''Wyoming'')]"

text \<open>The first hint that names the city's region decides.\<close>

fun match_hint :: "city_table \<Rightarrow> string \<Rightarrow> string \<Rightarrow> string list \<Rightarrow> city option" where
  "match_hint by_name cc base [] = None"
| "match_hint by_name cc base (raw # hints) =
     (let hint = join '' '' (words [] raw);
          region = (if cc = ''US'' then (case map_of US_STATES (upper hint) of None \<Rightarrow> hint | Some r \<Rightarrow> r) else hint)
      in or_opt (if base \<noteq> [] \<and> region \<noteq> [] then map_of by_name (cc, base @ '' ('' @ lower region @ '')'') else None)
           (match_hint by_name cc base hints))"

definition match_city_in ::
    "(string \<Rightarrow> string) \<Rightarrow> city_index \<Rightarrow> string \<Rightarrow> string \<Rightarrow> string list \<Rightarrow> city option" where
  "match_city_in fold_ascii ix name country_code hints =
     or_opt (match_hint (fst ix) (upper country_code) (lower (strip name)) hints)
       (match_city fold_ascii ix name country_code)"

section \<open>What comes out\<close>

text \<open>The shape of the shipped data: keyed by upper-case two-letter codes, which the aliases use.\<close>

definition countries_ok :: "countries \<Rightarrow> bool" where
  "countries_ok cs \<longleftrightarrow> list_all (\<lambda>(k, c). k = co_iso_code c \<and> length k = 2 \<and> upper k = k \<and> strip k = k) cs
     \<and> list_all (\<lambda>k. map_of cs k \<noteq> None) [''US'', ''GB'', ''RU'']"

lemma upper_idem [simp]: "upper (upper s) = upper s"
proof -
  have "upper_char (upper_char c) = upper_char c" for c
  proof (cases "97 \<le> (of_char c :: nat) \<and> (of_char c :: nat) \<le> 122")
    case True
    then have "(of_char c - 32 :: nat) mod 256 = of_char c - 32" by (intro mod_less) linarith
    then have "of_char (char_of (of_char c - 32 :: nat) :: char) = (of_char c - 32 :: nat)" by simp
    moreover have "\<not> 97 \<le> (of_char c - 32 :: nat)" using True by linarith
    ultimately show ?thesis using True by (simp add: upper_char_def Let_def)
  next
    case False
    then have "upper_char c = c" unfolding upper_char_def Let_def by (rule if_not_P)
    then show ?thesis by simp
  qed
  then show ?thesis by (simp add: upper_def)
qed

lemma upper_length [simp]: "length (upper s) = length s"
  by (simp add: upper_def)

lemma countries_ok_key:
  assumes "countries_ok cs" and "map_of cs k \<noteq> None"
  shows "length k = 2 \<and> upper k = k \<and> strip k = k"
  using assms map_of_SomeD [of cs k] by (force simp: countries_ok_def list_all_iff)

lemma country_names_code:
  assumes "countries_ok cs" and "map_of (country_names cs) x = Some i"
  shows "map_of cs i \<noteq> None"
proof -
  have "map_of (fold (\<lambda>(_, c). put (lower (co_name c)) (co_iso_code c)) ds d) x = Some i \<Longrightarrow>
      map_of d x = Some i \<or> (\<exists>(k, c) \<in> set ds. i = co_iso_code c)" for ds :: countries and d
  proof (induction ds arbitrary: d)
    case (Cons kc ds)
    obtain k c where kc: "kc = (k, c)" by (cases kc)
    show ?case using Cons.IH [of "put (lower (co_name c)) (co_iso_code c) d"] Cons.prems
      by (auto simp: kc split: if_splits)
  qed simp
  from this [of cs "[]"] assms(2) obtain k c where "(k, c) \<in> set cs" "i = co_iso_code c"
    by (auto simp: country_names_def)
  moreover from this assms(1) have "k = i" by (auto simp: countries_ok_def list_all_iff)
  ultimately show ?thesis by (metis weak_map_of_SomeI option.discI)
qed

lemma alias_code: "countries_ok cs \<Longrightarrow> map_of COUNTRY_NAME_ALIASES x = Some i \<Longrightarrow> map_of cs i \<noteq> None"
  by (auto simp: countries_ok_def COUNTRY_NAME_ALIASES_def split: if_splits)

lemma normalize_country_known:
  assumes "countries_ok cs" and "normalize_country cs v = Some c"
  shows "map_of cs c \<noteq> None"
  using assms(2) country_names_code [OF assms(1)] alias_code [OF assms(1)]
  by (auto simp: normalize_country_def Let_def or_str_def split: if_splits)

lemma normalize_country_code:
  assumes "countries_ok cs" and "map_of cs c \<noteq> None"
  shows "normalize_country cs (Some c) = Some c"
  using countries_ok_key [OF assms] assms(2) by (auto simp: normalize_country_def str_default_def)

text \<open>C18: Country values have one stored form: whatever spelling a code or a name came in, the stored
  value is stable under storing it again, and two spellings compare equal by key exactly when they
  resolve to the same code.\<close>

theorem stored_country_canonical:
  assumes "countries_ok cs" and "normalize_country cs (Some v) = Some c"
  shows "normalize_country cs (Some c) = Some c
    \<and> stored_country cs (stored_country cs (Some w)) = stored_country cs (Some w)
    \<and> (normalize_country cs (Some w) \<noteq> None \<longrightarrow>
        (country_key cs v = country_key cs w \<longleftrightarrow> normalize_country cs (Some w) = Some c))"
proof -
  have known: "truthy_str (Some d)" if "normalize_country cs u = Some d" for u d
    using countries_ok_key [OF assms(1) normalize_country_known [OF assms(1) that]] by (cases d) auto
  have key: "country_key cs u = d" if "normalize_country cs (Some u) = Some d" for u d
    using that known [OF that] by (simp add: country_key_def Let_def)
  have stable: "stored_country cs (stored_country cs (Some w)) = stored_country cs (Some w)"
  proof (cases "stored_country cs (Some w)")
    case None
    then show ?thesis by (simp add: stored_country_def str_default_def strip_def rstrip_def upper_def normalize_country_def)
  next
    case (Some d)
    show ?thesis
    proof (cases "upper (strip w) = ''XX''")
      case True
      then have "d = ''XX''" using Some by (simp add: stored_country_def str_default_def)
      then show ?thesis using Some
        by (simp add: stored_country_def str_default_def strip_def rstrip_def is_space_def upper_def upper_char_def)
    next
      case False
      then have d: "normalize_country cs (Some (strip w)) = Some d" using Some by (simp add: stored_country_def str_default_def)
      note k = normalize_country_known [OF assms(1) d]
      show ?thesis using countries_ok_key [OF assms(1) k] normalize_country_code [OF assms(1) k] Some
        by (simp add: stored_country_def str_default_def)
    qed
  qed
  show ?thesis
    using normalize_country_code [OF assms(1) normalize_country_known [OF assms]] stable key [OF assms(2)] key [of w]
    by auto
qed

definition sample_countries :: countries where
  "sample_countries =
     [(''US'', \<lparr>co_iso_code = ''US'', co_iso3 = ''USA'', co_name = ''United States'', co_capital = ''Washington'', co_continent = ''NA''\<rparr>),
      (''GB'', \<lparr>co_iso_code = ''GB'', co_iso3 = ''GBR'', co_name = ''United Kingdom'', co_capital = ''London'', co_continent = ''EU''\<rparr>),
      (''RU'', \<lparr>co_iso_code = ''RU'', co_iso3 = ''RUS'', co_name = ''Russia'', co_capital = ''Moscow'', co_continent = ''EU''\<rparr>)]"

lemma sample_countries_ok: "countries_ok sample_countries"
  by (simp add: countries_ok_def sample_countries_def upper_def upper_char_def strip_def rstrip_def is_space_def)

lemma sample_scotland: "normalize_country sample_countries (Some '' Scotland'') = Some ''GB''"
  by code_simp

theorem stored_country_canonical_witness:
  "normalize_country sample_countries (Some ''GB'') = Some ''GB''"
  using stored_country_canonical [OF sample_countries_ok sample_scotland, of "''x''"] by (rule conjunct1)

section \<open>What a city lookup finds\<close>

lemma map_of_setdefault: "map_of (setdefault k v d) = (if map_of d k = None then (map_of d)(k \<mapsto> v) else map_of d)"
  by (auto simp: setdefault_def map_of_append map_add_def fun_eq_iff split: option.split)

text \<open>The key a table keeps for a city, if any.\<close>

definition city_keys :: "city \<Rightarrow> (string \<times> string) option \<times> (string \<times> string) option \<times> (string \<times> string) option" where
  "city_keys c = (let cc = upper (ci_country_code c); base = strip (strip_paren (ci_name c)) in
     (Some (cc, lower (ci_name c)), Some (cc, lower (ci_ascii_name c)),
      if base \<noteq> ci_name c then Some (cc, lower base) else None))"

lemma city_tables:
  "map_of (fst (fold index_city cities ix)) k = or_opt (map_of (fst ix) k) (find (\<lambda>c. fst (city_keys c) = Some k) cities)"
  "map_of (fst (snd (fold index_city cities ix))) k
     = or_opt (map_of (fst (snd ix)) k) (find (\<lambda>c. fst (snd (city_keys c)) = Some k) cities)"
  "map_of (snd (snd (fold index_city cities ix))) k
     = or_opt (map_of (snd (snd ix)) k) (find (\<lambda>c. snd (snd (city_keys c)) = Some k) cities)"
  by (induction cities arbitrary: ix)
    (auto simp: index_city_def city_keys_def map_of_setdefault or_opt_def Let_def split: option.splits prod.splits)

text \<open>A city is only ever found in the country asked for, and by its exact name first: among
  cities of that name the first of the file, which is the most populous.\<close>

theorem match_city_sound:
  "(case match_city fold_ascii (build_city_index cities) name cc of None \<Rightarrow> True
    | Some c \<Rightarrow> c \<in> set cities \<and> upper (ci_country_code c) = upper cc)
   \<and> (case find (\<lambda>c. upper (ci_country_code c) = upper cc \<and> lower (ci_name c) = lower (strip name)) cities of
        None \<Rightarrow> True
      | Some c \<Rightarrow> strip name = [] \<or> match_city fold_ascii (build_city_index cities) name cc = Some c)"
proof -
  define ix where "ix = build_city_index cities"
  obtain by_name by_ascii by_base where ix3: "ix = (by_name, by_ascii, by_base)" by (cases ix)
  have tables: "map_of by_name k = find (\<lambda>c. fst (city_keys c) = Some k) cities"
    "map_of by_ascii k = find (\<lambda>c. fst (snd (city_keys c)) = Some k) cities"
    "map_of by_base k = find (\<lambda>c. snd (snd (city_keys c)) = Some k) cities" for k
    using city_tables [of cities "([], [], [])" k] ix3 by (simp_all add: ix_def build_city_index_def or_opt_def)
  have found: "c \<in> set cities \<and> upper (ci_country_code c) = upper cc"
    if "map_of tb (upper cc, n) = Some c" "tb = by_name \<or> tb = by_ascii \<or> tb = by_base" for tb n c
    using that by (auto simp: tables city_keys_def Let_def find_Some_iff split: if_splits)
  have "match_city fold_ascii ix name cc = Some c \<Longrightarrow> c \<in> set cities \<and> upper (ci_country_code c) = upper cc" for c
    using found [of by_name] found [of by_ascii] found [of by_base]
    unfolding match_city_def ix3 by (simp add: or_opt_def Let_def split: if_splits option.splits)
  moreover have "match_city fold_ascii ix name cc = Some c"
    if "find (\<lambda>c. upper (ci_country_code c) = upper cc \<and> lower (ci_name c) = lower (strip name)) cities = Some c"
      "strip name \<noteq> []" for c
  proof -
    have "map_of by_name (upper cc, lower (strip name)) = Some c"
      using that(1) by (simp add: tables city_keys_def Let_def)
    then show ?thesis using that(2) by (simp add: match_city_def ix3 or_opt_def Let_def)
  qed
  ultimately show ?thesis unfolding ix_def [symmetric] by (intro conjI; split option.split; blast)
qed

end
