(* ===== verification/Queries.thy ===== *)
theory Queries
  imports Geonames "HOL-Library.Product_Lexorder"
begin

text \<open>
  The rest of \<open>backend/src/db.py\<close>: the keyset-paged streams behind catch-up, the calendar of the
  sanction sweeps, the permanent code of an event, the search for copies of one event, and the
  side tables of images and push subscriptions.  A stream reads one state of the table; texts
  compare by their characters.
\<close>

section \<open>The calendar\<close>

text \<open>Months back with the day cut to the month's length: \<open>ratings.py\<close> spells the loop out, and
  PostgreSQL subtracts an interval of months the same way.\<close>

function borrow_years :: "int \<Rightarrow> int \<Rightarrow> int \<times> int" where
  "borrow_years y m = (if m \<le> 0 then borrow_years (y - 1) (m + 12) else (y, m))"
  by pat_completeness auto

termination by (relation "measure (\<lambda>(y, m). nat (1 - m))") auto

declare borrow_years.simps [simp del]

definition months_before :: "int \<Rightarrow> instant \<Rightarrow> instant" where
  "months_before n t =
     (let (y, m) = borrow_years (i_year t) (i_month t - n)
      in Instant y m (min (i_day t) (days_in_month y m)) (i_time t))"

text \<open>Days and microseconds from the beginning of year 1\<close>

definition day_number :: "instant \<Rightarrow> int" where
  "day_number t = (let y = i_year t - 1
     in 365 * y + y div 4 - y div 100 + y div 400
        + sum_list (map (days_in_month (i_year t)) [1..i_month t - 1]) + i_day t)"

definition epoch_micros :: "instant \<Rightarrow> int" where
  "epoch_micros t = day_number t * 86400000000 + i_time t"

definition date_of :: "instant \<Rightarrow> instant" where
  "date_of t = Instant (i_year t) (i_month t) (i_day t) 0"

section \<open>Keyset pages\<close>

text \<open>Pages of \<open>n\<close> rows in key order, each asking for the rows past the last one's key; a short
  page is the last.\<close>

definition next_page :: "('a \<Rightarrow> 'k::linorder) \<Rightarrow> nat \<Rightarrow> ('a \<Rightarrow> bool) \<Rightarrow> 'a list \<Rightarrow> 'a list" where
  "next_page key n cond xs = take n (sort_key key (filter cond xs))"

lemma next_page_last:
  assumes "next_page key n cond xs \<noteq> []"
  shows "last (next_page key n cond xs) \<in> set (filter cond xs)"
  using last_in_set [OF assms] set_take_subset [of n "sort_key key (filter cond xs)"]
  unfolding next_page_def set_sort by (rule subsetD [rotated])

lemma filter_past_shorter:
  fixes key :: "'a \<Rightarrow> 'k::linorder"
  assumes "r \<in> set (filter (\<lambda>x. k < key x) xs)"
  shows "length (filter (\<lambda>x. key r < key x) xs) < length (filter (\<lambda>x. k < key x) xs)"
proof -
  have "k < key r" using assms by simp
  then have "filter (\<lambda>x. key r < key x) xs = filter (\<lambda>x. key r < key x) (filter (\<lambda>x. k < key x) xs)"
    unfolding filter_filter by (intro filter_cong refl) (metis less_trans)
  also have "length \<dots> < length (filter (\<lambda>x. k < key x) xs)" by (rule length_filter_less [OF assms]) simp
  finally show ?thesis .
qed

function pages_after :: "('a \<Rightarrow> 'k::linorder) \<Rightarrow> nat \<Rightarrow> 'k \<Rightarrow> 'a list \<Rightarrow> 'a list list" where
  "pages_after key n k xs =
     (let page = next_page key n (\<lambda>r. k < key r) xs
      in if page = [] then []
         else page # (if length page < n then [] else pages_after key n (key (last page)) xs))"
  by pat_completeness auto

termination
proof (relation "measure (\<lambda>(key, n, k, xs). length (filter (\<lambda>r. k < key r) xs))")
  fix key :: "'a \<Rightarrow> 'k::linorder" and n k xs page
  assume "page = next_page key n (\<lambda>r. k < key r) xs" "page \<noteq> []"
  then show "((key, n, key (last page), xs), key, n, k, xs)
      \<in> measure (\<lambda>(key, n, k, xs). length (filter (\<lambda>r. k < key r) xs))"
    using filter_past_shorter [OF next_page_last [of key n "\<lambda>r. k < key r" xs]] by simp
qed simp

declare pages_after.simps [simp del]

definition keyset_pages :: "('a \<Rightarrow> 'k::linorder) \<Rightarrow> nat \<Rightarrow> ('a \<Rightarrow> bool) \<Rightarrow> 'a list \<Rightarrow> 'a list list" where
  "keyset_pages key n first xs =
     (let page = next_page key n first xs
      in if page = [] then []
         else page # (if length page < n then [] else pages_after key n (key (last page)) xs))"

section \<open>Paging loses no row\<close>

lemma past_page:
  fixes key :: "'a \<Rightarrow> 'k::linorder"
  assumes "sorted (map key ys)" "distinct (map key ys)" "0 < n" "n \<le> length ys"
  shows "filter (\<lambda>r. key (last (take n ys)) < key r) ys = drop n ys"
proof -
  define z where "z = last (take n ys)"
  have ys: "ys = take n ys @ drop n ys" by simp
  have "take n ys \<noteq> []" using assms by (cases ys) auto
  then obtain ws where ws: "take n ys = ws @ [z]" by (metis append_butlast_last_id z_def)
  have "sorted (map key (ws @ [z] @ drop n ys))" "distinct (map key (ws @ [z] @ drop n ys))"
    using assms(1,2) ys ws by (metis append.assoc)+
  then have "\<forall>r \<in> set (ws @ [z]). key r \<le> key z" "\<forall>r \<in> set (drop n ys). key z < key r"
    by (auto simp: sorted_append order.strict_iff_order)
  then have "filter (\<lambda>r. key z < key r) (ws @ [z]) = []" "filter (\<lambda>r. key z < key r) (drop n ys) = drop n ys"
    by (auto simp: filter_empty_conv not_less)
  then show ?thesis using ws ys unfolding z_def [symmetric] by (metis append_Nil filter_append)
qed

lemma distinct_keys_sorted:
  "distinct (map key xs) \<Longrightarrow> distinct (map key (sort_key key (filter P xs)))"
  by (metis distinct_map_filter mset_map mset_sort mset_eq_imp_distinct_iff)

lemma next_page_rest:
  fixes key :: "'a \<Rightarrow> 'k::linorder"
  assumes "distinct (map key xs)" "0 < n" "length (next_page key n cond xs) = n"
    and "\<And>x y. cond x \<Longrightarrow> key x < key y \<Longrightarrow> cond y"
  shows "sort_key key (filter cond xs)
    = next_page key n cond xs @ sort_key key (filter (\<lambda>r. key (last (next_page key n cond xs)) < key r) xs)"
proof -
  define ys where "ys = sort_key key (filter cond xs)"
  define z where "z = last (next_page key n cond xs)"
  have page: "next_page key n cond xs = take n ys" by (simp add: next_page_def ys_def)
  have "next_page key n cond xs \<noteq> []" using assms(2,3) by auto
  then have "cond z" using next_page_last [of key n cond xs] by (simp add: z_def)
  then have "filter (\<lambda>r. key z < key r) xs = filter (\<lambda>r. key z < key r) (filter cond xs)"
    unfolding filter_filter by (intro filter_cong refl) (use assms(4) in blast)
  then have "sort_key key (filter (\<lambda>r. key z < key r) xs) = filter (\<lambda>r. key z < key r) ys"
    by (simp add: ys_def filter_sort)
  also have "\<dots> = drop n ys"
    unfolding z_def page using assms(1-3) distinct_keys_sorted [OF assms(1), of cond]
    by (intro past_page) (simp_all add: ys_def page [unfolded ys_def] min_def split: if_splits)
  finally show ?thesis by (simp add: page ys_def [symmetric] z_def [unfolded page, symmetric])
qed

lemma short_page: "length (next_page key n cond xs) < n \<Longrightarrow> next_page key n cond xs = sort_key key (filter cond xs)"
  by (simp add: next_page_def)

lemma empty_page: "0 < n \<Longrightarrow> next_page key n cond xs = [] \<Longrightarrow> filter cond xs = []"
  by (metis next_page_def length_sort length_0_conv not_gr_zero take_eq_Nil)

lemma concat_pages_after:
  assumes "distinct (map key xs)" and "0 < n"
  shows "concat (pages_after key n k xs) = sort_key key (filter (\<lambda>r. k < key r) xs)
    \<and> list_all (\<lambda>p. p \<noteq> [] \<and> length p \<le> n) (pages_after key n k xs)"
  using assms
proof (induction key n k xs rule: pages_after.induct)
  case (1 key n k xs)
  define page where "page = next_page key n (\<lambda>r. k < key r) xs"
  have le: "length page \<le> n" by (simp add: page_def next_page_def)
  show ?case
  proof (cases "page = []")
    case True
    then show ?thesis using empty_page [OF 1(3), of key "\<lambda>r. k < key r" xs] by (simp add: pages_after.simps page_def)
  next
    case False
    show ?thesis
    proof (cases "length page < n")
      case True
      then show ?thesis using False le short_page [of key n "\<lambda>r. k < key r" xs]
        by (subst (1 2) pages_after.simps) (simp add: page_def)
    next
      case len: False
      then have "sort_key key (filter (\<lambda>r. k < key r) xs) = page @ sort_key key (filter (\<lambda>r. key (last page) < key r) xs)"
        using next_page_rest [OF 1(2,3), of "\<lambda>r. k < key r"] le by (auto simp: page_def intro: less_trans)
      then show ?thesis using 1(1) [OF page_def False len 1(2,3)] False len le
        by (subst (1 2) pages_after.simps) (simp add: page_def [symmetric] Let_def)
    qed
  qed
qed

lemma concat_keyset_pages:
  assumes "distinct (map key xs)" and "0 < n" and "\<And>x y. first x \<Longrightarrow> key x < key y \<Longrightarrow> first y"
  shows "concat (keyset_pages key n first xs) = sort_key key (filter first xs)
    \<and> list_all (\<lambda>p. p \<noteq> [] \<and> length p \<le> n) (keyset_pages key n first xs)"
proof -
  define page where "page = next_page key n first xs"
  have le: "length page \<le> n" by (simp add: page_def next_page_def)
  show ?thesis
    using le empty_page [OF assms(2), of key first xs] short_page [of key n first xs]
      next_page_rest [OF assms(1,2) _ assms(3)] concat_pages_after [OF assms(1,2), of "key (last page)"]
    by (auto simp: keyset_pages_def Let_def page_def [symmetric])
qed

section \<open>The replay stream\<close>

text \<open>The text of the \<open>full\<close> column\<close>

definition full_column :: "row \<Rightarrow> dict option" where
  "full_column r = (case compute_full (objtype_value (obj_type (row_full r))) (to_builtins (row_full r)) of
     Inl _ \<Rightarrow> None | Inr d \<Rightarrow> Some d)"

definition level_col :: "string \<Rightarrow> (row \<Rightarrow> dict option) res" where
  "level_col level =
     (if level = ''public'' then Inr row_public else if level = ''member'' then Inr row_member
      else if level = ''full'' then Inr full_column else Inl (KeyError level))"

definition stream_key :: "uid \<times> row \<Rightarrow> instant \<times> string" where
  "stream_key ur = (row_modified_at (snd ur), fst ur)"

text \<open>What a batch holds for a row: its projection, or where the reader may not see it any more, a
  tombstone at the row's time\<close>

definition stream_item :: "(row \<Rightarrow> dict option) \<Rightarrow> uid \<times> row \<Rightarrow> dict" where
  "stream_item col ur = (case col (snd ur) of
     Some d \<Rightarrow> d
   | None \<Rightarrow> [(''uid'', JStr (fst ur)), (''deleted_at'', JTime (row_modified_at (snd ur)))])"

definition streamed :: "object_type option \<Rightarrow> string \<Rightarrow> (row \<Rightarrow> dict option) \<Rightarrow> uid \<times> row \<Rightarrow> bool" where
  "streamed ty level col ur \<longleftrightarrow>
     (level = ''member'' \<and> ty = Some DECK \<or> col (snd ur) \<noteq> None)
     \<and> (ty = None \<or> ty = Some (obj_type (row_full (snd ur))))"

definition since_row :: "instant option \<Rightarrow> uid \<times> row \<Rightarrow> bool" where
  "since_row since ur = (case since of None \<Rightarrow> True | Some t \<Rightarrow> t < row_modified_at (snd ur))"

definition stream_objects_new ::
    "db \<Rightarrow> object_type option \<Rightarrow> string \<Rightarrow> instant option \<Rightarrow> nat \<Rightarrow> (dict list \<times> instant) list res" where
  "stream_objects_new s ty level since batch_size = bind_res (level_col level) (\<lambda>col. Inr
     (map (\<lambda>page. (map (stream_item col) page, row_modified_at (snd (last page))))
       (keyset_pages stream_key batch_size (since_row since) (filter (streamed ty level col) (db_objects s)))))"

text \<open>\<open>fetchmany\<close>\<close>

function chunks :: "nat \<Rightarrow> 'a list \<Rightarrow> 'a list list" where
  "chunks n xs = (if xs = [] \<or> n = 0 then [] else take n xs # chunks n (drop n xs))"
  by pat_completeness auto

termination by (relation "measure (\<lambda>(n, xs). length xs)") auto

declare chunks.simps [simp del]

definition stream_objects_snapshot ::
    "db \<Rightarrow> nat \<Rightarrow> (object_type \<times> dict option \<times> dict option \<times> dict option \<times> dict option) list list" where
  "stream_objects_snapshot s batch_size = chunks batch_size
     (map (\<lambda>r. (obj_type (row_full r), row_public r, row_member r, row_api r, full_column r)) (live_rows s))"

section \<open>Finding people\<close>

definition live_user :: "db \<Rightarrow> uid \<Rightarrow> user option" where
  "live_user s u = Option.bind (map_of (db_objects s) u)
     (\<lambda>r. if row_deleted_at r = None then as_user (row_full r) else None)"

definition live_users :: "db \<Rightarrow> user list" where
  "live_users s = List.map_filter (as_user \<circ> row_full) (live_rows s)"

text \<open>An address proved by an e-mail login outranks the one of a Discord login, and both the
  contact address of a profile nobody can log in to.\<close>

definition email_matches :: "db \<Rightarrow> string \<Rightarrow> (nat \<times> user) list" where
  "email_matches s email =
     (let e = lower (strip email); methods = map snd (db_auth s);
          holders = (\<lambda>p. List.map_filter (\<lambda>a. if p a then live_user s (am_user_uid a) else None) methods)
      in map (Pair 1) (holders (\<lambda>a. am_method_type a = AM_EMAIL \<and> am_identifier a = e))
         @ map (Pair 2) (holders (\<lambda>a. am_method_type a = AM_DISCORD \<and> map_option lower (am_email a) = Some e))
         @ map (Pair 3) (filter (\<lambda>u. map_option lower (u_contact_email u) = Some e
              \<and> \<not> list_ex (\<lambda>a. am_user_uid a = uid u) methods) (live_users s)))"

definition get_user_by_email :: "db \<Rightarrow> string \<Rightarrow> user option" where
  "get_user_by_email s email = (case sort_key (\<lambda>(rank, u). (rank, uid u)) (email_matches s email) of
     [] \<Rightarrow> None | (_, u) # _ \<Rightarrow> Some u)"

definition get_auth_method_by_identifier :: "db \<Rightarrow> auth_method_type \<Rightarrow> string \<Rightarrow> auth_method option" where
  "get_auth_method_by_identifier s ty identifier =
     (let i = (if ty = AM_EMAIL then lower identifier else identifier)
      in find (\<lambda>a. am_method_type a = ty \<and> am_identifier a = i) (map snd (db_auth s)))"

section \<open>Sanction sweeps\<close>

definition get_sanctions_for_users :: "db \<Rightarrow> uid list \<Rightarrow> sanction list" where
  "get_sanctions_for_users s us = filter (\<lambda>x. s_user_uid x \<in> set us) (sanctions s)"

definition get_expired_sanctions :: "instant \<Rightarrow> db \<Rightarrow> sanction list" where
  "get_expired_sanctions now s = filter (\<lambda>x. deleted_at x = None \<and> s_issued_at x < months_before 18 now
     \<and> \<not> (s_level x = SUSPENSION \<and> s_expires_at x = None)) (sanctions s)"

definition get_sanctions_for_cleanup :: "instant \<Rightarrow> db \<Rightarrow> sanction list" where
  "get_sanctions_for_cleanup horizon s = List.map_filter (as_sanction \<circ> row_full)
     (filter (\<lambda>r. case row_deleted_at r of None \<Rightarrow> False | Some t \<Rightarrow> t < horizon) (rows s))"

section \<open>Public pages\<close>

fun as_league :: "obj \<Rightarrow> league option" where
  "as_league (OLeague l) = Some l" | "as_league _ = None"

definition get_tournament_public_projection :: "db \<Rightarrow> uid \<Rightarrow> dict option" where
  "get_tournament_public_projection s u = Option.bind (map_of (db_objects s) u)
     (\<lambda>r. if obj_type (row_full r) = TOURNAMENT then row_public r else None)"

definition get_league_public_projection :: "db \<Rightarrow> uid \<Rightarrow> (dict \<times> nat) option" where
  "get_league_public_projection s u = map_option
     (\<lambda>pub. (pub, length (filter (\<lambda>t. t_league_uid t = Some u) (live_tournaments s))))
     (Option.bind (map_of (db_objects s) u) (\<lambda>r. if obj_type (row_full r) = LEAGUE then row_public r else None))"

definition get_all_leagues :: "db \<Rightarrow> league list" where
  "get_all_leagues s = List.map_filter (as_league \<circ> row_full) (live_rows s)"

definition get_league_by_uid :: "db \<Rightarrow> uid \<Rightarrow> league option" where
  "get_league_by_uid = get_object_full as_league"

definition get_child_leagues :: "db \<Rightarrow> uid \<Rightarrow> league list" where
  "get_child_leagues s u = filter (\<lambda>l. l_parent_uid l = Some u) (List.map_filter (as_league \<circ> row_full) (rows s))"

section \<open>Event codes\<close>

definition get_tournament_by_vekn_event_id :: "db \<Rightarrow> string \<Rightarrow> tournament option" where
  "get_tournament_by_vekn_event_id s i = find (\<lambda>t. map_of (t_external_ids t) ''vekn'' = Some i) (live_tournaments s)"

definition get_tournament_by_event_code :: "db \<Rightarrow> string \<Rightarrow> tournament option" where
  "get_tournament_by_event_code s code =
     (case find (\<lambda>t. lower (t_event_code t) = lower code \<and> t_event_code t \<noteq> []) (live_tournaments s) of
        Some t \<Rightarrow> Some t
      | None \<Rightarrow> get_tournament_by_vekn_event_id s code)"

definition get_tournament_uid_by_archon_uid :: "db \<Rightarrow> string \<Rightarrow> uid option" where
  "get_tournament_uid_by_archon_uid s i =
     map_option uid (find (\<lambda>t. map_of (t_external_ids t) ''archon'' = Some i) (live_tournaments s))"

definition event_code_taken :: "string \<Rightarrow> db \<Rightarrow> bool" where
  "event_code_taken code s \<longleftrightarrow> list_ex (\<lambda>r. case as_tournament (row_full r) of None \<Rightarrow> False
     | Some t \<Rightarrow> lower (t_event_code t) = lower code \<and> t_event_code t \<noteq> []) (rows s)"

definition EVENT_CODE_ALPHABET :: string where
  "EVENT_CODE_ALPHABET = ''0123456789ABCDEFGHJKMNPQRSTVWXYZ''"

text \<open>\<open>mints\<close> are the codes the random source would give, in turn.\<close>

definition resolve_event_code :: "string list \<Rightarrow> tournament \<Rightarrow> db \<Rightarrow> string res" where
  "resolve_event_code mints t s =
     (let archived = List.map_filter (map_of (t_external_ids t)) [''vekn'', ''twda'']
      in case find (\<lambda>c. c \<noteq> [] \<and> \<not> event_code_taken c s) archived of
           Some c \<Rightarrow> Inr c
         | None \<Rightarrow> case find (\<lambda>c. \<not> (c \<noteq> [] \<and> list_all is_digit c) \<and> \<not> event_code_taken c s) (take 20 mints) of
             Some c \<Rightarrow> Inr c
           | None \<Rightarrow> Inl (RuntimeError ''event code space exhausted''))"

definition ensure_event_code ::
    "instant \<Rightarrow> string list \<Rightarrow> uid \<Rightarrow> db \<Rightarrow> (broadcast_data option \<times> db) res" where
  "ensure_event_code now mints u s = (case get_tournament_by_uid s u of
     None \<Rightarrow> Inr (None, s)
   | Some fresh \<Rightarrow>
      if t_event_code fresh \<noteq> [] then Inr (None, s)
      else bind_res (resolve_event_code mints fresh s) (\<lambda>code.
        bind_res (save_tournament now (fresh\<lparr>t_event_code := code, modified := now\<rparr>) s)
          (\<lambda>(bd, s'). Inr (Some bd, s'))))"

definition tournament_uids_without_event_code :: "db \<Rightarrow> instant \<Rightarrow> uid list" where
  "tournament_uids_without_event_code s before =
     map fst (filter (\<lambda>(_, r). row_deleted_at r = None \<and> row_modified_at r < before
       \<and> (case as_tournament (row_full r) of None \<Rightarrow> False | Some t \<Rightarrow> t_event_code t = [])) (db_objects s))"

section \<open>Copies of one event\<close>

text \<open>\<open>lower(btrim(name))\<close>; \<open>btrim\<close> takes the blanks off both ends.\<close>

definition btrim :: "string \<Rightarrow> string" where
  "btrim s = rev (dropWhile (\<lambda>c. c = CHR '' '') (rev (dropWhile (\<lambda>c. c = CHR '' '') s)))"

definition name_key :: "string \<Rightarrow> string" where
  "name_key n = lower (btrim n)"

definition same_event :: "uid \<Rightarrow> string \<Rightarrow> instant \<Rightarrow> tournament \<Rightarrow> bool" where
  "same_event exclude name start t \<longleftrightarrow> uid t \<noteq> exclude \<and> name_key (t_name t) = name_key name
     \<and> (case t_start t of None \<Rightarrow> False | Some x \<Rightarrow> \<bar>epoch_micros x - epoch_micros start\<bar> < 86400000000)"

definition find_same_event_tournaments ::
    "countries \<Rightarrow> db \<Rightarrow> string \<Rightarrow> instant option \<Rightarrow> uid \<Rightarrow> string option \<Rightarrow> tournament list" where
  "find_same_event_tournaments cs s name start exclude country = (case start of
     None \<Rightarrow> []
   | Some st \<Rightarrow>
      if name = [] then []
      else
        let found = filter (same_event exclude name st) (live_tournaments s)
        in if truthy_str country
           then filter (\<lambda>t. \<not> truthy_str (t_country t)
                  \<or> country_key cs (str_default (t_country t)) = country_key cs (str_default country)) found
           else found)"

definition find_vekn_absence_candidates :: "db \<Rightarrow> string list \<Rightarrow> tournament list" where
  "find_vekn_absence_candidates s absent =
     filter (\<lambda>t. (case map_of (t_external_ids t) ''vekn'' of None \<Rightarrow> False | Some i \<Rightarrow> i \<in> set absent)
        \<or> t_vekn_event_absent_at t \<noteq> None) (live_tournaments s)"

record event_group =
  eg_name :: string
  eg_day :: instant
  eg_uids :: "uid list"
  eg_with_vekn :: nat

definition event_key :: "tournament \<Rightarrow> (string \<times> instant) option" where
  "event_key t = map_option (\<lambda>st. (name_key (t_name t), date_of st)) (t_start t)"

definition vekn_ids :: "tournament list \<Rightarrow> string list" where
  "vekn_ids ts = List.map_filter (\<lambda>t. map_of (t_external_ids t) ''vekn'') ts"

definition event_groups :: "db \<Rightarrow> ((string \<times> instant) \<times> tournament list) list" where
  "event_groups s =
     map (\<lambda>k. (k, filter (\<lambda>t. event_key t = Some k) (live_tournaments s)))
       (remdups (List.map_filter event_key (live_tournaments s)))"

definition group_of :: "(string \<times> instant) \<times> tournament list \<Rightarrow> event_group" where
  "group_of g = (let ((_, day), ts) = g in
     \<lparr>eg_name = Min (set (map (btrim \<circ> t_name) ts)), eg_day = day, eg_uids = sort (map uid ts),
      eg_with_vekn = length (vekn_ids ts)\<rparr>)"

definition find_duplicate_tournament_groups :: "db \<Rightarrow> event_group list" where
  "find_duplicate_tournament_groups s = map group_of
     (filter (\<lambda>(_, ts). 1 < length ts \<and> 1 \<le> length (vekn_ids ts) \<and> length (vekn_ids ts) \<le> length ts - 1)
       (event_groups s))"

definition find_both_vekn_tournament_groups :: "db \<Rightarrow> event_group list" where
  "find_both_vekn_tournament_groups s = map group_of
     (filter (\<lambda>(_, ts). 1 < length ts \<and> length (vekn_ids ts) = length ts \<and> 1 < card (set (vekn_ids ts)))
       (event_groups s))"

section \<open>Images, the ledger and push subscriptions\<close>

definition count_promo_references :: "db \<Rightarrow> uid \<Rightarrow> nat" where
  "count_promo_references s u =
     length (filter (\<lambda>t. list_ex (\<lambda>d. pd_promo_uid d = u) (t_promos_distributed t)
        \<or> list_ex (\<lambda>r. rd_prize_promo_uid r = Some u) (t_raffles t)) (live_tournaments s))
     + length (filter (\<lambda>e. le_promo_uid e = u) (db_ledger s))"

definition upsert_avatar :: "uid \<Rightarrow> string \<Rightarrow> string \<Rightarrow> db \<Rightarrow> db" where
  "upsert_avatar u bytes ty s = s\<lparr>db_avatars := put u (bytes, ty) (db_avatars s)\<rparr>"

definition get_avatar :: "db \<Rightarrow> uid \<Rightarrow> image option" where
  "get_avatar s u = map_of (db_avatars s) u"

definition delete_avatar :: "uid \<Rightarrow> db \<Rightarrow> bool \<times> db" where
  "delete_avatar u s = (map_of (db_avatars s) u \<noteq> None, s\<lparr>db_avatars := del u (db_avatars s)\<rparr>)"

definition upsert_banner :: "uid \<Rightarrow> string \<Rightarrow> string \<Rightarrow> db \<Rightarrow> db" where
  "upsert_banner t bytes ty s = s\<lparr>db_banners := put t (bytes, ty) (db_banners s)\<rparr>"

definition get_banner :: "db \<Rightarrow> uid \<Rightarrow> image option" where
  "get_banner s t = map_of (db_banners s) t"

definition delete_banner :: "uid \<Rightarrow> db \<Rightarrow> bool \<times> db" where
  "delete_banner t s = (map_of (db_banners s) t \<noteq> None, s\<lparr>db_banners := del t (db_banners s)\<rparr>)"

definition upsert_promo_image :: "uid \<Rightarrow> string \<Rightarrow> string \<Rightarrow> db \<Rightarrow> db" where
  "upsert_promo_image p bytes ty s = s\<lparr>db_promo_images := put p (bytes, ty) (db_promo_images s)\<rparr>"

definition get_promo_image :: "db \<Rightarrow> uid \<Rightarrow> image option" where
  "get_promo_image s p = map_of (db_promo_images s) p"

definition delete_promo_image :: "uid \<Rightarrow> db \<Rightarrow> bool \<times> db" where
  "delete_promo_image p s = (map_of (db_promo_images s) p \<noteq> None, s\<lparr>db_promo_images := del p (db_promo_images s)\<rparr>)"

definition get_promo_ledger_entries :: "db \<Rightarrow> uid option \<Rightarrow> promo_ledger_entry list" where
  "get_promo_ledger_entries s involved = sort_key (\<lambda>e. (le_happened_at e, le_uid e))
     (case involved of
        None \<Rightarrow> db_ledger s
      | Some u \<Rightarrow> filter (\<lambda>e. le_from_uid e = u \<or> le_to_uid e = Some u \<or> le_created_by e = u) (db_ledger s))"

definition save_push_subscription :: "push_subscription \<Rightarrow> db \<Rightarrow> db" where
  "save_push_subscription x s = s\<lparr>db_push := put (ps_endpoint x) x (db_push s)\<rparr>"

definition delete_push_subscription :: "string \<Rightarrow> uid option \<Rightarrow> db \<Rightarrow> db" where
  "delete_push_subscription e owner s = s\<lparr>db_push := filter (\<lambda>(k, x). \<not> (k = e
     \<and> (case owner of None \<Rightarrow> True | Some u \<Rightarrow> ps_user_uid x = u))) (db_push s)\<rparr>"

definition get_push_subscriptions_for_users :: "db \<Rightarrow> uid list \<Rightarrow> push_subscription list" where
  "get_push_subscriptions_for_users s us = filter (\<lambda>x. ps_user_uid x \<in> set us) (map snd (db_push s))"

end
