(* ===== verification/Scoring.thy ===== *)
theory Scoring
  imports Models "HOL-Library.Product_Lexorder"
begin

text \<open>
  The scoring rules of the engine: \<open>engine/src/tournament/scoring.rs\<close> (victory points, game wins
  and tournament points of a table), \<open>tournament/sanctions.rs\<close> (where a standings adjustment
  lands) and the standings and rating figures of \<open>tournament/standings.rs\<close>.  The JSON values are
  the records the back end decodes them into.  Victory points are multiples of one half and
  tournament points averages of at most five multiples of twelve, so that the engine's floating
  point arithmetic on them is exact; here they are rationals.
\<close>

section \<open>Victory points of a table\<close>

datatype vp_error =
    InvalidTableSize
  | ExcessiveTotal
  | IncompleteTotal
  | RedirectedVp
  | MissingVp nat
  | HalfVpMismatch "nat list"

text \<open>A value within the engine's tolerance of an integer\<close>

definition near_integer :: "rat \<Rightarrow> bool" where
  "near_integer h \<longleftrightarrow> \<bar>h - of_int (round h)\<bar> < 1 / 10 ^ 9"

definition half_steps :: "rat list \<Rightarrow> nat list option" where
  "half_steps vps =
     (if list_all (\<lambda>v. near_integer (v * 2) \<and> 0 \<le> v \<and> v \<le> 5) vps
      then Some (map (\<lambda>v. nat (round (v * 2))) vps) else None)"

lemma filter_neq_shorter: "x \<in> set xs \<Longrightarrow> length (filter (\<lambda>y. y \<noteq> x) xs) < length xs"
  by (rule length_filter_less) auto

text \<open>
  Every course of a game, in half points: the players left, in seating order, and the points so
  far.  Time may run out (half a point each), somebody may oust their prey (one point) or withdraw
  (half a point), and the last one standing takes one point.
\<close>

function play :: "nat list \<Rightarrow> nat list \<Rightarrow> nat list list" where
  "play alive vp =
     (if length alive = 1 then [vp[hd alive := vp ! hd alive + 2]]
      else fold (\<lambda>i v. v[i := v ! i + 1]) alive vp
        # concat (map (\<lambda>pos.
            let killer = alive ! pos; prey = alive ! ((pos + 1) mod length alive)
            in play (filter (\<lambda>x. x \<noteq> prey) alive) (vp[killer := vp ! killer + 2]))
            [0..<length alive])
        @ concat (map (\<lambda>quitter.
            play (filter (\<lambda>x. x \<noteq> quitter) alive) (vp[quitter := vp ! quitter + 1])) alive))"
  by pat_completeness auto

termination
proof (relation "measure (\<lambda>(alive, vp). length alive)")
  fix alive vp :: "nat list" and pos killer prey
  assume "pos \<in> set [0..<length alive]" "prey = alive ! ((pos + 1) mod length alive)"
  then have "prey \<in> set alive" by (cases alive) auto
  then show "((filter (\<lambda>x. x \<noteq> prey) alive, vp[killer := vp ! killer + 2]), alive, vp)
      \<in> measure (\<lambda>(alive, vp). length alive)"
    by (simp add: filter_neq_shorter)
qed (simp_all add: filter_neq_shorter)

declare play.simps [simp del]

definition reachable_results :: "nat \<Rightarrow> nat list list" where
  "reachable_results n = play [0..<n] (replicate n 0)"

text \<open>
  \<open>oust_order_fault\<close> removes a seat without points, taking its ouster's point back, until none is
  left; it names the seats that do not fit.
\<close>

definition pred_index :: "nat \<Rightarrow> nat \<Rightarrow> nat" where
  "pred_index len j = (if j = 0 then len - 1 else j - 1)"

definition remove_at :: "nat \<Rightarrow> 'a list \<Rightarrow> 'a list" where
  "remove_at j xs = take j xs @ drop (Suc j) xs"

definition first_index :: "('a \<Rightarrow> bool) \<Rightarrow> 'a list \<Rightarrow> nat option" where
  "first_index p xs = find (\<lambda>i. p (xs ! i)) [0..<length xs]"

definition near_half :: "rat \<Rightarrow> bool" where
  "near_half v \<longleftrightarrow> \<bar>v - 1 / 2\<bar> < 1 / 10 ^ 9"

text \<open>The fractional part of Rust, which keeps the sign\<close>

definition fract :: "rat \<Rightarrow> rat" where
  "fract v = v - (if v < 0 then of_int \<lceil>v\<rceil> else of_int \<lfloor>v\<rfloor>)"

definition bad_fraction :: "rat \<Rightarrow> bool" where
  "bad_fraction v \<longleftrightarrow> 1 / 10 ^ 9 < \<bar>fract v\<bar> \<and> 1 / 10 ^ 9 < \<bar>\<bar>fract v\<bar> - 1\<bar>"

function oust_order_fault :: "(nat \<times> rat) list \<Rightarrow> vp_error option" where
  "oust_order_fault seats =
     (if seats = [] then None
      else case first_index (\<lambda>s. snd s \<le> 0) seats of
        Some j \<Rightarrow>
          (let (idx, v) = seats ! j; pred = pred_index (length seats) j
           in if bad_fraction v then Some (MissingVp idx)
              else oust_order_fault (remove_at j
                     (seats[pred := (fst (seats ! pred), snd (seats ! pred) + (v - 1))])))
      | None \<Rightarrow>
          if list_all (\<lambda>s. near_half (snd s)) seats
          then (if length seats = 1 then Some (HalfVpMismatch [fst (hd seats)]) else None)
          else let remaining = filter (\<lambda>s. 1 / 10 ^ 9 < \<bar>snd s - 1 / 2\<bar>) seats
               in if 1 < length remaining then Some (HalfVpMismatch (map fst remaining)) else None)"
  by pat_completeness auto

termination
proof (relation "measure length")
  fix seats :: "(nat \<times> rat) list" and j pred p idx v
  assume "first_index (\<lambda>s. snd s \<le> 0) seats = Some j"
  then have "j < length seats" by (auto simp: first_index_def find_Some_iff)
  then show "(remove_at j (seats[pred := (fst (seats ! pred), snd (seats ! pred) + (v - 1))]), seats)
      \<in> measure length"
    by (simp add: remove_at_def)
qed simp

declare oust_order_fault.simps [simp del]

definition check_table_vps :: "rat list \<Rightarrow> vp_error option" where
  "check_table_vps vps =
     (let n = length vps; accounted = sum_list (map ceiling vps)
      in if \<not> (4 \<le> n \<and> n \<le> 5) then Some InvalidTableSize
         else if int n < accounted then Some ExcessiveTotal
         else if accounted < int n then
           (let total = sum_list vps
            in Some (if of_nat n / 2 \<le> total \<and> total \<le> of_nat n \<and> near_integer (total * 2)
                        \<and> accounted = int n - 1 then RedirectedVp else IncompleteTotal))
         else case half_steps vps of
             Some key \<Rightarrow>
               if key \<in> set (reachable_results n) then None
               else (case oust_order_fault (enumerate 0 vps) of
                   Some e \<Rightarrow> Some e | None \<Rightarrow> Some (HalfVpMismatch [0..<n]))
           | None \<Rightarrow>
               (case oust_order_fault (enumerate 0 vps) of
                   Some e \<Rightarrow> Some e | None \<Rightarrow> Some (HalfVpMismatch [0..<n])))"

section \<open>Game wins and tournament points\<close>

definition adjusted :: "rat list \<Rightarrow> rat list \<Rightarrow> rat list" where
  "adjusted vps adjustments = map2 (+) vps adjustments"

definition compute_gw :: "rat list \<Rightarrow> rat list \<Rightarrow> rat list" where
  "compute_gw vps adjustments =
     (if vps = [] then []
      else let a = adjusted vps adjustments; top = Max (set a)
           in map (\<lambda>v. if 2 \<le> v \<and> v = top \<and> count_list a top = 1 then 1 else 0) a)"

text \<open>A player missing from the seeding comes after every seed.\<close>

definition seed_pos :: "uid list \<Rightarrow> uid \<Rightarrow> nat" where
  "seed_pos seed_order u = (case first_index (\<lambda>s. s = u) seed_order of
     None \<Rightarrow> length seed_order | Some i \<Rightarrow> i)"

definition finals_better :: "rat list \<Rightarrow> uid list \<Rightarrow> uid list \<Rightarrow> nat \<Rightarrow> nat \<Rightarrow> bool" where
  "finals_better a uids seed_order i best \<longleftrightarrow>
     a ! best < a ! i
     \<or> a ! i = a ! best \<and> seed_pos seed_order (uids ! i) < seed_pos seed_order (uids ! best)"

definition finals_best :: "rat list \<Rightarrow> uid list \<Rightarrow> uid list \<Rightarrow> nat" where
  "finals_best a uids seed_order =
     foldl (\<lambda>best i. if finals_better a uids seed_order i best then i else best) 0 [1..<length a]"

definition compute_gw_finals :: "rat list \<Rightarrow> rat list \<Rightarrow> uid list \<Rightarrow> uid list \<Rightarrow> rat list" where
  "compute_gw_finals vps adjustments uids seed_order =
     (if vps = [] then []
      else (replicate (length vps) 0)
             [finals_best (adjusted vps adjustments) uids seed_order := 1])"

definition tp_base :: "nat \<Rightarrow> rat list option" where
  "tp_base table_size = (if table_size = 5 then Some [60, 48, 36, 24, 12]
     else if table_size = 4 then Some [60, 48, 24, 12] else None)"

text \<open>The loop over the seats in descending order: each run of equals shares the average.\<close>

function tp_runs :: "rat list \<Rightarrow> rat list \<Rightarrow> nat list \<Rightarrow> (nat \<times> rat) list" where
  "tp_runs a base [] = []"
| "tp_runs a base (i # is) =
     (let k = Suc (length (takeWhile (\<lambda>j. a ! j = a ! i) is));
          avg = sum_list (take k base) / of_nat k
      in map (\<lambda>j. (j, avg)) (take k (i # is)) @ tp_runs a (drop k base) (drop k (i # is)))"
  by pat_completeness auto

termination by (relation "measure (\<lambda>(a, base, is). length is)") simp_all

definition compute_tp :: "nat \<Rightarrow> rat list \<Rightarrow> rat list \<Rightarrow> rat list" where
  "compute_tp table_size vps adjustments = (case tp_base table_size of
     None \<Rightarrow> replicate (length vps) 0
   | Some base \<Rightarrow>
      (let a = adjusted vps adjustments;
           indices = sort_key (\<lambda>i. - (a ! i)) [0..<length vps];
           tps = tp_runs a base indices
       in map (\<lambda>i. case map_of tps i of None \<Rightarrow> 0 | Some tp \<Rightarrow> tp) [0..<length vps]))"

section \<open>Standings adjustments\<close>

definition is_sanction_active :: "sanction \<Rightarrow> bool" where
  "is_sanction_active s \<longleftrightarrow> s_lifted_at s = None \<and> deleted_at s = None"

definition get_sa_sanctions :: "sanction list \<Rightarrow> (uid \<times> nat) list" where
  "get_sa_sanctions ss =
     map (\<lambda>s. (s_user_uid s, case s_round_number s of None \<Rightarrow> 0 | Some r \<Rightarrow> nat r))
       (filter (\<lambda>s. is_sanction_active s \<and> s_level s = STANDINGS_ADJUSTMENT \<and> s_user_uid s \<noteq> []) ss)"

definition has_dq_sanction :: "sanction list \<Rightarrow> uid \<Rightarrow> bool" where
  "has_dq_sanction ss u \<longleftrightarrow>
     list_ex (\<lambda>s. is_sanction_active s \<and> s_level s = DISQUALIFICATION \<and> s_user_uid s = u) ss"

definition has_active_suspension :: "sanction list \<Rightarrow> uid \<Rightarrow> instant option \<Rightarrow> bool" where
  "has_active_suspension ss u now \<longleftrightarrow>
     list_ex (\<lambda>s. is_sanction_active s \<and> s_level s = SUSPENSION \<and> s_user_uid s = u
       \<and> \<not> (case (s_expires_at s, now) of (Some e, Some n) \<Rightarrow> e \<le> n | _ \<Rightarrow> False)) ss"

definition seated_at :: "uid \<Rightarrow> 'a table_scheme \<Rightarrow> bool" where
  "seated_at u tb \<longleftrightarrow> list_ex (\<lambda>s. seat_player_uid s = u) (tb_seating tb)"

text \<open>Round \<open>length rounds\<close> stands for the final.\<close>

definition seated_in :: "tournament \<Rightarrow> uid \<Rightarrow> nat \<Rightarrow> bool" where
  "seated_in t u r =
     (if r = length (t_rounds t) then (case t_finals t of None \<Rightarrow> False | Some f \<Rightarrow> seated_at u f)
      else list_ex (\<lambda>tb. tb_state tb = TS_FINISHED \<and> seated_at u tb) (t_rounds t ! r))"

definition effective_round :: "tournament \<Rightarrow> uid \<Rightarrow> nat \<Rightarrow> nat option" where
  "effective_round t u stored =
     (let nrounds = length (t_rounds t)
      in if stored \<le> nrounds \<and> seated_in t u stored then Some stored
         else find (seated_in t u) (rev [0..<Suc nrounds]))"

definition resolve_sa_effective_rounds :: "tournament \<Rightarrow> sanction list \<Rightarrow> (uid \<times> nat) list" where
  "resolve_sa_effective_rounds t ss =
     List.map_filter (\<lambda>(u, stored). map_option (Pair u) (effective_round t u stored)) (get_sa_sanctions ss)"

definition table_sa_adjustments :: "seat list \<Rightarrow> nat \<Rightarrow> (uid \<times> nat) list \<Rightarrow> rat list" where
  "table_sa_adjustments seating r sas =
     map (\<lambda>s. - of_nat (length (filter (\<lambda>sa. sa = (seat_player_uid s, r)) sas))) seating"

definition sa_vp_penalty :: "(uid \<times> nat) list \<Rightarrow> uid \<Rightarrow> rat" where
  "sa_vp_penalty sas u = of_nat (length (filter (\<lambda>sa. fst sa = u) sas))"

definition seat_vps :: "seat list \<Rightarrow> rat list" where
  "seat_vps seating = map (\<lambda>s. sc_vp (seat_result s)) seating"

definition score_table ::
    "seat list \<Rightarrow> rat list \<Rightarrow> nat \<Rightarrow> (uid \<times> nat) list \<Rightarrow> uid list option \<Rightarrow> rat list \<times> rat list" where
  "score_table seating vps r sas finals_seed_order =
     (let adjustments = table_sa_adjustments seating r sas
      in (case finals_seed_order of
            Some seeds \<Rightarrow> compute_gw_finals vps adjustments (map seat_player_uid seating) seeds
          | None \<Rightarrow> compute_gw vps adjustments,
          compute_tp (length seating) vps adjustments))"

end
