(* ===== verification/Scoring_Laws.thy ===== *)
theory Scoring_Laws
  imports Scoring
begin

text \<open>
  The scoring rules keep their promises: a sheet is legal exactly when some course of the game
  yields it, game wins are unique, a final has a winner, tournament points are conserved and fair.
\<close>

section \<open>The legal sheets are the courses of a game\<close>

definition accounted :: "nat list \<Rightarrow> nat" where
  "accounted hs = sum_list (map (\<lambda>h. (h + 1) div 2) hs)"

lemma accounted_update:
  assumes "i < length vp"
  shows "accounted (vp[i := h]) + (vp ! i + 1) div 2 = accounted vp + (h + 1) div 2"
proof -
  have "(vp ! i + 1) div 2 \<le> accounted vp"
    using assms by (auto simp: accounted_def intro: member_le_sum_list)
  then show ?thesis
    using assms sum_list_update [of i "map (\<lambda>h. (h + 1) div 2) vp" "(h + 1) div 2"]
    by (simp add: accounted_def map_update)
qed

lemma sum_update:
  fixes vp :: "nat list"
  assumes "i < length vp"
  shows "sum_list (vp[i := h]) + vp ! i = sum_list vp + h"
  using assms sum_list_update [of i vp h] member_le_sum_list [of "vp ! i" vp] by simp

definition in_play :: "nat list \<Rightarrow> nat list \<Rightarrow> bool" where
  "in_play alive vp \<longleftrightarrow> distinct alive \<and> (\<forall>i \<in> set alive. i < length vp \<and> even (vp ! i))"

definition outcome_of :: "nat \<Rightarrow> nat list \<Rightarrow> nat list \<Rightarrow> bool" where
  "outcome_of n vp r \<longleftrightarrow> length r = length vp \<and> accounted r = accounted vp + n
     \<and> sum_list vp + n \<le> sum_list r \<and> sum_list r \<le> sum_list vp + 2 * n"

lemma outcome_step:
  assumes "i < length vp" and "even (vp ! i)" and "k = 1 \<or> k = 2"
    and "outcome_of n (vp[i := vp ! i + k]) r"
  shows "outcome_of (Suc n) vp r"
proof -
  have "(vp ! i + k + 1) div 2 = (vp ! i + 1) div 2 + 1" using assms(2,3) by presburger
  then show ?thesis
    using assms accounted_update [OF assms(1), of "vp ! i + k"] sum_update [OF assms(1), of "vp ! i + k"]
    by (auto simp: outcome_of_def)
qed

lemma timed_outcome:
  "in_play alive vp \<Longrightarrow> outcome_of (length alive) vp (fold (\<lambda>i v. v[i := v ! i + 1]) alive vp)"
proof (induction alive arbitrary: vp)
  case Nil
  then show ?case by (simp add: outcome_of_def)
next
  case (Cons i alive)
  then have "in_play alive (vp[i := vp ! i + 1])" and i: "i < length vp" "even (vp ! i)"
    by (auto simp: in_play_def nth_list_update)
  from outcome_step [OF i _ Cons.IH [OF this(1)]] show ?case by simp
qed

lemma filter_neq_absent: "x \<notin> set xs \<Longrightarrow> filter (\<lambda>y. y \<noteq> x) xs = xs"
  by (induction xs) auto

lemma in_play_without:
  assumes "in_play alive vp" and "x \<in> set alive" and "i \<in> set alive" and "i = x \<or> even k"
  shows "in_play (filter (\<lambda>y. y \<noteq> x) alive) (vp[i := vp ! i + k])"
    and "length alive = Suc (length (filter (\<lambda>y. y \<noteq> x) alive))"
proof -
  show "in_play (filter (\<lambda>y. y \<noteq> x) alive) (vp[i := vp ! i + k])"
    using assms by (auto simp: in_play_def nth_list_update)
  have "distinct alive" using assms(1) by (simp add: in_play_def)
  then show "length alive = Suc (length (filter (\<lambda>y. y \<noteq> x) alive))"
    using assms(2) by (induction alive) (auto simp: filter_neq_absent)
qed

lemma play_outcome:
  "in_play alive vp \<Longrightarrow> r \<in> set (play alive vp) \<Longrightarrow> outcome_of (length alive) vp r"
proof (induction alive vp arbitrary: r rule: play.induct)
  case (1 alive vp)
  note alive = 1(3) [unfolded in_play_def]
  show ?case
  proof (cases "length alive = 1")
    case True
    then obtain i where i: "alive = [i]" by (cases alive) auto
    have "outcome_of 0 (vp[i := vp ! i + 2]) (vp[i := vp ! i + 2])" by (simp add: outcome_of_def)
    from outcome_step [OF _ _ _ this] show ?thesis
      using 1(4) alive i by (simp add: play.simps [of "[i]"])
  next
    case False
    from 1(4) False consider
        "r = fold (\<lambda>i v. v[i := v ! i + 1]) alive vp"
      | pos where "pos < length alive"
          "r \<in> set (play (filter (\<lambda>x. x \<noteq> alive ! (Suc pos mod length alive)) alive)
                      (vp[alive ! pos := vp ! (alive ! pos) + 2]))"
      | q where "q \<in> set alive" "r \<in> set (play (filter (\<lambda>x. x \<noteq> q) alive) (vp[q := vp ! q + 1]))"
      by (subst (asm) play.simps) (auto simp: Let_def)
    then show ?thesis
    proof cases
      case 1
      then show ?thesis using timed_outcome "1.prems"(1) by simp
    next
      case (2 pos)
      define prey where "prey = alive ! ((pos + 1) mod length alive)"
      define killer where "killer = alive ! pos"
      have in_alive: "prey \<in> set alive" "killer \<in> set alive"
        using 2(1) by (auto simp: prey_def killer_def intro!: nth_mem mod_less_divisor)
      note rest = in_play_without [OF "1.prems"(1) in_alive, of 2]
      have "outcome_of (length (filter (\<lambda>x. x \<noteq> prey) alive)) (vp[killer := vp ! killer + 2]) r"
      proof (rule "1.IH"(1) [OF False _ killer_def prey_def rest(1)])
        show "pos \<in> set [0..<length alive]" using 2(1) by simp
        show "r \<in> set (play (filter (\<lambda>x. x \<noteq> prey) alive) (vp[killer := vp ! killer + 2]))"
          using 2(2) by (simp add: prey_def killer_def)
      qed simp
      from outcome_step [OF _ _ _ this] show ?thesis using alive in_alive rest(2) by simp
    next
      case (3 q)
      note rest = in_play_without [OF "1.prems"(1) 3(1) 3(1), of 1]
      have "outcome_of (length (filter (\<lambda>x. x \<noteq> q) alive)) (vp[q := vp ! q + 1]) r"
        by (rule "1.IH"(2) [OF False 3(1) rest(1) 3(2)]) simp
      from outcome_step [OF _ _ _ this] show ?thesis using alive 3(1) rest(2) by simp
    qed
  qed
qed

lemma reachable_outcome:
  assumes "r \<in> set (reachable_results n)"
  shows "length r = n \<and> accounted r = n \<and> n \<le> sum_list r \<and> sum_list r \<le> 2 * n"
proof -
  have "in_play [0..<n] (replicate n 0)" by (simp add: in_play_def)
  from play_outcome [OF this] assms show ?thesis
    by (simp add: reachable_results_def outcome_of_def accounted_def sum_list_replicate)
qed

definition points :: "nat list \<Rightarrow> rat list" where
  "points hs = map (\<lambda>h. of_nat h / 2) hs"

lemma ceiling_half: "\<lceil>(of_nat h :: rat) / 2\<rceil> = int ((h + 1) div 2)"
proof -
  have "h = 2 * ((h + 1) div 2) \<or> h + 1 = 2 * ((h + 1) div 2)" by presburger
  then have "(of_nat h :: rat) = 2 * of_nat ((h + 1) div 2) \<or> (of_nat h :: rat) + 1 = 2 * of_nat ((h + 1) div 2)"
    by (metis of_nat_1 of_nat_add of_nat_mult of_nat_numeral)
  then show ?thesis by (intro ceiling_unique) auto
qed

lemma accounted_points: "sum_list (map ceiling (points hs)) = int (accounted hs)"
  by (induction hs) (simp_all add: points_def accounted_def ceiling_half)

lemma half_steps_points:
  "half_steps (points hs) = (if list_all (\<lambda>h. h \<le> 10) hs then Some hs else None)"
proof -
  have "near_integer (of_nat h / 2 * 2)" for h by (simp add: near_integer_def)
  moreover have "((of_nat h :: rat) / 2 \<le> 5) = (h \<le> 10)" for h
  proof -
    have "((of_nat h :: rat) / 2 \<le> 5) = ((of_nat h :: rat) \<le> of_nat 10)" by simp
    then show ?thesis by (simp only: of_nat_le_iff)
  qed
  ultimately show ?thesis
    by (auto simp: half_steps_def points_def list_all_iff intro!: map_idI)
qed


section \<open>Game wins\<close>

lemma card_one: "i \<in> A \<Longrightarrow> card A = 1 \<longleftrightarrow> A = {i}"
  by (auto simp: card_1_singleton_iff)

lemma nth_compute_gw:
  assumes "i < length vps" and "length adjustments = length vps"
  shows "compute_gw vps adjustments ! i =
    (if 2 \<le> adjusted vps adjustments ! i
        \<and> (\<forall>j < length vps. j \<noteq> i \<longrightarrow> adjusted vps adjustments ! j < adjusted vps adjustments ! i)
     then 1 else 0)"
proof -
  define a where "a = adjusted vps adjustments"
  have len: "length a = length vps" using assms(2) by (simp add: a_def adjusted_def)
  have top: "a ! j \<le> Max (set a)" if "j < length a" for j using that by simp
  have count: "count_list a x = card {j. j < length a \<and> a ! j = x}" for x
    by (simp add: count_list_eq_length_filter length_filter_conv_card eq_commute)
  have "i \<in> {j. j < length a \<and> a ! j = a ! i}" using assms(1) len by simp
  then have once: "count_list a (a ! i) = 1 \<longleftrightarrow> {j. j < length a \<and> a ! j = a ! i} = {i}"
    unfolding count by (rule card_one)
  have "a ! i = Max (set a) \<and> count_list a (Max (set a)) = 1
      \<longleftrightarrow> (\<forall>j < length a. j \<noteq> i \<longrightarrow> a ! j < a ! i)"
  proof
    assume "a ! i = Max (set a) \<and> count_list a (Max (set a)) = 1"
    then have "{j. j < length a \<and> a ! j = a ! i} = {i}" "a ! i = Max (set a)" using once by auto
    then show "\<forall>j < length a. j \<noteq> i \<longrightarrow> a ! j < a ! i" using top by (auto simp: order.strict_iff_order)
  next
    assume less: "\<forall>j < length a. j \<noteq> i \<longrightarrow> a ! j < a ! i"
    then have "Max (set a) = a ! i"
      using assms(1) len by (intro Max_eqI) (auto simp: in_set_conv_nth intro: less_imp_le)
    moreover have "{j. j < length a \<and> a ! j = a ! i} = {i}" using less assms(1) len by auto
    ultimately show "a ! i = Max (set a) \<and> count_list a (Max (set a)) = 1" using once by simp
  qed
  then show ?thesis
    using assms len by (auto simp: compute_gw_def a_def [symmetric] Let_def)
qed

lemma foldl_argmin:
  fixes f :: "'a \<Rightarrow> 'b::linorder"
  shows "(let m = foldl (\<lambda>b i. if f i < f b then i else b) b xs
     in m \<in> insert b (set xs) \<and> (\<forall>i \<in> insert b (set xs). f m \<le> f i))"
proof (induction xs arbitrary: b)
  case (Cons x xs)
  show ?case
    using Cons.IH [of "if f x < f b then x else b"]
    by (auto simp: Let_def split: if_splits dest: less_imp_le intro: order.trans)
qed simp

text \<open>Highest adjusted points first, then the better seed\<close>

definition finals_key :: "rat list \<Rightarrow> uid list \<Rightarrow> uid list \<Rightarrow> nat \<Rightarrow> rat \<times> nat" where
  "finals_key a uids seeds i = (- (a ! i), seed_pos seeds (uids ! i))"

lemma finals_better_key: "finals_better a uids seeds i b \<longleftrightarrow> finals_key a uids seeds i < finals_key a uids seeds b"
  by (auto simp: finals_better_def finals_key_def less_prod_def')

lemma finals_best_least:
  assumes "a \<noteq> []"
  shows "finals_best a uids seeds < length a"
    and "i < length a \<Longrightarrow> finals_key a uids seeds (finals_best a uids seeds) \<le> finals_key a uids seeds i"
proof -
  have range: "insert 0 (set [1..<length a]) = {..<length a}" using assms by (cases a) auto
  have eq: "finals_best a uids seeds = foldl (\<lambda>b i. if finals_key a uids seeds i < finals_key a uids seeds b then i else b)
      0 [1..<length a]"
    by (simp only: finals_best_def finals_better_key)
  have "finals_best a uids seeds \<in> {..<length a}
    \<and> (\<forall>i \<in> {..<length a}. finals_key a uids seeds (finals_best a uids seeds) \<le> finals_key a uids seeds i)"
    unfolding eq
    by (rule foldl_argmin [of "finals_key a uids seeds" 0 "[1..<length a]", unfolded Let_def range])
  then show "finals_best a uids seeds < length a"
    and "i < length a \<Longrightarrow> finals_key a uids seeds (finals_best a uids seeds) \<le> finals_key a uids seeds i"
    by auto
qed

lemma sum_list_unit: "b < n \<Longrightarrow> sum_list ((replicate n (0 :: rat))[b := 1]) = 1"
proof (induction n arbitrary: b)
  case (Suc n)
  then show ?case by (cases b) (auto simp: sum_list_replicate)
qed simp

lemma sum_list_le_one:
  fixes xs :: "rat list"
  assumes "\<forall>i < length xs. xs ! i = 0 \<or> xs ! i = 1" and "\<forall>i < length xs. \<forall>j < length xs. xs ! i = 1 \<longrightarrow> xs ! j = 1 \<longrightarrow> i = j"
  shows "sum_list xs \<le> 1"
  using assms
proof (induction xs)
  case (Cons x xs)
  have tail: "xs ! i = 0 \<or> xs ! i = 1" if "i < length xs" for i
    using Cons.prems(1) [rule_format, of "Suc i"] that by simp
  have inj: "i = j" if "i < length xs" "j < length xs" "xs ! i = 1" "xs ! j = 1" for i j
    using Cons.prems(2) [rule_format, of "Suc i" "Suc j"] that by simp
  show ?case
  proof (cases "x = 1")
    case True
    have zero: "xs ! i = 0" if "i < length xs" for i
      using Cons.prems(2) [rule_format, of 0 "Suc i"] tail [OF that] that True by auto
    have "sum_list xs = 0"
    proof -
      have "\<forall>y \<in> set xs. y = 0" using zero by (metis in_set_conv_nth)
      then show ?thesis by (induction xs) auto
    qed
    with True show ?thesis by simp
  next
    case False
    then have "x = 0" using Cons.prems(1) [rule_format, of 0] by simp
    with Cons.IH tail inj show ?thesis by simp
  qed
qed simp

text \<open>C15: A preliminary table has at most one game win: it goes to the one player with at least
  two victory points after adjustments and strictly more than everyone else, and to nobody on a
  tie.\<close>

theorem game_win_unique_top:
  assumes "length adjustments = length vps" and "i < length vps"
  shows "(compute_gw vps adjustments ! i = 1) =
      (2 \<le> adjusted vps adjustments ! i
       \<and> (\<forall>j < length vps. j \<noteq> i \<longrightarrow> adjusted vps adjustments ! j < adjusted vps adjustments ! i))
    \<and> length (compute_gw vps adjustments) = length vps \<and> sum_list (compute_gw vps adjustments) \<le> 1"
proof -
  have len: "length (compute_gw vps adjustments) = length vps"
    using assms(1) by (simp add: compute_gw_def adjusted_def Let_def)
  have "sum_list (compute_gw vps adjustments) \<le> 1"
  proof (rule sum_list_le_one)
    show "\<forall>i < length (compute_gw vps adjustments). compute_gw vps adjustments ! i = 0 \<or> compute_gw vps adjustments ! i = 1"
      using nth_compute_gw [OF _ assms(1)] by (simp add: len)
    show "\<forall>i < length (compute_gw vps adjustments). \<forall>j < length (compute_gw vps adjustments).
        compute_gw vps adjustments ! i = 1 \<longrightarrow> compute_gw vps adjustments ! j = 1 \<longrightarrow> i = j"
      using nth_compute_gw [OF _ assms(1)] by (force simp: len split: if_splits)
  qed
  then show ?thesis using nth_compute_gw [OF assms(2,1)] len by simp
qed

theorem game_win_unique_top_witness:
  "compute_gw [3, 1, 1, 0] [0, 0, -1, 0] ! 0 = 1"
  using game_win_unique_top [of "[0, 0, -1, 0]" "[3, 1, 1, 0]" 0]
  by (simp add: adjusted_def less_Suc_eq all_conj_distrib numeral_eq_Suc)

text \<open>A final always has one winner, whatever the scores: the highest adjusted points, and on
  a tie the best seed; exactly one game win is given.\<close>

theorem final_has_one_winner:
  assumes "length adjustments = length vps" and "vps \<noteq> []" and "i < length vps"
  shows "sum_list (compute_gw_finals vps adjustments uids seeds) = 1
    \<and> (compute_gw_finals vps adjustments uids seeds ! i = 1)
        = (i = finals_best (adjusted vps adjustments) uids seeds)
    \<and> finals_key (adjusted vps adjustments) uids seeds (finals_best (adjusted vps adjustments) uids seeds)
        \<le> finals_key (adjusted vps adjustments) uids seeds i"
proof -
  have a: "adjusted vps adjustments \<noteq> []" "length (adjusted vps adjustments) = length vps"
    using assms(1,2) by (auto simp: adjusted_def)
  note best = finals_best_least [OF a(1), unfolded a(2)]
  show ?thesis
    using assms(2,3) best sum_list_unit by (auto simp: compute_gw_finals_def nth_list_update)
qed

theorem final_has_one_winner_witness:
  "sum_list (compute_gw_finals [1, 1, 0, 0, 0] [0, 0, 0, 0, 0] [''a'', ''b'', ''c'', ''d'', ''e''] [''b'', ''a'']) = 1"
  using final_has_one_winner [of "[0, 0, 0, 0, 0]" "[1, 1, 0, 0, 0]" 0] by simp

section \<open>Tournament points\<close>

lemma tp_runs_keys: "map fst (tp_runs a base is) = is"
proof (induction a base "is" rule: tp_runs.induct)
  case (2 a base i "is")
  then show ?case by (simp add: Let_def comp_def)
qed simp

lemma tp_runs_total:
  "length is \<le> length base \<Longrightarrow> sum_list (map snd (tp_runs a base is)) = sum_list (take (length is) base)"
proof (induction a base "is" rule: tp_runs.induct)
  case (2 a base i "is")
  define k where "k = Suc (length (takeWhile (\<lambda>j. a ! j = a ! i) is))"
  have k: "0 < k" "k \<le> length (i # is)"
    using length_takeWhile_le [of "\<lambda>j. a ! j = a ! i" "is"] by (simp_all add: k_def)
  have "sum_list (map snd (tp_runs a (drop k base) (drop k (i # is))))
      = sum_list (take (length (i # is) - k) (drop k base))"
    using 2 by (simp add: k_def)
  moreover have "take (length (i # is)) base = take k base @ take (length (i # is) - k) (drop k base)"
    using k by (metis le_add_diff_inverse take_add)
  moreover have "sum_list (map snd (map (\<lambda>j. (j, x)) (take k (i # is)))) = of_nat k * x" for x :: rat
    using k by (simp add: comp_def sum_list_triv)
  ultimately show ?case
    using k(1) by (simp add: tp_runs.simps(2) [of a base i "is"] k_def [symmetric] Let_def del: take_Suc_Cons drop_Suc_Cons)
qed simp

text \<open>Where the first run of equals ends\<close>

abbreviation run_length :: "rat list \<Rightarrow> nat \<Rightarrow> nat list \<Rightarrow> nat" where
  "run_length a i is \<equiv> Suc (length (takeWhile (\<lambda>j. a ! j = a ! i) is))"

abbreviation run_average :: "rat list \<Rightarrow> nat \<Rightarrow> nat list \<Rightarrow> rat list \<Rightarrow> rat" where
  "run_average a i is base \<equiv> sum_list (take (run_length a i is) base) / of_nat (run_length a i is)"

lemma tp_runs_step:
  "tp_runs a base (i # is) = map (\<lambda>j. (j, run_average a i is base)) (take (run_length a i is) (i # is))
     @ tp_runs a (drop (run_length a i is) base) (drop (run_length a i is) (i # is))"
  by (simp add: Let_def)

lemma run_length_le: "run_length a i is \<le> length (i # is)"
  using length_takeWhile_le [of "\<lambda>j. a ! j = a ! i" "is"] by simp

lemma sum_list_bounds:
  fixes xs :: "rat list"
  shows "(\<And>x. x \<in> set xs \<Longrightarrow> x \<le> B) \<Longrightarrow> sum_list xs \<le> of_nat (length xs) * B"
    and "(\<And>x. x \<in> set xs \<Longrightarrow> B \<le> x) \<Longrightarrow> of_nat (length xs) * B \<le> sum_list xs"
  by (induction xs) (fastforce simp: algebra_simps)+

lemma average_bounds:
  fixes xs :: "rat list"
  assumes "k \<le> length xs" and "0 < k"
  shows "(\<And>x. x \<in> set xs \<Longrightarrow> x \<le> B) \<Longrightarrow> sum_list (take k xs) / of_nat k \<le> B"
    and "(\<And>x. x \<in> set (take k xs) \<Longrightarrow> B \<le> x) \<Longrightarrow> B \<le> sum_list (take k xs) / of_nat k"
  using sum_list_bounds [of "take k xs" B] assms
  by (auto simp: divide_le_eq le_divide_eq mult.commute dest: in_set_takeD)

lemma tp_runs_le:
  assumes "\<And>b. b \<in> set base \<Longrightarrow> b \<le> B" and "length is \<le> length base" and "p \<in> set (tp_runs a base is)"
  shows "snd p \<le> B"
  using assms
proof (induction a base "is" rule: tp_runs.induct)
  case (2 a base i "is")
  have k: "run_length a i is \<le> length base" using run_length_le [of a i "is"] 2(3) by linarith
  from 2(4) consider "snd p = run_average a i is base"
    | "p \<in> set (tp_runs a (drop (run_length a i is) base) (drop (run_length a i is) (i # is)))"
    unfolding tp_runs_step by auto
  then show ?case
  proof cases
    case 1
    then show ?thesis using average_bounds(1) [OF k, of B] 2(2) by simp
  next
    case 2
    show ?thesis
    proof (rule "2.IH" [OF refl refl])
      show "b \<le> B" if "b \<in> set (drop (run_length a i is) base)" for b
        using "2.prems"(1) that by (meson in_set_dropD)
      show "length (drop (run_length a i is) (i # is)) \<le> length (drop (run_length a i is) base)"
        using "2.prems"(2) by simp
      show "p \<in> set (tp_runs a (drop (run_length a i is) base) (drop (run_length a i is) (i # is)))" by (rule 2)
    qed
  qed
qed simp

lemma tp_runs_descending:
  assumes "sorted_wrt (\<ge>) base" and "length is \<le> length base"
  shows "sorted_wrt (\<lambda>p q. snd q \<le> snd p) (tp_runs a base is)"
  using assms
proof (induction a base "is" rule: tp_runs.induct)
  case (2 a base i "is")
  define k where "k = run_length a i is"
  have k: "k \<le> length base" "0 < k" using run_length_le [of a i "is"] 2(3) unfolding k_def by linarith+
  define B where "B = base ! (k - 1)"
  have first: "B \<le> x" if "x \<in> set (take k base)" for x
  proof -
    from that obtain m where "m < k" "x = base ! m" by (auto simp: in_set_conv_nth)
    then show ?thesis using 2(2) k
      by (cases "m = k - 1") (auto simp: B_def sorted_wrt_iff_nth_less)
  qed
  have rest: "x \<le> B" if "x \<in> set (drop k base)" for x
  proof -
    from that obtain m where "x = base ! (k + m)" "k + m < length base" by (auto simp: in_set_conv_nth)
    then show ?thesis using 2(2) k by (auto simp: B_def sorted_wrt_iff_nth_less)
  qed
  have "snd q \<le> B" if "q \<in> set (tp_runs a (drop k base) (drop k (i # is)))" for q
    using tp_runs_le [of "drop k base" B "drop k (i # is)" q a] rest that 2(3) by simp
  moreover have "B \<le> run_average a i is base"
    using average_bounds(2) [OF k, of B] first by (simp only: k_def)
  moreover have "sorted_wrt (\<lambda>p q. snd q \<le> snd p) (tp_runs a (drop k base) (drop k (i # is)))"
    unfolding k_def
  proof (rule "2.IH" [OF refl refl])
    show "sorted_wrt (\<ge>) (drop (run_length a i is) base)" using 2(2) by (rule sorted_wrt_drop)
  qed (use 2(3) in simp)
  ultimately show ?case
    unfolding tp_runs_step k_def [symmetric]
    by (auto simp: sorted_wrt_append sorted_wrt_map intro: order.trans)
qed simp

lemma tp_runs_ties:
  assumes "sorted (map (\<lambda>i. - (a ! i)) is)" and "(i, x) \<in> set (tp_runs a base is)"
    and "(j, y) \<in> set (tp_runs a base is)" and "a ! i = a ! j"
  shows "x = y"
  using assms
proof (induction a base "is" rule: tp_runs.induct)
  case (2 a base h "is")
  define k where "k = run_length a h is"
  have later: "a ! m < a ! h" if "m \<in> set (drop k (h # is))" for m
  proof -
    have "m \<in> set (dropWhile (\<lambda>j. a ! j = a ! h) is)" using that by (simp add: k_def dropWhile_eq_drop)
    then show ?thesis using 2(2) by (induction "is") (auto split: if_splits)
  qed
  have run: "a ! m = a ! h" if "m \<in> set (take k (h # is))" for m
    using that by (auto simp: k_def takeWhile_eq_take [symmetric] dest: set_takeWhileD)
  have keys: "m \<in> set (drop k (h # is))" if "(m, z) \<in> set (tp_runs a (drop k base) (drop k (h # is)))" for m z
    using that tp_runs_keys [of a "drop k base" "drop k (h # is)"] by (metis fst_conv image_eqI list.set_map)
  have sorted: "sorted (map (\<lambda>i. - (a ! i)) (drop k (h # is)))"
    using 2(2) by (metis drop_map sorted_wrt_drop)
  from 2(3) [unfolded tp_runs_step k_def [symmetric]] 2(4) [unfolded tp_runs_step k_def [symmetric]]
  consider "i \<in> set (take k (h # is))" "j \<in> set (take k (h # is))" "x = y"
    | "i \<in> set (take k (h # is))" "(j, y) \<in> set (tp_runs a (drop k base) (drop k (h # is)))"
    | "(i, x) \<in> set (tp_runs a (drop k base) (drop k (h # is)))" "j \<in> set (take k (h # is))"
    | "(i, x) \<in> set (tp_runs a (drop k base) (drop k (h # is)))" "(j, y) \<in> set (tp_runs a (drop k base) (drop k (h # is)))"
    by auto
  then show ?case
  proof cases
    case 1 then show ?thesis by simp
  next
    case 2 then show ?thesis using run later keys "2.prems"(4) by fastforce
  next
    case 3 then show ?thesis using run later keys "2.prems"(4) by fastforce
  next
    case 4
    show ?thesis
      using "2.IH" [OF refl refl] sorted 4 "2.prems"(4) by (simp only: k_def)
  qed
qed simp

lemma sum_over_keys:
  assumes "distinct (map fst d)" and "fst ` set d = {..<n}"
  shows "sum_list (map (\<lambda>i. case map_of d i of None \<Rightarrow> 0 | Some x \<Rightarrow> x) [0..<n]) = sum_list (map snd (d :: (nat \<times> rat) list))"
proof -
  let ?f = "\<lambda>i. case map_of d i of None \<Rightarrow> 0 | Some x \<Rightarrow> x"
  have "sum_list (map ?f [0..<n]) = sum ?f (fst ` set d)"
    using assms(2) by (simp add: sum_list_distinct_conv_sum_set lessThan_atLeast0)
  also have "\<dots> = sum (?f \<circ> fst) (set d)"
    using assms(1) by (intro sum.reindex) (simp add: distinct_map)
  also have "\<dots> = sum snd (set d)"
    using assms(1) by (intro sum.cong) (auto simp: map_of_eq_Some_iff)
  also have "\<dots> = sum_list (map snd d)"
    using assms(1) by (simp add: sum_list_distinct_conv_sum_set distinct_map)
  finally show ?thesis .
qed

lemma compute_tp_runs:
  assumes "tp_base n = Some base" and "length vps = n" and "length adjustments = n"
  obtains tps where "map fst tps = sort_key (\<lambda>i. - (adjusted vps adjustments ! i)) [0..<n]"
    and "tps = tp_runs (adjusted vps adjustments) base (map fst tps)"
    and "\<And>i x. (i, x) \<in> set tps \<Longrightarrow> compute_tp n vps adjustments ! i = x"
    and "compute_tp n vps adjustments = map (\<lambda>i. case map_of tps i of None \<Rightarrow> 0 | Some x \<Rightarrow> x) [0..<n]"
proof
  define tps where "tps = tp_runs (adjusted vps adjustments) base
      (sort_key (\<lambda>i. - (adjusted vps adjustments ! i)) [0..<n])"
  show fst: "map fst tps = sort_key (\<lambda>i. - (adjusted vps adjustments ! i)) [0..<n]"
    by (simp add: tps_def tp_runs_keys)
  then show "tps = tp_runs (adjusted vps adjustments) base (map fst tps)" by (simp add: tps_def)
  show eq: "compute_tp n vps adjustments = map (\<lambda>i. case map_of tps i of None \<Rightarrow> 0 | Some x \<Rightarrow> x) [0..<n]"
    using assms by (simp add: compute_tp_def tps_def Let_def)
  show "compute_tp n vps adjustments ! i = x" if "(i, x) \<in> set tps" for i x
  proof -
    have "distinct (map fst tps)" by (simp add: fst)
    then have "map_of tps i = Some x" using that by simp
    moreover have "i \<in> set (map fst tps)" using that by (force simp: image_iff)
    then have "i < n" unfolding fst by simp
    ultimately show ?thesis by (simp add: eq)
  qed
qed

text \<open>Tournament points are conserved and fair: a full table of four or five always shares
  out the same total, a player with more adjusted victory points never gets fewer, and players on
  the same adjusted points get the same.\<close>

theorem tournament_points_fair:
  assumes "tp_base n = Some base" and "length vps = n" and "length adjustments = n"
    and "i < n" and "j < n"
  shows "sum_list (compute_tp n vps adjustments) = sum_list base
    \<and> (if adjusted vps adjustments ! i = adjusted vps adjustments ! j
       then compute_tp n vps adjustments ! i = compute_tp n vps adjustments ! j
       else if adjusted vps adjustments ! i < adjusted vps adjustments ! j
       then compute_tp n vps adjustments ! i \<le> compute_tp n vps adjustments ! j
       else compute_tp n vps adjustments ! j \<le> compute_tp n vps adjustments ! i)"
proof -
  define a where "a = adjusted vps adjustments"
  obtain tps where fst: "map fst tps = sort_key (\<lambda>i. - (a ! i)) [0..<n]"
    and tps: "tps = tp_runs a base (map fst tps)"
    and nth: "\<And>i x. (i, x) \<in> set tps \<Longrightarrow> compute_tp n vps adjustments ! i = x"
    and eq: "compute_tp n vps adjustments = map (\<lambda>i. case map_of tps i of None \<Rightarrow> 0 | Some x \<Rightarrow> x) [0..<n]"
    using compute_tp_runs [OF assms(1-3)] unfolding a_def by blast
  have base: "length base = n" "sorted_wrt (\<ge>) base"
    using assms(1) by (auto simp: tp_base_def split: if_splits)
  have sorted: "sorted (map (\<lambda>i. - (a ! i)) (map fst tps))" unfolding fst by (rule sorted_sort_key)
  have len: "length tps = n" using arg_cong [OF fst, of length] by simp
  have "fst ` set tps = {..<n}" using arg_cong [OF fst, of set] by (simp add: lessThan_atLeast0)
  moreover have "distinct (map fst tps)" by (simp add: fst)
  moreover have "sum_list (map snd tps) = sum_list base"
    using tp_runs_total [of "map fst tps" base a] tps base(1) len by simp
  ultimately have total: "sum_list (compute_tp n vps adjustments) = sum_list base"
    using sum_over_keys [of tps n] by (simp add: eq)
  have entry: "\<exists>p < n. tps ! p = (k, compute_tp n vps adjustments ! k)" if "k < n" for k
  proof -
    have "k \<in> fst ` set tps" using \<open>fst ` set tps = {..<n}\<close> that by simp
    then obtain x where "(k, x) \<in> set tps" by auto
    with nth len show ?thesis by (metis in_set_conv_nth)
  qed
  have down: "compute_tp n vps adjustments ! k \<le> compute_tp n vps adjustments ! l"
    if kl: "k < n" "l < n" "a ! k < a ! l" for k l
  proof -
    obtain p where p: "p < n" "tps ! p = (k, compute_tp n vps adjustments ! k)"
      using entry [OF kl(1)] by blast
    obtain q where q: "q < n" "tps ! q = (l, compute_tp n vps adjustments ! l)"
      using entry [OF kl(2)] by blast
    have "q < p"
    proof (rule ccontr)
      assume "\<not> q < p"
      then have "- (a ! fst (tps ! p)) \<le> - (a ! fst (tps ! q))"
        using sorted_nth_mono [OF sorted, of p q] p q len by simp
      with p q kl show False by simp
    qed
    moreover have "sorted_wrt (\<lambda>p q. snd q \<le> snd p) tps"
      using tp_runs_descending [OF base(2), of "map fst tps" a] tps base(1) len by simp
    ultimately have "snd (tps ! p) \<le> snd (tps ! q)"
      using p(1) len by (auto simp: sorted_wrt_iff_nth_less)
    then show ?thesis by (simp only: p(2) q(2) snd_conv)
  qed
  have same: "compute_tp n vps adjustments ! i = compute_tp n vps adjustments ! j" if tie: "a ! i = a ! j"
  proof -
    have "(k, compute_tp n vps adjustments ! k) \<in> set (tp_runs a base (map fst tps))" if "k < n" for k
      using entry [OF that] tps len by (metis nth_mem)
    from tp_runs_ties [OF sorted this [OF assms(4)] this [OF assms(5)] tie] show ?thesis .
  qed
  show ?thesis
    unfolding a_def [symmetric] using total down [OF assms(4,5)] down [OF assms(5,4)] same by auto
qed

theorem tournament_points_fair_witness:
  "sum_list (compute_tp 5 [2, 1, 1, 1, 0] [0, 0, 0, 0, 0]) = 180"
  using tournament_points_fair [of 5 "[60, 48, 36, 24, 12]" "[2, 1, 1, 1, 0]" "[0, 0, 0, 0, 0]" 0 1]
  by (simp add: tp_base_def)

end
