(* ===== verification/Standings.thy ===== *)
theory Standings
  imports Scoring_Laws
begin

text \<open>
  \<open>engine/src/tournament/standings.rs\<close> and \<open>engine/src/ratings.rs\<close>: preliminary standings with
  their re-scoring, final placement, and what an event is worth to a member.  The hash map of the
  totals is an insertion-ordered dictionary; the sort is by a total order on its entries, so the
  map's order does not show.
\<close>

section \<open>Preliminary standings\<close>

record tally =
  ty_gw :: rat
  ty_vp :: rat
  ty_tp :: rat

definition no_tally :: tally where
  "no_tally = \<lparr>ty_gw = 0, ty_vp = 0, ty_tp = 0\<rparr>"

record standing_entry =
  se_user_uid :: uid
  se_gw :: rat
  se_vp :: rat
  se_tp :: rat
  se_toss :: int
  se_finalist :: bool
  se_disqualified :: bool
  se_non_competing :: bool

definition tally_seats :: "(seat \<times> rat \<times> rat \<times> rat) list \<Rightarrow> (uid \<times> tally) list \<Rightarrow> (uid \<times> tally) list" where
  "tally_seats seats m = fold (\<lambda>(s, g, v, p) m.
     if seat_player_uid s = [] then m
     else let u = seat_player_uid s; e = (case map_of m u of None \<Rightarrow> no_tally | Some e \<Rightarrow> e)
          in put u \<lparr>ty_gw = ty_gw e + g, ty_vp = ty_vp e + v, ty_tp = ty_tp e + p\<rparr> m) seats m"

definition tally_table :: "(uid \<times> nat) list \<Rightarrow> nat \<Rightarrow> table \<Rightarrow> (uid \<times> tally) list \<Rightarrow> (uid \<times> tally) list" where
  "tally_table sas r tb m =
     (if tb_state tb \<noteq> TS_FINISHED then m
      else let vps = seat_vps (tb_seating tb); (gws, tps) = score_table (tb_seating tb) vps r sas None
           in tally_seats (zip (tb_seating tb) (zip gws (zip vps tps))) m)"

definition tallies :: "tournament \<Rightarrow> (uid \<times> nat) list \<Rightarrow> (uid \<times> tally) list" where
  "tallies t sas = fold (\<lambda>(r, tables) m. fold (tally_table sas r) tables m) (enumerate 0 (t_rounds t)) []"

definition player_of :: "tournament \<Rightarrow> uid \<Rightarrow> player option" where
  "player_of t u = find (\<lambda>p. pl_user_uid p = Some u) (t_players t)"

definition standing_of :: "tournament \<Rightarrow> sanction list \<Rightarrow> (uid \<times> nat) list \<Rightarrow> uid \<times> tally \<Rightarrow> standing_entry" where
  "standing_of t ss prelim_sas ut =
     (let (u, e) = ut; p = player_of t u;
          dq = (case p of None \<Rightarrow> False | Some x \<Rightarrow> pl_state x = DISQUALIFIED) \<or> has_dq_sanction ss u
      in \<lparr>se_user_uid = u,
          se_gw = (if dq then 0 else ty_gw e),
          se_vp = (if dq then 0 else ty_vp e - sa_vp_penalty prelim_sas u),
          se_tp = (if dq then 0 else ty_tp e),
          se_toss = (case p of None \<Rightarrow> 0 | Some x \<Rightarrow> pl_toss x),
          se_finalist = (case p of None \<Rightarrow> False | Some x \<Rightarrow> pl_finalist x),
          se_disqualified = dq,
          se_non_competing = (case p of None \<Rightarrow> False | Some x \<Rightarrow> pl_non_competing x)\<rparr>)"

type_synonym rank_key = "bool \<times> rat \<times> rat \<times> rat \<times> int \<times> string"

text \<open>Descending fields are negated, so that the order is the lexicographic one.\<close>

definition rank_key :: "standing_entry \<Rightarrow> rank_key" where
  "rank_key s = (se_disqualified s \<or> se_non_competing s, - se_gw s, - se_vp s, - se_tp s,
     - se_toss s, se_user_uid s)"

definition sort_by_rank :: "standing_entry list \<Rightarrow> standing_entry list" where
  "sort_by_rank = sort_key rank_key"

definition compute_preliminary_standings :: "tournament \<Rightarrow> sanction list \<Rightarrow> standing_entry list" where
  "compute_preliminary_standings t ss =
     (let sas = resolve_sa_effective_rounds t ss;
          prelim_sas = filter (\<lambda>sa. snd sa < length (t_rounds t)) sas
      in sort_by_rank (map (standing_of t ss prelim_sas) (tallies t sas)))"

section \<open>Re-scoring what is stored\<close>

text \<open>Scores are stored as numbers of the model's type, whatever float the engine computed.\<close>

definition with_score :: "rat \<Rightarrow> rat \<Rightarrow> seat \<Rightarrow> seat" where
  "with_score g p s = s\<lparr>seat_result := (seat_result s)\<lparr>sc_gw := \<lfloor>g\<rfloor>, sc_tp := \<lfloor>p\<rfloor>\<rparr>\<rparr>"

definition rescored :: "rat list \<Rightarrow> rat list \<Rightarrow> seat list \<Rightarrow> seat list" where
  "rescored gws tps seating = map (\<lambda>(s, g, p). with_score g p s) (zip seating (zip gws tps))"

definition refresh_table :: "(uid \<times> nat) list \<Rightarrow> nat \<Rightarrow> table \<Rightarrow> table" where
  "refresh_table sas r tb =
     (if tb_state tb = TS_CANCELLED then tb
      else let seating = tb_seating tb; (gws, tps) = score_table seating (seat_vps seating) r sas None;
               keep = (\<lambda>xs. if tb_state tb = TS_FINISHED then xs else map (\<lambda>_. 0) xs)
           in tb\<lparr>tb_seating := rescored (keep gws) (keep tps) seating\<rparr>)"

definition refresh_round_scoring :: "tournament \<Rightarrow> sanction list \<Rightarrow> tournament" where
  "refresh_round_scoring t ss =
     (let sas = resolve_sa_effective_rounds t ss
      in t\<lparr>t_rounds := map (\<lambda>(r, tables). map (refresh_table sas r) tables) (enumerate 0 (t_rounds t))\<rparr>)"

definition refresh_finals_scoring :: "tournament \<Rightarrow> sanction list \<Rightarrow> tournament" where
  "refresh_finals_scoring t ss = (case t_finals t of
     None \<Rightarrow> t
   | Some f \<Rightarrow>
      if tb_state f \<noteq> TS_FINISHED then t
      else
        let sas = resolve_sa_effective_rounds t ss; seating = tb_seating f;
            (gws, tps) = score_table seating (seat_vps seating) (length (t_rounds t)) sas (Some (tb_seed_order f));
            winner = (if t_winner t = [] then t_winner t
              else case first_index (\<lambda>g. g = 1) gws of
                  None \<Rightarrow> t_winner t | Some w \<Rightarrow> seat_player_uid (seating ! w))
        in t\<lparr>t_finals := Some (f\<lparr>tb_seating := rescored gws tps seating\<rparr>), t_winner := winner\<rparr>)"

definition stored_standing :: "standing_entry \<Rightarrow> standing" where
  "stored_standing s = (new_standing (se_user_uid s))\<lparr>st_gw := se_gw s, st_vp := se_vp s,
     st_tp := \<lfloor>se_tp s\<rfloor>, st_toss := se_toss s, st_finalist := se_finalist s,
     st_disqualified := se_disqualified s, st_non_competing := se_non_competing s\<rparr>"

definition update_standings :: "tournament \<Rightarrow> sanction list \<Rightarrow> tournament" where
  "update_standings t ss =
     (let t' = refresh_round_scoring t ss
      in if t_rounds t' = [] then t'
         else refresh_finals_scoring
                (t'\<lparr>t_standings := map stored_standing (compute_preliminary_standings t' ss)\<rparr>) ss)"

section \<open>Final placement\<close>

record placed =
  pc_standing :: standing
  pc_no_show :: bool
  pc_rank :: nat
  pc_finalist_position :: int

definition final_played :: "standing list \<Rightarrow> bool" where
  "final_played ss \<longleftrightarrow> list_ex st_finalist ss"

definition is_no_show :: "standing \<Rightarrow> uid \<Rightarrow> bool" where
  "is_no_show s winner \<longleftrightarrow> \<not> st_disqualified s \<and> \<not> st_finalist s \<and> st_user_uid s \<noteq> winner
     \<and> st_gw s = 0 \<and> st_vp s = 0 \<and> st_tp s = 0"

definition excluded_row :: "uid \<Rightarrow> standing \<Rightarrow> bool" where
  "excluded_row winner s \<longleftrightarrow> st_disqualified s \<or> st_non_competing s \<or> is_no_show s winner"

definition place :: "uid \<Rightarrow> nat \<Rightarrow> int \<Rightarrow> standing \<Rightarrow> placed" where
  "place winner rank fp s =
     \<lparr>pc_standing = s, pc_no_show = is_no_show s winner, pc_rank = rank, pc_finalist_position = fp\<rparr>"

text \<open>\<open>as i64\<close> and \<open>as i32\<close> cut towards zero.\<close>

definition truncate_rat :: "rat \<Rightarrow> int" where
  "truncate_rat v = (if v < 0 then \<lceil>v\<rceil> else \<lfloor>v\<rfloor>)"

definition place_key :: "standing \<Rightarrow> int \<times> int \<times> int" where
  "place_key s = (truncate_rat (st_gw s * 10), truncate_rat (st_vp s * 10), st_tp s)"

text \<open>Equal rows share the rank of the first of them.\<close>

fun place_rest :: "uid \<Rightarrow> nat \<Rightarrow> nat \<Rightarrow> nat \<Rightarrow> (int \<times> int \<times> int) option \<Rightarrow> standing list \<Rightarrow> placed list" where
  "place_rest winner start idx rank prev [] = []"
| "place_rest winner start idx rank prev (s # ss) =
     (let rank' = (if prev = Some (place_key s) then rank else start + idx)
      in place winner rank' 0 s # place_rest winner start (Suc idx) rank' (Some (place_key s)) ss)"

definition compute_final_standings :: "standing list \<Rightarrow> uid \<Rightarrow> placed list" where
  "compute_final_standings ss winner =
     (let winner_present = (winner \<noteq> [] \<and> list_ex (\<lambda>s. st_user_uid s = winner) ss);
          is_winner = (\<lambda>s. winner_present \<and> st_user_uid s = winner);
          excluded = filter (excluded_row winner) ss;
          competing = filter (\<lambda>s. \<not> excluded_row winner s) ss;
          winners = filter is_winner competing;
          finalists = filter (\<lambda>s. \<not> is_winner s \<and> st_finalist s) competing;
          others = filter (\<lambda>s. \<not> is_winner s \<and> \<not> st_finalist s) competing;
          winner_rows = (if winners = [] then [] else [last winners]);
          finalist_count = length winner_rows + length finalists
      in map (place winner 1 (if final_played ss then 1 else 0)) winner_rows
         @ map (place winner 2 2) finalists
         @ place_rest winner (finalist_count + 1) 0 (finalist_count + 1) None others
         @ map (\<lambda>(i, s). place winner (finalist_count + length others + 1 + i) 0 s) (enumerate 0 excluded))"

section \<open>Rating figures\<close>

definition forfeits_rating :: "tournament \<Rightarrow> sanction list \<Rightarrow> uid \<Rightarrow> bool" where
  "forfeits_rating t ss u \<longleftrightarrow>
     list_ex (\<lambda>p. pl_user_uid p = Some u \<and> pl_state p = DISQUALIFIED) (t_players t)
     \<or> has_dq_sanction ss u
     \<or> list_ex (\<lambda>p. pl_user_uid p = Some u \<and> pl_non_competing p) (t_players t)"

definition table_share :: "(uid \<times> nat) list \<Rightarrow> uid \<Rightarrow> nat \<Rightarrow> table \<Rightarrow> rat \<times> rat" where
  "table_share sas u r tb =
     (if tb_state tb \<noteq> TS_FINISHED then (0, 0)
      else case first_index (\<lambda>s. seat_player_uid s = u) (tb_seating tb) of
          None \<Rightarrow> (0, 0)
        | Some i \<Rightarrow> (let vps = seat_vps (tb_seating tb)
                    in (vps ! i, fst (score_table (tb_seating tb) vps r sas None) ! i)))"

definition add_pair :: "rat \<times> rat \<Rightarrow> rat \<times> rat \<Rightarrow> rat \<times> rat" where
  "add_pair p q = (fst p + fst q, snd p + snd q)"

definition compute_rating_vp_gw :: "tournament \<Rightarrow> sanction list \<Rightarrow> uid \<Rightarrow> rat \<times> rat" where
  "compute_rating_vp_gw t ss u =
     (if forfeits_rating t ss u then (0, 0)
      else
        let sas = resolve_sa_effective_rounds t ss;
            prelim =
              (if t_rounds t = [] then
                 (case find (\<lambda>s. st_user_uid s = u) (t_standings t) of
                    None \<Rightarrow> (0, 0) | Some s \<Rightarrow> (st_vp s, st_gw s))
               else
                 let (vp, gw) = foldl add_pair (0, 0)
                       (concat (map (\<lambda>(r, tables). map (table_share sas u r) tables) (enumerate 0 (t_rounds t))))
                 in (vp - sa_vp_penalty sas u, gw));
            final = (case t_finals t of None \<Rightarrow> (0, 0)
              | Some f \<Rightarrow> foldl add_pair (0, 0)
                  (map (\<lambda>s. (sc_vp (seat_result s), of_int (sc_gw (seat_result s))))
                    (filter (\<lambda>s. seat_player_uid s = u) (tb_seating f))));
            win = (if t_finals t = None \<and> t_winner t = u \<and> final_played (t_standings t) then 1 else 0)
        in add_pair (add_pair prelim final) (0, win))"

section \<open>Eligibility\<close>

definition played_uids :: "tournament \<Rightarrow> uid list" where
  "played_uids t = remdups (filter (\<lambda>u. u \<noteq> [])
     (map seat_player_uid (concat (map tb_seating (concat (t_rounds t)))
        @ (case t_finals t of None \<Rightarrow> [] | Some f \<Rightarrow> tb_seating f))))"

definition players_with_rounds :: "tournament \<Rightarrow> nat" where
  "players_with_rounds t =
     (if t_rounds t \<noteq> [] then length (played_uids t)
      else length (filter (\<lambda>s. st_disqualified s \<or> st_gw s \<noteq> 0 \<or> st_vp s \<noteq> 0 \<or> st_tp s \<noteq> 0) (t_standings t)))"

definition attested_player_count :: "tournament \<Rightarrow> nat" where
  "attested_player_count t =
     (if t_rounds t \<noteq> [] then players_with_rounds t
      else if 0 < t_reported_player_count t then nat (t_reported_player_count t)
      else length (t_standings t))"

datatype eligibility = EL_STORYLINE | EL_OPEN_ROUNDS | EL_NO_RESULTS | EL_FEW_PLAYERS | EL_NO_FINAL | EL_ELIGIBLE

definition ranking_eligibility :: "tournament \<Rightarrow> eligibility" where
  "ranking_eligibility t =
     (if t_format t = Storyline then EL_STORYLINE
      else if t_open_rounds t \<or> t_self_organized_rounds t then EL_OPEN_ROUNDS
      else let played = players_with_rounds t
      in if played = 0 then EL_NO_RESULTS
      else if played < 8 then EL_FEW_PLAYERS
      else if t_finals t = None \<and> t_winner t = [] then EL_NO_FINAL
      else EL_ELIGIBLE)"

definition rating_category_of :: "tournament_format \<Rightarrow> bool \<Rightarrow> rating_category" where
  "rating_category_of fmt online =
     (if fmt \<noteq> Limited then (if online then CONSTRUCTED_ONLINE else CONSTRUCTED_OFFLINE)
      else (if online then LIMITED_ONLINE else LIMITED_OFFLINE))"

text \<open>
  Rating points.  The engine's \<open>f64\<close> logarithm is the real one here, so that a bonus within
  rounding error of a half may round the other way.
\<close>

definition round_half_away :: "real \<Rightarrow> int" where
  "round_half_away x = (if x < 0 then - \<lfloor>- x + 1 / 2\<rfloor> else \<lfloor>x + 1 / 2\<rfloor>)"

definition finalist_bonus :: "int \<Rightarrow> int" where
  "finalist_bonus fp = (if fp = 1 then 90 else if fp = 2 then 30 else 0)"

definition rank_bonus :: "tournament_rank \<Rightarrow> real" where
  "rank_bonus r = (case r of RANK_BASIC \<Rightarrow> 0 | RANK_NC \<Rightarrow> 1 / 4 | RANK_CC \<Rightarrow> 1)"

definition compute_rating_points :: "rat \<Rightarrow> int \<Rightarrow> int \<Rightarrow> int \<Rightarrow> tournament_rank \<Rightarrow> int" where
  "compute_rating_points vp gw fp player_count r =
     (let base = 5 + 4 * vp + 8 * of_int gw; bonus = finalist_bonus fp;
          coef = (if 0 < player_count \<and> 0 < bonus
             then ln (of_int player_count * of_int player_count) / ln 15 - 1 + rank_bonus r else 0)
      in truncate_rat base + round_half_away (of_int bonus * coef))"

end
