(* ===== verification/Store_Laws.thy ===== *)
theory Store_Laws
  imports Store
begin

text \<open>
  What the store promises its callers: a save reads back, touches one row and fails only on a
  unique index; the rows always agree with their projections; the owner columns outlive the
  saves that do not carry them; a fresh VEKN id is free and the least one; a login method is
  never the last one removed.  \<open>object_store\<close> is the interface the account, promo and rating
  components read and write through.
\<close>

section \<open>The projections of a stored object\<close>

lemma owner_columns_only_owner_fields:
  "compute_user_full (user_builtins (without_owner_columns u)) = compute_user_full (user_builtins u)"
  by (simp add: compute_user_full_def user_builtins_def without_owner_columns_def
        USER_OWNER_ONLY_FIELDS_def)

lemma pick_full: "F \<inter> USER_OWNER_ONLY_FIELDS = {} \<Longrightarrow> pick (compute_user_full d) F = pick d F"
  unfolding pick_def compute_user_full_def
  by (simp, rule arg_cong [where f = "\<lambda>p. keep_keys p d"]) blast

lemma dict_get_full: "k \<notin> USER_OWNER_ONLY_FIELDS \<Longrightarrow> dict_get (compute_user_full d) k = dict_get d k"
  by (simp add: dict_get_def compute_user_full_def)

lemma user_projections_full:
  "compute_user_public (compute_user_full d) = compute_user_public d"
  "compute_user_member (compute_user_full d) = compute_user_member d"
  "compute_user_api (compute_user_full d) = compute_user_api d"
proof -
  have keys: "''roles'' \<notin> USER_OWNER_ONLY_FIELDS" "''community_links'' \<notin> USER_OWNER_ONLY_FIELDS"
    "''vekn_id'' \<notin> USER_OWNER_ONLY_FIELDS"
    by (simp_all add: USER_OWNER_ONLY_FIELDS_def)
  have fields: "(USER_PUBLIC_FIELDS \<union> USER_CONTACT_FIELDS \<union> USER_COMMUNITY_LINKS) \<inter> USER_OWNER_ONLY_FIELDS = {}"
    "(USER_PUBLIC_FIELDS \<union> USER_COMMUNITY_LINKS) \<inter> USER_OWNER_ONLY_FIELDS = {}"
    "USER_LINKS_ONLY_FIELDS \<inter> USER_OWNER_ONLY_FIELDS = {}"
    "(USER_MEMBER_FIELDS \<union> USER_CONTACT_FIELDS \<union> USER_COMMUNITY_LINKS) \<inter> USER_OWNER_ONLY_FIELDS = {}"
    "(USER_MEMBER_FIELDS \<union> USER_COMMUNITY_LINKS) \<inter> USER_OWNER_ONLY_FIELDS = {}"
    "USER_MEMBER_FIELDS \<inter> USER_OWNER_ONLY_FIELDS = {}"
    "(USER_API_FIELDS - USER_API_CITY_FIELDS) \<inter> USER_OWNER_ONLY_FIELDS = {}"
    "USER_API_FIELDS \<inter> USER_OWNER_ONLY_FIELDS = {}"
    by (auto simp: USER_OWNER_ONLY_FIELDS_def field_sets)
  have roles: "roles_of (compute_user_full d) = roles_of d"
    by (simp add: roles_of_def dict_get_full keys)
  show "compute_user_public (compute_user_full d) = compute_user_public d"
    "compute_user_member (compute_user_full d) = compute_user_member d"
    "compute_user_api (compute_user_full d) = compute_user_api d"
    by (simp_all add: compute_user_public_def compute_user_member_def compute_user_api_def
          roles dict_get_full keys pick_full fields)
qed

lemma user_projections_stored:
  "compute_user_public (user_builtins (without_owner_columns u)) = compute_user_public (user_builtins u)"
  "compute_user_member (user_builtins (without_owner_columns u)) = compute_user_member (user_builtins u)"
  "compute_user_api (user_builtins (without_owner_columns u)) = compute_user_api (user_builtins u)"
  by (metis owner_columns_only_owner_fields user_projections_full)+

lemma obj_type_stored [simp]: "obj_type (as_stored x) = obj_type x"
  by (cases x) simp_all

lemma obj_uid_stored [simp]: "obj_uid (as_stored x) = obj_uid x"
  by (cases x) (simp_all add: without_owner_columns_def)

lemma obj_deleted_at_stored [simp]: "obj_deleted_at (as_stored x) = obj_deleted_at x"
  by (cases x) (simp_all add: without_owner_columns_def)

lemma as_stored_idem [simp]: "as_stored (as_stored x) = as_stored x"
  by (cases x) (simp_all add: without_owner_columns_def)

lemma index_keys_stored [simp]: "index_keys (as_stored x) = index_keys x"
  by (cases x) (simp_all add: without_owner_columns_def)

lemma objtype_of_value [simp]: "objtype_of (objtype_value t) = Some t"
  by (cases t) (simp_all add: objtype_of_def)

abbreviation type_name :: "obj \<Rightarrow> string" where
  "type_name x \<equiv> objtype_value (obj_type x)"

lemma projections_stored [simp]:
  "compute_public (type_name x) (to_builtins (as_stored x)) = compute_public (type_name x) (to_builtins x)"
  "compute_member (type_name x) (to_builtins (as_stored x)) = compute_member (type_name x) (to_builtins x)"
  "compute_api (type_name x) (to_builtins (as_stored x)) = compute_api (type_name x) (to_builtins x)"
  unfolding dispatch_defs objtype_of_value option.case
  by (cases x; simp only: obj_type.simps object_type.case as_stored.simps to_builtins.simps
        user_projections_stored)+

section \<open>Saving never fails but on an index\<close>

lemma deck_attribution_item:
  "map_of (deck_builtins d) ''attribution'' = Some (JObj (deck_attribution_builtins (d_attribution d)))"
  by (simp add: deck_builtins_def)

lemma attribution_kind_item: "\<exists>k. map_of (deck_attribution_builtins a) ''kind'' = Some k"
  by (simp add: deck_attribution_builtins_def)

lemma published_deck_total:
  "\<exists>q. published_deck (deck_builtins d) = Inr q
     \<and> map_of q ''attribution'' = Some (JObj (deck_attribution_builtins (d_attribution d)))"
  using attribution_kind_item [of "d_attribution d"]
  by (auto simp: published_deck_def json_item_def deck_attribution_item Let_def)

lemma deck_projections_total:
  "\<exists>p. compute_deck_member (deck_builtins d) = Inr p"
  "\<exists>p. compute_deck_api (deck_builtins d) = Inr p"
proof -
  obtain q where q: "published_deck (deck_builtins d) = Inr q"
    and att: "map_of q ''attribution'' = Some (JObj (deck_attribution_builtins (d_attribution d)))"
    using published_deck_total by blast
  have "''attribution'' \<notin> DECK_API_EXCLUDE" by (simp add: DECK_API_EXCLUDE_def API_SYNC_FIELDS_def)
  with q att show "\<exists>p. compute_deck_member (deck_builtins d) = Inr p"
    "\<exists>p. compute_deck_api (deck_builtins d) = Inr p"
    by (simp_all add: compute_deck_member_def compute_deck_api_def json_item_def Let_def)
qed

lemma player_api_total: "map_res player_api (map (\<lambda>v. JObj (f v)) xs) = Inr
    (map (\<lambda>v. JObj (keep_keys (\<lambda>k. k \<notin> PLAYER_API_EXCLUDE) (f v))) xs)"
  by (induction xs) (simp_all add: player_api_def)

lemma tournament_players_item:
  "map_of (tournament_builtins t) ''players'' = Some (JArr (map (\<lambda>v. JObj (player_builtins v)) (t_players t)))"
  by (simp add: tournament_builtins_def)

lemma projections_total:
  "\<exists>p. compute_public (type_name x) (to_builtins x) = Inr p"
  "\<exists>p. compute_member (type_name x) (to_builtins x) = Inr p"
  "\<exists>p. compute_api (type_name x) (to_builtins x) = Inr p"
  "\<exists>p. compute_full (type_name x) (to_builtins x) = Inr p"
  unfolding dispatch_defs objtype_of_value option.case
  by (cases x; simp add: deck_projections_total compute_tournament_api_def
        json_item_def tournament_players_item player_api_total)+

text \<open>One lemma holds all a save does; everything else about it follows.\<close>

lemma save_object_Inr:
  assumes "save_object now x deleted s = Inr (bd, s')"
  obtains pub mem api full where
    "compute_public (type_name x) (to_builtins x) = Inr pub"
    "compute_member (type_name x) (to_builtins x) = Inr mem"
    "compute_api (type_name x) (to_builtins x) = Inr api"
    "compute_full (type_name x) (to_builtins x) = Inr full"
    "\<not> index_conflict x s"
    "s' = s\<lparr>db_objects := put (obj_uid x) (upserted_row now x deleted
         (map_of (db_objects s) (obj_uid x)) (pub, mem, api)) (db_objects s)\<rparr>"
    "bd_pub bd = pub" "bd_mem bd = mem" "bd_full bd = full"
    "bd_uid bd = obj_uid x" "bd_obj_type bd = obj_type x" "bd_modified_at bd = Some now"
    "bd_retracted_levels bd = retracted_levels (map_of (db_objects s) (obj_uid x)) pub mem"
proof -
  obtain pub mem api full where
    "compute_public (type_name x) (to_builtins x) = Inr pub"
    "compute_member (type_name x) (to_builtins x) = Inr mem"
    "compute_api (type_name x) (to_builtins x) = Inr api"
    "compute_full (type_name x) (to_builtins x) = Inr full"
    using projections_total [of x] by auto
  then show thesis using assms
    by (intro that [of pub mem api full]) (auto simp: save_object_def Let_def split: if_splits)
qed

lemma save_object_total:
  "(if index_conflict x s
    then save_object now x deleted s = Inl (UniqueViolation (fst (the (index_keys x))))
    else \<exists>bd s'. save_object now x deleted s = Inr (bd, s'))"
proof -
  obtain a b c d where "compute_public (type_name x) (to_builtins x) = Inr a"
    "compute_member (type_name x) (to_builtins x) = Inr b"
    "compute_api (type_name x) (to_builtins x) = Inr c"
    "compute_full (type_name x) (to_builtins x) = Inr d"
    using projections_total [of x] by auto
  then show ?thesis by (simp add: save_object_def Let_def split: prod.splits)
qed

section \<open>The invariant of the database\<close>

text \<open>
  A row is filed under its object's uid, its projections are those of the object it holds, and no
  two rows share an indexed key.
\<close>

definition row_ok :: "uid \<Rightarrow> row \<Rightarrow> bool" where
  "row_ok k r \<longleftrightarrow> (let x = row_full r in obj_uid x = k \<and> as_stored x = x
     \<and> compute_public (type_name x) (to_builtins x) = Inr (row_public r)
     \<and> compute_member (type_name x) (to_builtins x) = Inr (row_member r)
     \<and> compute_api (type_name x) (to_builtins x) = Inr (row_api r))"

definition unique_index :: "('k \<Rightarrow> 'i option) \<Rightarrow> bool" where
  "unique_index ix \<longleftrightarrow> (\<forall>k j i. ix k = Some i \<longrightarrow> ix j = Some i \<longrightarrow> k = j)"

definition index_of :: "db \<Rightarrow> uid \<Rightarrow> (string \<times> string) option" where
  "index_of s k = Option.bind (map_of (db_objects s) k) (index_keys \<circ> row_full)"

definition rows_ok :: "db \<Rightarrow> bool" where
  "rows_ok s \<longleftrightarrow> distinct_keys (db_objects s)
     \<and> (\<forall>k r. map_of (db_objects s) k = Some r \<longrightarrow> row_ok k r) \<and> unique_index (index_of s)"

definition db_ok :: "db \<Rightarrow> bool" where
  "db_ok s \<longleftrightarrow> rows_ok s \<and> distinct_keys (db_auth s)
     \<and> (\<forall>k a. map_of (db_auth s) k = Some a \<longrightarrow> am_uid a = k) \<and> pending_unique (db_nda s)"

lemma rows_ok_distinct: "rows_ok s \<Longrightarrow> distinct_keys (db_objects s)"
  by (simp add: rows_ok_def)

lemma in_set_map_of: "distinct_keys d \<Longrightarrow> (k, v) \<in> set d \<longleftrightarrow> map_of d k = Some v"
  by (simp add: distinct_keys_def)

lemma unique_index_upd:
  "unique_index ix \<Longrightarrow> (\<And>j. v \<noteq> None \<Longrightarrow> j \<noteq> k \<Longrightarrow> ix j \<noteq> v) \<Longrightarrow> unique_index (ix(k := v))"
  unfolding unique_index_def by (metis fun_upd_apply option.distinct(1))

lemma unique_index_sub:
  "unique_index ix \<Longrightarrow> (\<And>k i. iy k = Some i \<Longrightarrow> ix k = Some i) \<Longrightarrow> unique_index iy"
  unfolding unique_index_def by blast

lemma no_index_conflict:
  assumes "distinct_keys (db_objects s)" and "\<not> index_conflict x s"
    and "index_keys x \<noteq> None" and "j \<noteq> obj_uid x"
  shows "index_of s j \<noteq> index_keys x"
proof
  assume "index_of s j = index_keys x"
  then obtain r where "map_of (db_objects s) j = Some r" "index_keys (row_full r) = index_keys x"
    using assms(3) by (cases "map_of (db_objects s) j") (auto simp: index_of_def)
  then have "(j, r) \<in> set (db_objects s)" "index_keys (row_full r) = index_keys x"
    using in_set_map_of [OF assms(1)] by auto
  with assms(2-) show False by (auto simp: index_conflict_def list_ex_iff)
qed

lemma upserted_row_ok:
  assumes "compute_public (type_name x) (to_builtins x) = Inr (fst p)"
    "compute_member (type_name x) (to_builtins x) = Inr (fst (snd p))"
    "compute_api (type_name x) (to_builtins x) = Inr (snd (snd p))"
  shows "row_ok (obj_uid x) (upserted_row now x deleted prev p)"
  using assms by (simp add: row_ok_def upserted_row_def Let_def split: prod.splits)

lemma upserted_row_simps [simp]:
  "row_full (upserted_row now x deleted prev p) = as_stored x"
  "row_deleted_at (upserted_row now x deleted prev p) = deleted"
  "row_public (upserted_row now x deleted prev p) = fst p"
  "row_member (upserted_row now x deleted prev p) = fst (snd p)"
  "row_api (upserted_row now x deleted prev p) = snd (snd p)"
  "row_calendar_token (upserted_row now x deleted prev p) =
     or_opt (fst (owner_columns x)) (Option.bind prev row_calendar_token)"
  "row_agenda_hidden (upserted_row now x deleted prev p) =
     or_opt (fst (snd (owner_columns x))) (Option.bind prev row_agenda_hidden)"
  "row_agenda_added (upserted_row now x deleted prev p) =
     or_opt (snd (snd (owner_columns x))) (Option.bind prev row_agenda_added)"
  by (simp_all add: upserted_row_def Let_def split: prod.splits)

lemma save_object_rows_ok:
  assumes ok: "rows_ok s" and save: "save_object now x deleted s = Inr (bd, s')"
  shows "rows_ok s'"
proof -
  obtain pub mem api where row: "compute_public (type_name x) (to_builtins x) = Inr pub"
      "compute_member (type_name x) (to_builtins x) = Inr mem"
      "compute_api (type_name x) (to_builtins x) = Inr api"
    and free: "\<not> index_conflict x s"
    and s': "s' = s\<lparr>db_objects := put (obj_uid x) (upserted_row now x deleted
         (map_of (db_objects s) (obj_uid x)) (pub, mem, api)) (db_objects s)\<rparr>"
    by (rule save_object_Inr [OF save])
  have row: "row_ok (obj_uid x) (upserted_row now x deleted prev (pub, mem, api))" for prev
    using upserted_row_ok [of x "(pub, mem, api)"] row by simp
  have "index_of s' = (index_of s)(obj_uid x := index_keys x)"
    by (rule ext) (simp add: index_of_def s')
  moreover have "unique_index (index_of s)" using ok by (simp add: rows_ok_def)
  ultimately have "unique_index (index_of s')"
    using unique_index_upd no_index_conflict [OF rows_ok_distinct [OF ok] free] by metis
  with ok row show ?thesis unfolding rows_ok_def by (simp add: s')
qed

lemma map_of_update_row:
  "map_of (db_objects (update_row u f s)) =
     (\<lambda>k. if k = u then map_option f (map_of (db_objects s) k) else map_of (db_objects s) k)"
proof -
  have "map_of (map (\<lambda>(k, r). (k, if k = u then f r else r)) xs) =
     (\<lambda>k. if k = u then map_option f (map_of xs k) else map_of xs k)" for xs :: "(uid \<times> row) list"
    by (induction xs) (auto simp: fun_eq_iff)
  then show ?thesis by (simp add: update_row_def)
qed

lemma key_set_update_row: "keys (db_objects (update_row u f s)) = keys (db_objects s)"
  by (simp add: update_row_def split_beta comp_def)

lemma update_row_ok:
  assumes "rows_ok s" and "\<And>k r. row_ok k (f r) = row_ok k r" and "\<And>r. row_full (f r) = row_full r"
  shows "rows_ok (update_row u f s)"
proof -
  have "distinct_keys (db_objects (update_row u f s))"
    using assms(1) by (simp add: rows_ok_def distinct_keys_def key_set_update_row)
  moreover have "index_of (update_row u f s) = index_of s"
    by (rule ext) (simp add: index_of_def map_of_update_row assms(3) bind_map_option comp_def)
  then have "unique_index (index_of (update_row u f s))"
    using assms(1) by (simp only: rows_ok_def)
  moreover have "row_ok k r" if "map_of (db_objects (update_row u f s)) k = Some r" for k r
  proof -
    from that obtain q where "map_of (db_objects s) k = Some q" and "r = q \<or> r = f q"
      by (cases "k = u") (auto simp: map_of_update_row)
    then show ?thesis using assms(1,2) unfolding rows_ok_def by metis
  qed
  ultimately show ?thesis unfolding rows_ok_def by blast
qed

lemma drop_assets_rows_ok:
  assumes "rows_ok s"
  shows "rows_ok (drop_assets p s)"
proof -
  have "unique_index (index_of (drop_assets p s))"
  proof (rule unique_index_sub [of "index_of s"])
    show "unique_index (index_of s)" using assms by (simp add: rows_ok_def)
  qed (auto simp: index_of_def drop_assets_def bind_eq_Some_conv split: if_splits)
  with assms show ?thesis unfolding rows_ok_def drop_assets_def by (auto split: if_splits)
qed

section \<open>The interface the other components write through\<close>

text \<open>
  \<open>store x s\<close> stores an object under its own identity and nothing else; \<open>fetch\<close> gives back what
  storing keeps of it.
\<close>

locale object_store =
  fixes fetch :: "'s \<Rightarrow> 'k \<Rightarrow> 'o option"
    and store :: "'o \<Rightarrow> 's \<Rightarrow> 's res"
    and ident :: "'o \<Rightarrow> 'k"
    and stored :: "'o \<Rightarrow> 'o"
  assumes read_write: "store x s = Inr s' \<Longrightarrow> fetch s' = (fetch s)(ident x \<mapsto> stored x)"
begin

lemma read_same: "store x s = Inr s' \<Longrightarrow> fetch s' (ident x) = Some (stored x)"
  by (simp add: read_write)

lemma read_other: "store x s = Inr s' \<Longrightarrow> k \<noteq> ident x \<Longrightarrow> fetch s' k = fetch s k"
  by (simp add: read_write)

lemma read_write_all:
  assumes "fold_res store xs s = Inr s'" and "distinct (map ident xs)"
  shows "fetch s' k = (case find (\<lambda>x. ident x = k) xs of None \<Rightarrow> fetch s k | Some x \<Rightarrow> Some (stored x))"
  using assms
proof (induction xs arbitrary: s)
  case Nil
  then show ?case by simp
next
  case (Cons x xs)
  then obtain u where u: "store x s = Inr u" and rest: "fold_res store xs u = Inr s'"
    by (auto simp: bind_res_Inr)
  have "find (\<lambda>y. ident y = ident x) xs = None"
    using Cons.prems(2) by (auto simp: find_None_iff image_iff)
  with Cons.IH [OF rest] Cons.prems(2) u show ?case
    by (auto simp: read_write split: option.split)
qed

lemma write_all_untouched:
  assumes "fold_res store xs s = Inr s'" and "k \<notin> ident ` set xs"
  shows "fetch s' k = fetch s k"
  using assms by (induction xs arbitrary: s) (auto simp: bind_res_Inr read_other)

end

definition read_object :: "db \<Rightarrow> uid \<Rightarrow> obj option" where
  "read_object s u = map_option row_full (map_of (db_objects s) u)"

definition write_object :: "instant \<Rightarrow> obj \<Rightarrow> db \<Rightarrow> db res" where
  "write_object now x s = bind_res (save_object_from_model now x s) (\<lambda>(_, s'). Inr s')"

lemma read_object_saved:
  assumes "save_object now x deleted s = Inr (bd, s')"
  shows "read_object s' = (read_object s)(obj_uid x \<mapsto> as_stored x)"
  by (rule save_object_Inr [OF assms]) (auto simp: read_object_def)

interpretation objects: object_store read_object "write_object now" obj_uid as_stored
  by unfold_locales
    (auto simp: write_object_def save_object_from_model_def bind_res_Inr read_object_saved)

lemma get_object_full_read: "get_object_full dec s u = Option.bind (read_object s u) dec"
  by (simp add: get_object_full_def read_object_def bind_map_option comp_def)

text \<open>Decoded by type, a save shows to the readers of that type only.\<close>

lemma get_after_save:
  assumes "save_object now x deleted s = Inr (bd, s')"
  shows "get_object_full dec s' u =
    (if u = obj_uid x then dec (as_stored x) else get_object_full dec s u)"
  using read_object_saved [OF assms] by (simp add: get_object_full_read)

lemma save_frame:
  assumes "save_object now x deleted s = Inr (bd, s')"
  shows "db_auth s' = db_auth s" "db_nda s' = db_nda s" "db_ledger s' = db_ledger s"
    "db_transient s' = db_transient s" "db_push s' = db_push s" "db_avatars s' = db_avatars s"
    "db_banners s' = db_banners s" "db_promo_images s' = db_promo_images s" "db_consents s' = db_consents s" "db_tokens s' = db_tokens s"
  by (rule save_object_Inr [OF assms], simp)+

lemma save_object_db_ok:
  "db_ok s \<Longrightarrow> save_object now x deleted s = Inr (bd, s') \<Longrightarrow> db_ok s'"
  using save_object_rows_ok save_frame by (simp add: db_ok_def) metis


text \<open>C4: The stored projections never go stale: rows stay filed under their object's uid,
  agree with the projections of the object they hold, and share no VEKN id and no event code,
  whatever is saved, deleted, purged or set in the owner columns.\<close>

theorem store_keeps_rows_consistent:
  assumes "rows_ok s"
  shows "(case save_object now x deleted s of Inl _ \<Rightarrow> True | Inr (_, s') \<Rightarrow> rows_ok s')
    \<and> rows_ok (delete_object u s) \<and> rows_ok (snd (purge_deleted_objects horizon s))
    \<and> rows_ok (snd (set_agenda_entry u t entry s)) \<and> rows_ok (clear_owner_columns u s)"
proof -
  have "case save_object now x deleted s of Inl _ \<Rightarrow> True | Inr (_, s') \<Rightarrow> rows_ok s'"
    using save_object_rows_ok [OF assms] by (auto split: sum.split)
  moreover have "rows_ok (delete_object u s)" "rows_ok (snd (purge_deleted_objects horizon s))"
    by (simp_all add: delete_object_def purge_deleted_objects_def drop_assets_rows_ok assms)
  moreover have "rows_ok (snd (set_agenda_entry u t entry s))"
    unfolding set_agenda_entry_def Let_def snd_conv
    by (rule update_row_ok [OF assms]) (simp_all add: row_ok_def)
  moreover have "rows_ok (clear_owner_columns u s)"
    unfolding clear_owner_columns_def
    by (rule update_row_ok [OF assms]) (simp_all add: row_ok_def)
  ultimately show ?thesis by blast
qed

definition empty_db :: db where
  "empty_db = \<lparr>db_objects = [], db_auth = [], db_nda = [], db_ledger = [], db_transient = [],
     db_push = [], db_avatars = [], db_banners = [], db_promo_images = [], db_consents = [], db_tokens = []\<rparr>"

lemma empty_db_ok: "db_ok empty_db"
  by (simp add: db_ok_def rows_ok_def empty_db_def unique_index_def index_of_def pending_unique_def)

theorem store_keeps_rows_consistent_witness:
  "case save_object (Instant 2025 1 1 0) (OLeague (new_league ''l'' (Instant 2025 1 1 0) ''L'')) None empty_db
   of Inl _ \<Rightarrow> False | Inr (_, s') \<Rightarrow> rows_ok s'"
  using store_keeps_rows_consistent
    [of empty_db "Instant 2025 1 1 0" "OLeague (new_league ''l'' (Instant 2025 1 1 0) ''L'')" None]
    empty_db_ok
    save_object_total [of "OLeague (new_league ''l'' (Instant 2025 1 1 0) ''L'')" empty_db
      "Instant 2025 1 1 0" None]
  by (auto simp: db_ok_def index_conflict_def)

text \<open>The owner columns outlive every save: a member's calendar token and agenda change only
  when a save brings new ones or they are cleared, and saving any other object leaves them.\<close>

theorem owner_columns_outlive_saves:
  "case save_object now x deleted s of
     Inl _ \<Rightarrow> True
   | Inr (_, s') \<Rightarrow>
       get_calendar_token s' u = (if u = obj_uid x then or_opt (fst (owner_columns x)) (get_calendar_token s u)
                                  else get_calendar_token s u)
       \<and> get_agenda s' u = (if u = obj_uid x
           then (opt_list (or_opt (fst (snd (owner_columns x))) (Some (fst (get_agenda s u)))),
                 opt_list (or_opt (snd (snd (owner_columns x))) (Some (snd (get_agenda s u)))))
           else get_agenda s u)
       \<and> get_calendar_token (clear_owner_columns u s') u = None
       \<and> get_agenda (clear_owner_columns u s') u = ([], [])"
proof (cases "save_object now x deleted s")
  case (Inr p)
  then obtain bd s' where save: "save_object now x deleted s = Inr (bd, s')" by (cases p) auto
  show ?thesis
    by (rule save_object_Inr [OF save])
      (simp add: save get_calendar_token_def get_agenda_def clear_owner_columns_def
        map_of_update_row or_opt_def opt_list_def split: option.split)
qed simp

section \<open>VEKN ids\<close>

lemma is_digit_char: "n < 10 \<Longrightarrow> is_digit (digit_char n)"
  by (simp add: is_digit_def digit_char_def)

lemma digit_char_value: "n < 10 \<Longrightarrow> of_char (digit_char n) - 48 = n"
  by (simp add: digit_char_def)

lemma digits_value_snoc: "digits_value (s @ [c]) = 10 * digits_value s + (of_char c - 48)"
  by (simp add: digits_value_def)

lemma nat_str_ok: "list_all is_digit (nat_str n) \<and> nat_str n \<noteq> [] \<and> digits_value (nat_str n) = n"
proof (induction n rule: nat_str.induct)
  case (1 n)
  then show ?case
    by (subst (1 2 3) nat_str.simps)
      (auto simp: is_digit_char digits_value_snoc digit_char_value, simp add: digits_value_def digit_char_value)
qed

lemma digits_value_bound: "list_all is_digit s \<Longrightarrow> digits_value s < 10 ^ length s"
proof (induction s rule: rev_induct)
  case Nil
  then show ?case by (simp add: digits_value_def)
next
  case (snoc c s)
  have "of_char c - (48 :: nat) \<le> 9" using snoc.prems by (auto simp: is_digit_def)
  then show ?case using snoc by (simp add: digits_value_snoc)
qed

lemma nat_str_length: "n < 10 ^ k \<Longrightarrow> 0 < k \<Longrightarrow> length (nat_str n) \<le> k"
proof (induction n arbitrary: k rule: nat_str.induct)
  case (1 n)
  show ?case
  proof (cases "n < 10")
    case True
    then show ?thesis using 1(3) by (simp add: nat_str.simps [of n])
  next
    case False
    then obtain j where k: "k = Suc j" and j: "0 < j"
      using 1(2,3) by (cases k; cases "k - 1") auto
    have "n div 10 < 10 ^ j" using 1(2) k by (simp add: less_mult_imp_div_less mult.commute)
    from 1(1) [OF False this j] show ?thesis using False k by (simp add: nat_str.simps [of n])
  qed
qed

lemma vekn_number_nat_str: "n < 10 ^ 9 \<Longrightarrow> vekn_number (nat_str n) = Some n"
  using nat_str_ok [of n] nat_str_length [of n 9] by (cases "nat_str n") (auto simp: vekn_number_def)

text \<open>The first gap from \<open>MIN_VEKN_ID\<close> on\<close>

lemma next_vekn_number_gap:
  "MIN_VEKN_ID \<le> next_vekn_number ns \<and> next_vekn_number ns \<notin> set ns
   \<and> (\<forall>n. MIN_VEKN_ID \<le> n \<and> n < next_vekn_number ns \<longrightarrow> n \<in> set ns)"
proof (cases "MIN_VEKN_ID \<in> set ns")
  case False
  then show ?thesis by (auto simp: next_vekn_number_def)
next
  case True
  define A where "A = {n \<in> set ns. MIN_VEKN_ID \<le> n \<and> Suc n \<notin> set ns}"
  have fin: "finite A" by (simp add: A_def)
  have "Max (set ns) \<in> set ns" using True by (intro Max_in) auto
  moreover have "MIN_VEKN_ID \<le> Max (set ns)" using True by simp
  moreover have "Suc (Max (set ns)) \<notin> set ns"
    using Max_ge [of "set ns" "Suc (Max (set ns))"] by (meson Suc_n_not_le_n finite_set)
  ultimately have "Max (set ns) \<in> A" by (simp add: A_def)
  then have m: "Min A \<in> A" using Min_in [OF fin] by blast
  have next_is: "next_vekn_number ns = Suc (Min A)"
    using True by (simp add: next_vekn_number_def A_def)
  have below: "n \<in> set ns" if "MIN_VEKN_ID \<le> n" "n \<le> Min A" for n
    using that
  proof (induction n rule: nat_induct_at_least)
    case base
    then show ?case using True by simp
  next
    case (Suc n)
    then have "n \<notin> A" using Min_le [OF fin, of n] by linarith
    with Suc show ?case by (auto simp: A_def)
  qed
  from m have "MIN_VEKN_ID \<le> Min A" "Suc (Min A) \<notin> set ns" by (simp_all add: A_def)
  with below show ?thesis unfolding next_is less_Suc_eq_le by (meson le_SucI)
qed

text \<open>A new VEKN id is the first free number from 1000000 on: no member holds it, whatever
  leading zeros they carry, and every smaller number from there is taken.  It stays a VEKN number
  as long as fewer than a thousand million are.\<close>

theorem allocate_next_vekn_id_first_gap:
  "case vekn_number (allocate_next_vekn_id s) of
     None \<Rightarrow> {MIN_VEKN_ID..<10 ^ 9} \<subseteq> set (vekn_numbers s)
   | Some n \<Rightarrow> MIN_VEKN_ID \<le> n \<and> n \<notin> set (vekn_numbers s)
       \<and> {MIN_VEKN_ID..<n} \<subseteq> set (vekn_numbers s)
       \<and> Some (allocate_next_vekn_id s) \<notin> u_vekn_id ` set (users s)"
proof -
  define n where "n = next_vekn_number (vekn_numbers s)"
  have gap: "MIN_VEKN_ID \<le> n" "n \<notin> set (vekn_numbers s)" "{MIN_VEKN_ID..<n} \<subseteq> set (vekn_numbers s)"
    using next_vekn_number_gap [of "vekn_numbers s"] by (auto simp: n_def)
  have held: "m \<in> set (vekn_numbers s)"
    if "u \<in> set (users s)" "u_vekn_id u = Some v" "vekn_number v = Some m" for u v m
    using that by (force simp: vekn_numbers_def map_filter_def)
  have len: "vekn_number (nat_str n) = None" if "10 ^ 9 \<le> n"
  proof (rule ccontr)
    assume "vekn_number (nat_str n) \<noteq> None"
    then have "length (nat_str n) \<le> 9" and "list_all is_digit (nat_str n)"
      by (auto simp: vekn_number_def split: if_splits)
    then have "digits_value (nat_str n) < 10 ^ 9"
      using digits_value_bound [of "nat_str n"] power_increasing [of "length (nat_str n)" 9 "10::nat"]
      by linarith
    with that nat_str_ok [of n] show False by simp
  qed
  show ?thesis
  proof (cases "n < 10 ^ 9")
    case True
    then have "vekn_number (allocate_next_vekn_id s) = Some n"
      by (simp add: allocate_next_vekn_id_def n_def [symmetric] vekn_number_nat_str)
    moreover have "u_vekn_id u \<noteq> Some (allocate_next_vekn_id s)" if "u \<in> set (users s)" for u
      using held [OF that] calculation gap(2) by blast
    ultimately show ?thesis using gap by (force simp: image_iff)
  next
    case False
    then have "vekn_number (allocate_next_vekn_id s) = None"
      using len by (simp add: allocate_next_vekn_id_def n_def [symmetric])
    with False gap(3) show ?thesis by auto
  qed
qed

section \<open>Login methods\<close>

lemma find_None_all: "find p xs = None \<longleftrightarrow> (\<forall>x \<in> set xs. \<not> p x)"
  by (auto simp: find_None_iff)

lemma del_filter_snd:
  assumes "\<And>k b. (k, b) \<in> set d \<Longrightarrow> f b = k"
  shows "map snd (del a d) = filter (\<lambda>b. f b \<noteq> a) (map snd d)"
proof -
  have "map snd (filter (\<lambda>kb. fst kb \<noteq> a) d) = map snd (filter (\<lambda>kb. f (snd kb) \<noteq> a) d)"
    using assms by (intro arg_cong [where f = "map snd"] filter_cong) force+
  then show ?thesis by (simp add: del_def case_prod_beta' filter_map comp_def)
qed

lemma auth_uids: "db_ok s \<Longrightarrow> (k, a) \<in> set (db_auth s) \<Longrightarrow> am_uid a = k"
  unfolding db_ok_def using in_set_map_of by metis

lemma auth_methods_after_del:
  assumes "db_ok s"
  shows "get_auth_methods_for_user (s\<lparr>db_auth := del a (db_auth s)\<rparr>) v
    = filter (\<lambda>b. am_uid b \<noteq> a) (get_auth_methods_for_user s v)"
  unfolding get_auth_methods_for_user_def
  using del_filter_snd [of "db_auth s" am_uid a] auth_uids [OF assms]
  by (simp add: filter_filter conj_commute)

text \<open>C13: No member is locked out: removing a login method removes that one and no other, only
  when it is the member's own and another remains; otherwise nothing changes.\<close>

theorem delete_auth_method_keeps_one:
  assumes "db_ok s"
  shows "case delete_auth_method_unless_last u a s of
     ((None, remaining), s') \<Rightarrow> s' = s \<and> remaining = get_auth_methods_for_user s u
   | ((Some m, remaining), s') \<Rightarrow> am_uid m = a \<and> m \<in> set (get_auth_methods_for_user s u)
       \<and> remaining = get_auth_methods_for_user s' u \<and> remaining \<noteq> []
       \<and> get_auth_methods_for_user s' v
           = filter (\<lambda>b. am_uid b \<noteq> a) (get_auth_methods_for_user s v)"
proof (cases "find (\<lambda>m. am_uid m = a) (get_auth_methods_for_user s u)")
  case None
  then show ?thesis by (simp add: delete_auth_method_unless_last_def)
next
  case (Some m)
  then have "am_uid m = a \<and> m \<in> set (get_auth_methods_for_user s u)"
    by (auto simp: find_Some_iff)
  with Some show ?thesis
    by (simp add: delete_auth_method_unless_last_def auth_methods_after_del [OF assms] Let_def)
qed

definition sample_method :: "uid \<Rightarrow> auth_method" where
  "sample_method a = \<lparr>am_uid = a, am_modified = Instant 2025 1 1 0, am_user_uid = ''u'',
     am_method_type = AM_EMAIL, am_identifier = a, am_credential_hash = None, am_verified = True,
     am_created_at = None, am_last_used_at = None, am_sign_count = 0, am_email = None,
     am_username = None\<rparr>"

definition sample_auth_db :: db where
  "sample_auth_db =
     empty_db\<lparr>db_auth := [(''a'', sample_method ''a''), (''b'', sample_method ''b'')]\<rparr>"

lemma sample_methods [simp]:
  "am_uid (sample_method a) = a"
  "get_auth_methods_for_user sample_auth_db ''u'' = [sample_method ''a'', sample_method ''b'']"
  by (simp_all add: sample_method_def get_auth_methods_for_user_def sample_auth_db_def)

theorem delete_auth_method_keeps_one_witness:
  "get_auth_methods_for_user (snd (delete_auth_method_unless_last ''u'' ''a'' sample_auth_db)) ''u''
   = [sample_method ''b'']"
proof -
  have "db_ok sample_auth_db"
    by (simp add: sample_auth_db_def sample_method_def db_ok_def rows_ok_def empty_db_def
          unique_index_def index_of_def pending_unique_def)
  note kept = delete_auth_method_keeps_one [OF this, of "''u''" "''a''" "''u''"]
  have removed: "delete_auth_method_unless_last ''u'' ''a'' sample_auth_db = ((Some (sample_method ''a''),
      [sample_method ''b'']), sample_auth_db\<lparr>db_auth := del ''a'' (db_auth sample_auth_db)\<rparr>)"
    by (simp add: delete_auth_method_unless_last_def)
  from kept [unfolded removed prod.case option.case] show ?thesis
    unfolding removed snd_conv by (elim conjE) (erule sym)
qed

section \<open>NDA requests\<close>

lemma pending_unique_filter: "pending_unique rs \<Longrightarrow> pending_unique (filter p rs)"
  unfolding pending_unique_def filter_filter
  by (subst conj_commute) (simp only: filter_filter [symmetric] distinct_map_filter)

lemma pending_unique_snoc:
  "pending_unique rs \<Longrightarrow> \<not> (nr_status x = NDA_PENDING \<and> list_ex (open_request (nr_user_uid x)) rs)
   \<Longrightarrow> pending_unique (rs @ [x])"
  by (auto simp: pending_unique_def open_request_def list_ex_iff)

lemma pending_unique_sealed:
  assumes "pending_unique rs"
  shows "pending_unique (map (\<lambda>x. if p x then sealed e x else x) rs)"
proof -
  have "filter (\<lambda>x. nr_status x = NDA_PENDING) (map (\<lambda>x. if p x then sealed e x else x) rs)
      = filter (\<lambda>x. nr_status x = NDA_PENDING) (filter (\<lambda>x. \<not> p x) rs)"
    by (induction rs) (auto simp: sealed_def)
  with pending_unique_filter [OF assms] show ?thesis by (simp add: pending_unique_def)
qed

lemma sealed_on_record:
  assumes "fst (seal_nda_signature r u e s)"
  shows "user_has_nda (snd (seal_nda_signature r u e s)) u"
proof -
  obtain x where "x \<in> set (db_nda s)" "nr_uid x = r" "open_request u x"
    using assms by (auto simp: seal_nda_signature_def Let_def list_ex_iff)
  then have "sealed e x \<in> set (db_nda (snd (seal_nda_signature r u e s)))"
    and "nr_user_uid (sealed e x) = u" and "nr_status (sealed e x) = NDA_SIGNED"
    by (force simp: seal_nda_signature_def Let_def sealed_def open_request_def)+
  then show ?thesis unfolding user_has_nda_def list_ex_iff by blast
qed

lemma seal_nothing:
  assumes "\<not> fst (seal_nda_signature r u e s)"
  shows "snd (seal_nda_signature r u e s) = s"
proof -
  have "map (\<lambda>x. if nr_uid x = r \<and> open_request u x then sealed e x else x) (db_nda s) = db_nda s"
    using assms by (intro map_idI) (auto simp: seal_nda_signature_def Let_def list_ex_iff)
  then show ?thesis by (simp add: seal_nda_signature_def Let_def)
qed

text \<open>A member has at most one open NDA request: it is refused exactly when one is open, and
  requesting, signing, uploading and handing records over keep it so; a signature or an upload
  puts an NDA on record.\<close>

theorem nda_one_open_request:
  assumes "pending_unique (db_nda s)"
  shows "pending_unique (db_nda (snd (create_nda_request now r u by s)))
    \<and> fst (create_nda_request now r u by s) = (get_nda_pending s u = None)
    \<and> pending_unique (db_nda (snd (seal_nda_signature r u e s)))
    \<and> (if fst (seal_nda_signature r u e s) then user_has_nda (snd (seal_nda_signature r u e s)) u
       else snd (seal_nda_signature r u e s) = s)
    \<and> pending_unique (db_nda (insert_nda_upload now r u by pdf ctype s))
    \<and> get_nda_pending (insert_nda_upload now r u by pdf ctype s) u = None
    \<and> user_has_nda (insert_nda_upload now r u by pdf ctype s) u
    \<and> (case remap_nda_user u v s of Inl _ \<Rightarrow> True | Inr (_, s') \<Rightarrow> pending_unique (db_nda s'))"
  (is "?create \<and> ?refused \<and> ?seal \<and> ?sealed \<and> ?upload \<and> ?closed \<and> ?onrecord \<and> ?remap")
proof (intro conjI)
  show ?create
    using assms by (auto simp: create_nda_request_def nda_row_def intro!: pending_unique_snoc)
  show ?refused
    by (auto simp: create_nda_request_def get_nda_pending_def list_ex_iff find_None_iff)
  show ?seal
    by (simp add: seal_nda_signature_def Let_def pending_unique_sealed assms)
  show ?sealed using sealed_on_record seal_nothing by simp
  show ?upload
    unfolding insert_nda_upload_def using assms
    by (auto simp: nda_row_def intro!: pending_unique_snoc pending_unique_filter)
  show ?closed
    by (simp add: insert_nda_upload_def get_nda_pending_def find_None_all open_request_def
          nda_row_def ball_Un)
  show ?onrecord
    by (auto simp: insert_nda_upload_def user_has_nda_def nda_row_def)
  show ?remap by (simp add: remap_nda_user_def Let_def)
qed

theorem nda_one_open_request_witness:
  "get_nda_pending (insert_nda_upload (Instant 2025 1 1 0) ''n'' ''u'' ''by'' ''pdf'' ''application/pdf''
     (snd (create_nda_request (Instant 2025 1 1 0) ''r'' ''u'' ''by'' empty_db))) ''u'' = None"
  using nda_one_open_request
    [of "snd (create_nda_request (Instant 2025 1 1 0) ''r'' ''u'' ''by'' empty_db)"]
    nda_one_open_request [of empty_db]
  by (simp add: empty_db_def pending_unique_def)

section \<open>Transient tokens and the agenda\<close>

lemma transient_token_read:
  "get_transient_token now (store_transient_token k d expires s) j =
     (if j = k then (if now < expires then Some d else None) else get_transient_token now s j)"
  "get_transient_token now (delete_transient_token k s) j =
     (if j = k then None else get_transient_token now s j)"
  by (simp_all add: get_transient_token_def store_transient_token_def delete_transient_token_def)

lemma update_row_absent: "map_of (db_objects s) u = None \<Longrightarrow> update_row u f s = s"
proof -
  assume "map_of (db_objects s) u = None"
  then have "map (\<lambda>(k, r). (k, if k = u then f r else r)) (db_objects s) = db_objects s"
    by (intro map_idI) (auto simp: map_of_None_keys key_set_def image_iff)
  then show ?thesis by (simp add: update_row_def)
qed

text \<open>The agenda override of an event is one of hidden, added or neither: setting it moves
  the event there, leaves every other event where it was, and setting it again changes nothing.\<close>

theorem agenda_entry_exclusive:
  "case map_of (db_objects s) u of
     None \<Rightarrow> snd (set_agenda_entry u t entry s) = s
   | Some r \<Rightarrow>
      (let (hid, add) = fst (set_agenda_entry u t entry s) in
         (hid, add) = get_agenda (snd (set_agenda_entry u t entry s)) u
         \<and> (t \<in> set hid) = (entry = Some AGENDA_HIDDEN) \<and> (t \<in> set add) = (entry = Some AGENDA_ADDED)
         \<and> set hid - {t} = set (fst (get_agenda s u)) - {t}
         \<and> set add - {t} = set (snd (get_agenda s u)) - {t}
         \<and> fst (set_agenda_entry u t entry (snd (set_agenda_entry u t entry s))) = (hid, add))"
proof (cases "map_of (db_objects s) u")
  case None
  then show ?thesis by (simp add: set_agenda_entry_def Let_def update_row_absent)
next
  case (Some r)
  obtain e where "entry = None \<or> entry = Some e \<and> e = AGENDA_HIDDEN \<or> entry = Some e \<and> e = AGENDA_ADDED"
    by (cases entry; cases "the entry") auto
  with Some show ?thesis
    by (elim disjE conjE)
      (simp_all add: set_agenda_entry_def get_agenda_def map_of_update_row opt_list_def Let_def
        insert_Diff_if Un_Diff)
qed

end
