(* ===== verification/Broadcast.thy ===== *)
theory Broadcast
  imports Store_Laws
begin

text \<open>
  \<open>backend/src/broadcast.py\<close>: the per-connection coalescing queue and every broadcast over the
  connection set.  A frame is kept as the value its text encodes.  \<open>_sse_connections\<close> is a list
  (the order of a Python set is arbitrary; no result here depends on it) next to the list of
  connections taken out of it, whose generators end at their \<open>closed\<close> flag.
\<close>

section \<open>The queue\<close>

datatype qkey = SeqKey nat | ObjKey object_type uid | NamedKey string

record 'm coalescing_queue =
  q_maxsize :: nat
  q_items :: "(qkey \<times> 'm) list"
  q_event :: bool
  q_seq :: nat

definition SSE_QUEUE_MAXSIZE :: nat where
  "SSE_QUEUE_MAXSIZE = 30"

definition new_queue :: "'m coalescing_queue" where
  "new_queue = \<lparr>q_maxsize = SSE_QUEUE_MAXSIZE, q_items = [], q_event = False, q_seq = 0\<rparr>"

definition put_nowait :: "'m \<Rightarrow> qkey option \<Rightarrow> ('m coalescing_queue, unit) prog" where
  "put_nowait msg okey q =
     (let (key, q) = (case okey of
          None \<Rightarrow> (SeqKey (q_seq q), q\<lparr>q_seq := q_seq q + 1\<rparr>)
        | Some k \<Rightarrow> (k, q))
      in if key \<notin> key_set (q_items q) \<and> q_maxsize q \<le> length (q_items q)
         then (Inl QueueFull, q)
         else (Inr (), q\<lparr>q_items := put key msg (q_items q), q_event := True\<rparr>))"

definition get_nowait :: "('m coalescing_queue, 'm) prog" where
  "get_nowait q = (case q_items q of
     [] \<Rightarrow> (Inl QueueEmpty, q)
   | (k, msg) # rest \<Rightarrow> (Inr msg, q\<lparr>q_items := rest\<rparr>))"

text \<open>One turn of the consumer: \<open>None\<close> while it waits for the event\<close>

definition get_turn :: "'m coalescing_queue \<Rightarrow> 'm option \<times> 'm coalescing_queue" where
  "get_turn q = (case q_items q of
     [] \<Rightarrow> (None, q\<lparr>q_event := False\<rparr>)
   | (k, msg) # rest \<Rightarrow> (Some msg, q\<lparr>q_items := rest\<rparr>))"

definition queue_empty :: "'m coalescing_queue \<Rightarrow> bool" where
  "queue_empty q \<longleftrightarrow> q_items q = []"

section \<open>Connections and frames\<close>

datatype frame =
    ObjectFrame object_type dict "instant option" "string option"
  | JudgeCallFrame uid int "string option" int string
  | ResyncFrame
  | WakeFrame

record sse_connection =
  c_queue :: "frame coalescing_queue"
  c_user :: "user option"
  c_closed :: bool
  c_tournament_uid :: "uid option"
  c_device_id :: "string option"
  c_sent_participant_uids :: "uid list"
  c_needs_participant_refresh :: bool

definition new_connection :: "user option \<Rightarrow> sse_connection" where
  "new_connection u = \<lparr>c_queue = new_queue, c_user = u, c_closed = False, c_tournament_uid = None,
     c_device_id = None, c_sent_participant_uids = [], c_needs_participant_refresh = False\<rparr>"

record sse =
  sse_connections :: "sse_connection list"
  sse_dropped :: "sse_connection list"

section \<open>Who sees what\<close>

definition deck_org_uids :: "bool \<Rightarrow> tournament_state option \<Rightarrow> uid list \<Rightarrow> uid list" where
  "deck_org_uids private st orgs = (if private \<and> st = Some T_FINISHED then [] else orgs)"

definition entitled_level ::
    "user option \<Rightarrow> object_type \<Rightarrow> uid \<Rightarrow> string option \<Rightarrow> uid list option \<Rightarrow> uid option \<Rightarrow> data_level"
where
  "entitled_level viewer ty u country org_uids obj_user = (case viewer of
     None \<Rightarrow> LV_PUBLIC
   | Some v \<Rightarrow>
      if IC \<in> set (u_roles v) then LV_FULL
      else if ty = PROMO \<and> NC \<in> set (u_roles v) then LV_FULL
      else if NC \<in> set (u_roles v) \<and> truthy_str (u_country v) \<and> truthy_str country
              \<and> u_country v = country then LV_FULL
      else if uid v \<in> set (opt_list org_uids) then LV_FULL
      else if truthy_str (u_vekn_id v) then
        (if ty = USER \<and> u = uid v then LV_FULL
         else if ty = DECK \<and> obj_user = Some (uid v) then LV_FULL
         else LV_MEMBER)
      else LV_PUBLIC)"

definition scope_matches :: "sse_connection \<Rightarrow> broadcast_data \<Rightarrow> bool" where
  "scope_matches c bd = (case c_tournament_uid c of
     None \<Rightarrow> True
   | Some t \<Rightarrow>
       if bd_obj_type bd = TOURNAMENT then bd_uid bd = t
       else if bd_obj_type bd = SANCTION then bd_tournament_uid bd = Some t
       else False)"

definition bd_level :: "user option \<Rightarrow> broadcast_data \<Rightarrow> data_level" where
  "bd_level viewer bd = entitled_level viewer (bd_obj_type bd) (bd_uid bd) (bd_country bd)
     (bd_org_uids bd) (bd_obj_user_uid bd)"

section \<open>Broadcasts\<close>

text \<open>
  One pass over the connection set: each connection comes back with whether it overflowed; those
  leave the set afterwards.
\<close>

definition sweep :: "(sse_connection \<Rightarrow> sse_connection \<times> bool) \<Rightarrow> sse \<Rightarrow> sse" where
  "sweep f s = (let rs = map f (sse_connections s)
     in \<lparr>sse_connections = map fst (filter (\<lambda>r. \<not> snd r) rs),
         sse_dropped = sse_dropped s @ map fst (filter snd rs)\<rparr>)"

definition offer :: "frame \<Rightarrow> qkey option \<Rightarrow> sse_connection \<Rightarrow> sse_connection \<times> bool" where
  "offer msg key c = (case put_nowait msg key (c_queue c) of
     (Inr _, q) \<Rightarrow> (c\<lparr>c_queue := q\<rparr>, False)
   | (Inl _, q) \<Rightarrow> (c\<lparr>c_queue := q, c_closed := True\<rparr>, True))"

definition wake_sse_connections :: "sse \<Rightarrow> sse" where
  "wake_sse_connections s = s\<lparr>sse_connections := map (\<lambda>c.
     c\<lparr>c_queue := snd (put_nowait WakeFrame (Some (NamedKey ''__wake__'')) (c_queue c))\<rparr>)
     (sse_connections s)\<rparr>"

definition tombstone :: "object_type \<Rightarrow> uid \<Rightarrow> instant \<Rightarrow> instant option \<Rightarrow> string option \<Rightarrow> frame" where
  "tombstone ty u gone ts av = ObjectFrame ty [(''uid'', JStr u), (''deleted_at'', JTime gone)] ts av"

definition msg_by_level :: "instant \<Rightarrow> broadcast_data \<Rightarrow> data_level \<Rightarrow> frame option" where
  "msg_by_level now bd level =
     (let make = (\<lambda>d. ObjectFrame (bd_obj_type bd) d (bd_modified_at bd) None);
          gone = (case bd_modified_at bd of None \<Rightarrow> now | Some m \<Rightarrow> m)
      in if level \<in> set (bd_retracted_levels bd)
         then Some (tombstone (bd_obj_type bd) (bd_uid bd) gone (bd_modified_at bd) None)
         else case level of
           LV_PUBLIC \<Rightarrow> map_option make (bd_pub bd)
         | LV_MEMBER \<Rightarrow> map_option make (bd_mem bd)
         | LV_FULL \<Rightarrow> Some (make (bd_full bd)))"

definition deliver ::
    "instant \<Rightarrow> broadcast_data \<Rightarrow> string option \<Rightarrow> sse_connection \<Rightarrow> sse_connection \<times> bool" where
  "deliver now bd exclude_device_id c =
     (if exclude_device_id \<noteq> None \<and> c_device_id c = exclude_device_id then (c, False)
      else if \<not> scope_matches c bd then (c, False)
      else case msg_by_level now bd (bd_level (c_user c) bd) of
          None \<Rightarrow> (c, False)
        | Some msg \<Rightarrow>
            let (c', full) = offer msg (Some (ObjKey (bd_obj_type bd) (bd_uid bd))) c
            in if full then (c', True)
               else (if c_tournament_uid c \<noteq> None \<and> bd_obj_type bd = TOURNAMENT
                     then c'\<lparr>c_needs_participant_refresh := True\<rparr> else c', False))"

definition broadcast_precomputed :: "instant \<Rightarrow> broadcast_data \<Rightarrow> string option \<Rightarrow> sse \<Rightarrow> sse" where
  "broadcast_precomputed now bd exclude_device_id = sweep (deliver now bd exclude_device_id)"

definition broadcast_judge_call ::
    "uid \<Rightarrow> int \<Rightarrow> string option \<Rightarrow> int \<Rightarrow> string \<Rightarrow> uid list option \<Rightarrow> sse \<Rightarrow> sse" where
  "broadcast_judge_call t tbl label num player organizer_uids = sweep (\<lambda>c. case c_user c of
     None \<Rightarrow> (c, False)
   | Some u \<Rightarrow>
       if c_tournament_uid c \<noteq> None \<and> c_tournament_uid c \<noteq> Some t then (c, False)
       else if uid u \<in> set (opt_list organizer_uids)
         then offer (JudgeCallFrame t tbl label num player) None c
         else (c, False))"

text \<open>An overflow closes the connection but leaves it in the set.\<close>

definition broadcast_resync :: "uid \<Rightarrow> sse \<Rightarrow> sse" where
  "broadcast_resync u s = s\<lparr>sse_connections := map (\<lambda>c.
     if map_option uid (c_user c) = Some u
     then fst (offer ResyncFrame (Some (NamedKey ''__resync__'')) c) else c) (sse_connections s)\<rparr>"

definition projector :: "data_level \<Rightarrow> string \<Rightarrow> dict \<Rightarrow> dict option res" where
  "projector level ty d = (case level of
     LV_PUBLIC \<Rightarrow> compute_public ty d
   | LV_MEMBER \<Rightarrow> compute_member ty d
   | LV_FULL \<Rightarrow> bind_res (compute_full ty d) (\<lambda>p. Inr (Some p)))"

record personal =
  pn_obj_type :: object_type
  pn_uid :: uid
  pn_full_dict :: dict
  pn_country :: "string option"
  pn_org_uids :: "uid list option"
  pn_obj_user_uid :: "uid option"
  pn_modified_at :: "instant option"
  pn_access_version :: "string option"

definition personal_step ::
    "instant \<Rightarrow> uid \<Rightarrow> personal \<Rightarrow> sse_connection \<Rightarrow> (sse_connection \<times> bool) res" where
  "personal_step now user_uid p c =
     (if c_tournament_uid c \<noteq> None \<or> map_option uid (c_user c) \<noteq> Some user_uid then Inr (c, False)
      else
        let level = entitled_level (c_user c) (pn_obj_type p) (pn_uid p) (pn_country p)
                      (pn_org_uids p) (pn_obj_user_uid p);
            av = (if truthy_str (pn_access_version p) then pn_access_version p else None)
        in bind_res (projector level (objtype_value (pn_obj_type p)) (pn_full_dict p)) (\<lambda>proj.
           let msg = (case proj of
                 None \<Rightarrow> tombstone (pn_obj_type p) (pn_uid p)
                   (case pn_modified_at p of None \<Rightarrow> now | Some m \<Rightarrow> m) (pn_modified_at p) av
               | Some d \<Rightarrow> ObjectFrame (pn_obj_type p) d (pn_modified_at p) av)
           in Inr (offer msg (Some (ObjKey (pn_obj_type p) (pn_uid p))) c)))"

text \<open>A projection that raises leaves the loop: connections behind it get nothing, and nothing is
  taken out of the set.\<close>

fun visit :: "('c \<Rightarrow> ('c \<times> bool) res) \<Rightarrow> 'c list \<Rightarrow> unit res \<times> ('c \<times> bool) list" where
  "visit f [] = (Inr (), [])"
| "visit f (c # cs) = (case f c of
     Inl e \<Rightarrow> (Inl e, map (\<lambda>c. (c, False)) (c # cs))
   | Inr r \<Rightarrow> let (out, rs) = visit f cs in (out, r # rs))"

definition broadcast_personal :: "instant \<Rightarrow> uid \<Rightarrow> personal \<Rightarrow> (sse, unit) prog" where
  "broadcast_personal now user_uid p s =
     (case visit (personal_step now user_uid p) (sse_connections s) of
        (Inl e, rs) \<Rightarrow> (Inl e, s\<lparr>sse_connections := map fst rs\<rparr>)
      | (Inr _, rs) \<Rightarrow>
          (Inr (), \<lparr>sse_connections = map fst (filter (\<lambda>r. \<not> snd r) rs),
                    sse_dropped = sse_dropped s @ map fst (filter snd rs)\<rparr>))"

section \<open>The queue keeps its promises\<close>

text \<open>
  The contract of a bounded queue that keeps one frame a key: \<open>items\<close> is its content, oldest
  first; an offer under a pending key replaces in place, any other goes last or is refused; the
  oldest leaves first.
\<close>

locale keyed_queue =
  fixes offer_msg :: "'k \<Rightarrow> 'm \<Rightarrow> 'q \<Rightarrow> 'q option"
    and take_msg :: "'q \<Rightarrow> ('m \<times> 'q) option"
    and items :: "'q \<Rightarrow> ('k \<times> 'm) list"
    and bound :: "'q \<Rightarrow> nat"
    and inv :: "'q \<Rightarrow> bool"
  assumes distinct_items: "inv q \<Longrightarrow> distinct_keys (items q)"
    and within_bound: "inv q \<Longrightarrow> length (items q) \<le> bound q"
    and offer_refused: "offer_msg k m q = None \<longleftrightarrow> k \<notin> key_set (items q) \<and> bound q \<le> length (items q)"
    and offer_items: "offer_msg k m q = Some q' \<Longrightarrow> items q' = put k m (items q) \<and> bound q' = bound q"
    and offer_inv: "inv q \<Longrightarrow> offer_msg k m q = Some q' \<Longrightarrow> inv q'"
    and take_empty: "take_msg q = None \<longleftrightarrow> items q = []"
    and take_oldest: "take_msg q = Some (m, q') \<Longrightarrow> \<exists>k. items q = (k, m) # items q' \<and> bound q' = bound q"
    and take_inv: "inv q \<Longrightarrow> take_msg q = Some (m, q') \<Longrightarrow> inv q'"
begin

text \<open>Everything the consumer will read, in order, with fuel for the loop\<close>

fun drain :: "nat \<Rightarrow> 'q \<Rightarrow> 'm list" where
  "drain 0 q = []"
| "drain (Suc n) q = (case take_msg q of None \<Rightarrow> [] | Some (m, q') \<Rightarrow> m # drain n q')"

lemma drain_items: "length (items q) \<le> n \<Longrightarrow> drain n q = map snd (items q)"
proof (induction n arbitrary: q)
  case 0
  then show ?case by simp
next
  case (Suc n)
  show ?case
  proof (cases "take_msg q")
    case None
    then show ?thesis using take_empty [of q] by simp
  next
    case (Some p)
    obtain m q' where p: "p = (m, q')" by (cases p)
    with Some take_oldest obtain k where "items q = (k, m) # items q'" by blast
    with Suc Some p show ?thesis by simp
  qed
qed

lemma offer_all_same_key:
  assumes "inv q" and "offer_msg k m q = Some q1" and "offer_msg k m' q1 = Some q2"
  shows "items q2 = put k m' (items q)"
proof -
  have "put k m' (put k m xs) = put k m' xs" for xs
    by (induction k m xs rule: put.induct) auto
  with offer_items [OF assms(2)] offer_items [OF assms(3)] show ?thesis by simp
qed

lemma pending_never_refused: "k \<in> key_set (items q) \<Longrightarrow> offer_msg k m q \<noteq> None"
  using offer_refused by blast

lemma latest_frame_delivered:
  assumes "offer_msg k m q = Some q'"
  shows "map_of (items q') k = Some m" and "j \<noteq> k \<Longrightarrow> map_of (items q') j = map_of (items q) j"
  using offer_items [OF assms] by simp_all

end

definition offer_msg :: "qkey \<Rightarrow> 'm \<Rightarrow> 'm coalescing_queue \<Rightarrow> 'm coalescing_queue option" where
  "offer_msg k m q = (case put_nowait m (Some k) q of (Inr _, q') \<Rightarrow> Some q' | (Inl _, _) \<Rightarrow> None)"

definition take_msg :: "'m coalescing_queue \<Rightarrow> ('m \<times> 'm coalescing_queue) option" where
  "take_msg q = (case get_nowait q of (Inr m, q') \<Rightarrow> Some (m, q') | (Inl _, _) \<Rightarrow> None)"

definition queue_ok :: "'m coalescing_queue \<Rightarrow> bool" where
  "queue_ok q \<longleftrightarrow> distinct_keys (q_items q) \<and> length (q_items q) \<le> q_maxsize q"

lemmas queue_defs = offer_msg_def take_msg_def put_nowait_def get_nowait_def queue_ok_def

interpretation sse_queue: keyed_queue offer_msg take_msg q_items q_maxsize queue_ok
proof unfold_locales
  fix q q' :: "'m coalescing_queue" and k m
  show "offer_msg k m q = None \<longleftrightarrow> k \<notin> key_set (q_items q) \<and> q_maxsize q \<le> length (q_items q)"
    by (simp add: queue_defs)
  show "offer_msg k m q = Some q' \<Longrightarrow> q_items q' = put k m (q_items q) \<and> q_maxsize q' = q_maxsize q"
    by (auto simp: queue_defs split: if_splits)
  show "queue_ok q \<Longrightarrow> offer_msg k m q = Some q' \<Longrightarrow> queue_ok q'"
    by (auto simp: queue_defs length_put split: if_splits)
  show "take_msg q = None \<longleftrightarrow> q_items q = []"
    by (simp add: queue_defs split: list.split)
  show "take_msg q = Some (m, q') \<Longrightarrow> \<exists>k. q_items q = (k, m) # q_items q' \<and> q_maxsize q' = q_maxsize q"
    by (auto simp: queue_defs split: list.splits)
  show "queue_ok q \<Longrightarrow> take_msg q = Some (m, q') \<Longrightarrow> queue_ok q'"
    by (auto simp: queue_defs split: list.splits)
qed (auto simp: queue_ok_def)

text \<open>The sequence numbers of unkeyed frames are fresh, so that those never coalesce.\<close>

definition seq_fresh :: "'m coalescing_queue \<Rightarrow> bool" where
  "seq_fresh q \<longleftrightarrow> (\<forall>n. SeqKey n \<in> key_set (q_items q) \<longrightarrow> n < q_seq q)"

lemma seq_fresh_put:
  "seq_fresh q \<Longrightarrow> (\<And>n. okey \<noteq> Some (SeqKey n)) \<Longrightarrow> seq_fresh (snd (put_nowait m okey q))"
  by (cases okey) (force simp: seq_fresh_def put_nowait_def less_Suc_eq)+

lemma put_unkeyed:
  assumes "seq_fresh q"
  shows "put_nowait m None q = (if q_maxsize q \<le> length (q_items q)
    then (Inl QueueFull, q\<lparr>q_seq := q_seq q + 1\<rparr>)
    else (Inr (), q\<lparr>q_seq := q_seq q + 1, q_items := q_items q @ [(SeqKey (q_seq q), m)], q_event := True\<rparr>))"
proof -
  have "SeqKey (q_seq q) \<notin> key_set (q_items q)" using assms by (auto simp: seq_fresh_def)
  then show ?thesis by (simp add: put_nowait_def keys_put_new)
qed

text \<open>C12: The SSE queue coalesces: a frame offered under a key that is pending replaces that
  frame where it waits and is never refused; any other is refused exactly when the bound is
  reached, and else waits last; draining the queue yields every frame in the order of its keys'
  arrival, each key's latest.\<close>

theorem coalescing_queue_contract:
  assumes "queue_ok q"
  shows "(case put_nowait m (Some k) q of
      (Inl e, q') \<Rightarrow> e = QueueFull \<and> q' = q \<and> k \<notin> key_set (q_items q) \<and> length (q_items q) = q_maxsize q
    | (Inr _, q') \<Rightarrow> queue_ok q' \<and> q_items q' = put k m (q_items q)
        \<and> sse_queue.drain (q_maxsize q) q' = map snd (put k m (q_items q)))"
proof (cases "offer_msg k m q")
  case None
  with assms show ?thesis
    by (auto simp: sse_queue.offer_refused put_nowait_def queue_ok_def)
next
  case (Some q')
  then have put: "put_nowait m (Some k) q = (Inr (), q')"
    by (auto simp: offer_msg_def split: prod.splits sum.splits)
  have ok: "queue_ok q'" and items: "q_items q' = put k m (q_items q)" "q_maxsize q' = q_maxsize q"
    using sse_queue.offer_inv [OF assms Some] sse_queue.offer_items [OF Some] by auto
  then have "sse_queue.drain (q_maxsize q) q' = map snd (q_items q')"
    by (intro sse_queue.drain_items) (simp add: queue_ok_def)
  with put ok items show ?thesis by simp
qed

theorem coalescing_queue_contract_witness:
  "sse_queue.drain 30 (snd (put_nowait ''new'' (Some (NamedKey ''k''))
     (snd (put_nowait ''old'' (Some (NamedKey ''k'')) new_queue)))) = [''new'']"
  using coalescing_queue_contract
    [where q = "snd (put_nowait ''old'' (Some (NamedKey ''k'')) new_queue)" and m = "''new''"
      and k = "NamedKey ''k''"]
  by (simp add: put_nowait_def new_queue_def SSE_QUEUE_MAXSIZE_def queue_ok_def)

section \<open>Entitlement\<close>

fun level_rank :: "data_level \<Rightarrow> nat" where
  "level_rank LV_PUBLIC = 0"
| "level_rank LV_MEMBER = 1"
| "level_rank LV_FULL = 2"

lemma entitled_level_at_least_base:
  "level_rank (base_data_level viewer) \<le> level_rank (entitled_level viewer ty u country orgs owner)"
  by (auto simp: entitled_level_def base_data_level_def split: option.split)

lemma overlay_roles_IC:
  "IC \<in> set (u_roles v) \<longleftrightarrow> role_value IC \<in> set (fst (snd (access_inputs (Some v))))"
  "NC \<in> set (u_roles v) \<longleftrightarrow> role_value NC \<in> set (fst (snd (access_inputs (Some v))))"
  by (auto simp: access_inputs_def OVERLAY_ROLES_def)

lemma access_inputs_country:
  "NC \<in> set (u_roles v) \<Longrightarrow> snd (snd (access_inputs (Some v))) = u_country v"
  by (simp add: access_inputs_def)

lemma access_inputs_level: "fst (access_inputs (Some v)) = base_data_level (Some v)"
  by (simp add: access_inputs_def)

text \<open>The access fingerprint is sound: two states of one member with the same fingerprint
  inputs are entitled to the same level of every object, so a client may keep its cache exactly
  while the fingerprint stands.\<close>

theorem fingerprint_determines_entitlement:
  assumes "access_inputs (Some v) = access_inputs (Some w)" and "uid v = uid w"
  shows "entitled_level (Some v) ty u country orgs owner = entitled_level (Some w) ty u country orgs owner"
proof -
  have IC: "IC \<in> set (u_roles v) \<longleftrightarrow> IC \<in> set (u_roles w)"
    and NC: "NC \<in> set (u_roles v) \<longleftrightarrow> NC \<in> set (u_roles w)"
    using assms(1) overlay_roles_IC by simp_all
  have country: "u_country v = u_country w" if "NC \<in> set (u_roles v)"
    using assms(1) access_inputs_country that NC by metis
  have "base_data_level (Some v) = base_data_level (Some w)"
    using assms(1) access_inputs_level by metis
  then have member: "truthy_str (u_vekn_id v) \<longleftrightarrow> truthy_str (u_vekn_id w)" if "IC \<notin> set (u_roles v)"
    using that IC by (simp add: base_data_level_def split: if_splits)
  show ?thesis
    by (cases "IC \<in> set (u_roles v)"; cases "NC \<in> set (u_roles v)")
      (simp_all add: entitled_level_def IC [symmetric] NC [symmetric] country member assms(2))
qed

theorem fingerprint_determines_entitlement_witness:
  "entitled_level (Some ((new_user ''u'' (Instant 2025 1 1 0) ''Ann'')\<lparr>u_roles := [NC, JUDGE], u_country := Some ''FR''\<rparr>))
     USER ''x'' (Some ''FR'') None None
   = entitled_level (Some ((new_user ''u'' (Instant 2025 2 2 0) ''Anna'')\<lparr>u_roles := [NC], u_country := Some ''FR''\<rparr>))
     USER ''x'' (Some ''FR'') None None"
  by (rule fingerprint_determines_entitlement)
    (simp_all add: access_inputs_def base_data_level_def OVERLAY_ROLES_def new_user_def)

section \<open>What a broadcast puts in a queue\<close>

definition frames :: "sse_connection \<Rightarrow> frame set" where
  "frames c = snd ` set (q_items (c_queue c))"

lemma set_put_values: "p \<in> set (put k v d) \<Longrightarrow> p \<in> set d \<or> snd p = v"
  by (induction k v d rule: put.induct) (auto split: if_splits)

lemma put_nowait_frames:
  "snd ` set (q_items (snd (put_nowait m key q))) \<subseteq> insert m (snd ` set (q_items q))"
proof -
  have "snd ` set (put k m (q_items q)) \<subseteq> insert m (snd ` set (q_items q))" for k
    using set_put_values by fastforce
  then show ?thesis by (auto simp: put_nowait_def split: option.splits)
qed

lemma offer_queue: "c_queue (fst (offer m key c)) = snd (put_nowait m key (c_queue c))"
  by (simp add: offer_def split: prod.split sum.split)

lemma offer_keeps:
  "c_user (fst (offer m key c)) = c_user c"
  "c_tournament_uid (fst (offer m key c)) = c_tournament_uid c"
  "c_device_id (fst (offer m key c)) = c_device_id c"
  by (simp_all add: offer_def split: prod.split sum.split)

lemma offer_frames: "frames (fst (offer m key c)) \<subseteq> insert m (frames c)"
  unfolding frames_def offer_queue by (rule put_nowait_frames)

definition same_viewer :: "sse_connection \<Rightarrow> sse_connection \<Rightarrow> bool" where
  "same_viewer c c' \<longleftrightarrow> c_user c' = c_user c \<and> c_tournament_uid c' = c_tournament_uid c
     \<and> c_device_id c' = c_device_id c"

text \<open>A delivery leaves the connection alone or offers it the frame of its viewer's level.\<close>

lemma deliver_cases:
  obtains "deliver now bd ex c = (c, False)"
  | m where "msg_by_level now bd (bd_level (c_user c) bd) = Some m"
    and "snd (deliver now bd ex c) = snd (offer m (Some (ObjKey (bd_obj_type bd) (bd_uid bd))) c)"
    and "fst (deliver now bd ex c) = fst (offer m (Some (ObjKey (bd_obj_type bd) (bd_uid bd))) c)
      \<or> fst (deliver now bd ex c)
        = (fst (offer m (Some (ObjKey (bd_obj_type bd) (bd_uid bd))) c))\<lparr>c_needs_participant_refresh := True\<rparr>"
proof (cases "(ex \<noteq> None \<and> c_device_id c = ex) \<or> \<not> scope_matches c bd
    \<or> msg_by_level now bd (bd_level (c_user c) bd) = None")
  case True
  then show thesis by (intro that(1)) (auto simp: deliver_def)
next
  case False
  then obtain m where m: "msg_by_level now bd (bd_level (c_user c) bd) = Some m" by auto
  show thesis
  proof (rule that(2) [OF m])
    have open_to: "(ex \<noteq> None \<and> c_device_id c = ex) = False" and scope: "scope_matches c bd"
      using False by auto
    have "deliver now bd ex c = (let (c', full) = offer m (Some (ObjKey (bd_obj_type bd) (bd_uid bd))) c
        in if full then (c', True)
           else (if c_tournament_uid c \<noteq> None \<and> bd_obj_type bd = TOURNAMENT
                 then c'\<lparr>c_needs_participant_refresh := True\<rparr> else c', False))"
      unfolding deliver_def open_to by (simp add: m scope)
    then show "snd (deliver now bd ex c) = snd (offer m (Some (ObjKey (bd_obj_type bd) (bd_uid bd))) c)"
      and "fst (deliver now bd ex c) = fst (offer m (Some (ObjKey (bd_obj_type bd) (bd_uid bd))) c)
        \<or> fst (deliver now bd ex c)
          = (fst (offer m (Some (ObjKey (bd_obj_type bd) (bd_uid bd))) c))\<lparr>c_needs_participant_refresh := True\<rparr>"
      by (simp_all split: prod.split)
  qed
qed

lemma deliver_frames:
  "same_viewer c (fst (deliver now bd ex c))
   \<and> frames (fst (deliver now bd ex c)) \<subseteq> frames c \<union> set_option (msg_by_level now bd (bd_level (c_user c) bd))"
proof (cases rule: deliver_cases [of now bd ex c])
  case 1
  then show ?thesis by (simp add: same_viewer_def)
next
  case (2 m)
  have "frames (d\<lparr>c_needs_participant_refresh := True\<rparr>) = frames d" for d
    by (simp add: frames_def)
  with 2 offer_frames [of m] offer_keeps show ?thesis
    by (elim disjE) (simp_all add: same_viewer_def)
qed

lemma sweep_members:
  assumes "c' \<in> set (sse_connections (sweep f s)) \<union> set (sse_dropped (sweep f s)) - set (sse_dropped s)"
  obtains c where "c \<in> set (sse_connections s)" and "c' = fst (f c)"
  using assms by (auto simp: sweep_def Let_def)

text \<open>A frame an object's viewers at \<open>level\<close> may get after a save: its projection or a tombstone\<close>

definition frame_at :: "data_level \<Rightarrow> obj \<Rightarrow> frame \<Rightarrow> bool" where
  "frame_at level x fr \<longleftrightarrow> (\<exists>ts gone. fr = tombstone (obj_type x) (obj_uid x) gone ts None)
     \<or> (\<exists>d ts. fr = ObjectFrame (obj_type x) d ts None
          \<and> projector level (type_name x) (to_builtins x) = Inr (Some d))"

lemma saved_msg_by_level:
  assumes save: "save_object now x deleted s = Inr (bd, s')"
    and msg: "msg_by_level t bd level = Some m"
  shows "frame_at level x m"
proof (rule save_object_Inr [OF save])
  fix pub mem api full
  assume "compute_public (type_name x) (to_builtins x) = Inr pub"
    "compute_member (type_name x) (to_builtins x) = Inr mem"
    "compute_full (type_name x) (to_builtins x) = Inr full"
    "bd_pub bd = pub" "bd_mem bd = mem" "bd_full bd = full"
    "bd_uid bd = obj_uid x" "bd_obj_type bd = obj_type x"
  then show ?thesis
    using msg by (cases level)
      (auto simp: msg_by_level_def frame_at_def projector_def Let_def split: if_splits)
qed

text \<open>C10: Nobody is sent more than they are entitled to: when a saved object is broadcast, every
  frame that is new in a connection's queue is the object's projection at the level the
  connection's viewer is entitled to, or a tombstone.\<close>

theorem broadcast_discloses_entitled_only:
  assumes "save_object now x deleted s = Inr (bd, s')"
    and "c' \<in> set (sse_connections (broadcast_precomputed now bd ex n))"
    and "fr \<in> frames c'"
  shows "\<exists>c \<in> set (sse_connections n) . same_viewer c c'
    \<and> (if fr \<in> frames c then True else frame_at (bd_level (c_user c') bd) x fr)"
proof -
  from assms(2) obtain c where c: "c \<in> set (sse_connections n)" "c' = fst (deliver now bd ex c)"
    by (auto simp: broadcast_precomputed_def sweep_def Let_def)
  have viewer: "same_viewer c c'"
    and sub: "frames c' \<subseteq> frames c \<union> set_option (msg_by_level now bd (bd_level (c_user c) bd))"
    using deliver_frames [of c now bd ex] c(2) by simp_all
  have "frame_at (bd_level (c_user c') bd) x fr" if "fr \<notin> frames c"
    using saved_msg_by_level [OF assms(1)] sub assms(3) that viewer by (auto simp: same_viewer_def)
  with c(1) viewer show ?thesis by auto
qed

definition sample_viewer :: user where
  "sample_viewer = (new_user ''v'' (Instant 2025 1 1 0) ''Vic'')\<lparr>u_vekn_id := Some ''1000001''\<rparr>"

definition sample_sse :: sse where
  "sample_sse = \<lparr>sse_connections = [new_connection (Some sample_viewer)], sse_dropped = []\<rparr>"

section \<open>Nobody keeps a stale copy\<close>

lemma save_object_Inr_msg:
  assumes "save_object now x deleted s = Inr (bd, s')"
  shows "(msg_by_level t bd level \<noteq> None) =
      (projector level (type_name x) (to_builtins x) \<noteq> Inr None
       \<or> (case map_of (db_objects s) (obj_uid x) of None \<Rightarrow> False
          | Some r \<Rightarrow> (level = LV_PUBLIC \<and> row_public r \<noteq> None) \<or> (level = LV_MEMBER \<and> row_member r \<noteq> None)))"
proof (rule save_object_Inr [OF assms])
  fix pub mem api full
  assume "compute_public (type_name x) (to_builtins x) = Inr pub"
    "compute_member (type_name x) (to_builtins x) = Inr mem"
    "compute_full (type_name x) (to_builtins x) = Inr full"
    "bd_pub bd = pub" "bd_mem bd = mem" "bd_full bd = full"
    "bd_retracted_levels bd = retracted_levels (map_of (db_objects s) (obj_uid x)) pub mem"
  then show ?thesis
    by (cases level; cases "map_of (db_objects s) (obj_uid x)")
      (auto simp: msg_by_level_def projector_def retracted_levels_def Let_def)
qed

text \<open>C11: A visible object is always refreshed: every level whose viewers can see the object
  after a save, or could before it, gets a frame, and a level that loses sight of it gets a
  tombstone.\<close>

theorem save_refreshes_every_viewer:
  assumes "save_object now x deleted s = Inr (bd, s')"
  shows "(msg_by_level t bd level \<noteq> None) =
      (projector level (type_name x) (to_builtins x) \<noteq> Inr None
       \<or> (case map_of (db_objects s) (obj_uid x) of None \<Rightarrow> False
          | Some r \<Rightarrow> (level = LV_PUBLIC \<and> row_public r \<noteq> None) \<or> (level = LV_MEMBER \<and> row_member r \<noteq> None)))
    \<and> (case msg_by_level t bd level of None \<Rightarrow> True
       | Some m \<Rightarrow> (projector level (type_name x) (to_builtins x) = Inr None)
           = (m = tombstone (obj_type x) (obj_uid x) now (Some now) None
              \<and> level \<in> set (bd_retracted_levels bd)))"
proof
  show "(msg_by_level t bd level \<noteq> None) =
      (projector level (type_name x) (to_builtins x) \<noteq> Inr None
       \<or> (case map_of (db_objects s) (obj_uid x) of None \<Rightarrow> False
          | Some r \<Rightarrow> (level = LV_PUBLIC \<and> row_public r \<noteq> None) \<or> (level = LV_MEMBER \<and> row_member r \<noteq> None)))"
    by (rule save_object_Inr_msg [OF assms])
  show "case msg_by_level t bd level of None \<Rightarrow> True
       | Some m \<Rightarrow> (projector level (type_name x) (to_builtins x) = Inr None)
           = (m = tombstone (obj_type x) (obj_uid x) now (Some now) None
              \<and> level \<in> set (bd_retracted_levels bd))"
  proof (rule save_object_Inr [OF assms])
    fix pub mem api full
    assume "compute_public (type_name x) (to_builtins x) = Inr pub"
      "compute_member (type_name x) (to_builtins x) = Inr mem"
      "compute_full (type_name x) (to_builtins x) = Inr full"
      "bd_pub bd = pub" "bd_mem bd = mem" "bd_full bd = full"
      "bd_uid bd = obj_uid x" "bd_obj_type bd = obj_type x" "bd_modified_at bd = Some now"
      "bd_retracted_levels bd = retracted_levels (map_of (db_objects s) (obj_uid x)) pub mem"
    then show ?thesis
      by (cases level; cases "map_of (db_objects s) (obj_uid x)")
        (auto simp: msg_by_level_def projector_def retracted_levels_def Let_def split: option.splits)
  qed
qed

definition sample_league :: obj where
  "sample_league = OLeague (new_league ''l'' (Instant 2025 1 1 0) ''L'')"

lemma sample_league_saved: "\<exists>bd s'. save_object now sample_league None empty_db = Inr (bd, s')"
  using save_object_total [of sample_league empty_db now None]
  by (simp add: sample_league_def index_conflict_def)

lemma sample_league_projected: "projector level (type_name sample_league) (to_builtins sample_league) \<noteq> Inr None"
  by (cases level) (simp_all add: projector_def dispatch_defs sample_league_def objtype_of_def)

theorem save_refreshes_every_viewer_witness:
  "\<exists>bd s'. save_object (Instant 2025 1 2 0) sample_league None empty_db = Inr (bd, s')
     \<and> msg_by_level (Instant 2025 1 2 0) bd LV_PUBLIC \<noteq> None"
  using sample_league_saved save_refreshes_every_viewer sample_league_projected by metis

theorem broadcast_discloses_entitled_only_witness:
  "\<exists>bd s' c' fr. save_object (Instant 2025 1 2 0) sample_league None empty_db = Inr (bd, s')
     \<and> c' \<in> set (sse_connections (broadcast_precomputed (Instant 2025 1 2 0) bd None sample_sse))
     \<and> fr \<in> frames c' \<and> frame_at (bd_level (c_user c') bd) sample_league fr"
proof -
  obtain bd s' where save: "save_object (Instant 2025 1 2 0) sample_league None empty_db = Inr (bd, s')"
    using sample_league_saved by blast
  obtain m where m: "msg_by_level (Instant 2025 1 2 0) bd (bd_level (Some sample_viewer) bd) = Some m"
  proof -
    have "msg_by_level (Instant 2025 1 2 0) bd level \<noteq> None" for level
      using save_object_Inr_msg [OF save] sample_league_projected by simp
    then show thesis using that by blast
  qed
  define c' where "c' = fst (deliver (Instant 2025 1 2 0) bd None (new_connection (Some sample_viewer)))"
  have "deliver (Instant 2025 1 2 0) bd None (new_connection (Some sample_viewer)) = (c', False)"
    and fr: "m \<in> frames c'"
    using m by (simp_all add: c'_def deliver_def scope_matches_def new_connection_def offer_def
        put_nowait_def new_queue_def SSE_QUEUE_MAXSIZE_def frames_def)
  then have c': "c' \<in> set (sse_connections (broadcast_precomputed (Instant 2025 1 2 0) bd None sample_sse))"
    by (simp add: broadcast_precomputed_def sweep_def sample_sse_def)
  from broadcast_discloses_entitled_only [OF save c' fr]
  have "frame_at (bd_level (c_user c') bd) sample_league m"
    by (simp add: sample_sse_def frames_def new_connection_def new_queue_def)
  with save c' fr show ?thesis by blast
qed

section \<open>Bounded memory, closed connections\<close>

definition sse_ok :: "sse \<Rightarrow> bool" where
  "sse_ok s \<longleftrightarrow> (\<forall>c \<in> set (sse_connections s). queue_ok (c_queue c))
     \<and> (\<forall>c \<in> set (sse_dropped s). queue_ok (c_queue c) \<and> c_closed c)"

lemma put_nowait_ok: "queue_ok q \<Longrightarrow> queue_ok (snd (put_nowait m key q))"
  by (cases key) (auto simp: put_nowait_def queue_ok_def length_put)

lemma offer_ok:
  assumes "queue_ok (c_queue c)"
  shows "queue_ok (c_queue (fst (offer m key c)))" and "snd (offer m key c) \<Longrightarrow> c_closed (fst (offer m key c))"
  unfolding offer_queue using put_nowait_ok [OF assms]
  by (auto simp: offer_def split: prod.splits sum.splits)

definition step_ok :: "(sse_connection \<Rightarrow> sse_connection \<times> bool) \<Rightarrow> bool" where
  "step_ok f \<longleftrightarrow> (\<forall>c. queue_ok (c_queue c) \<longrightarrow> queue_ok (c_queue (fst (f c))) \<and> (snd (f c) \<longrightarrow> c_closed (fst (f c))))"

lemma sweep_ok: "step_ok f \<Longrightarrow> sse_ok s \<Longrightarrow> sse_ok (sweep f s)"
  unfolding sse_ok_def sweep_def step_ok_def Let_def by fastforce

lemma deliver_ok: "step_ok (deliver now bd ex)"
  unfolding step_ok_def
proof (intro allI impI)
  fix c :: sse_connection
  assume ok: "queue_ok (c_queue c)"
  show "queue_ok (c_queue (fst (deliver now bd ex c)))
      \<and> (snd (deliver now bd ex c) \<longrightarrow> c_closed (fst (deliver now bd ex c)))"
  proof (cases rule: deliver_cases [of now bd ex c])
    case 1
    with ok show ?thesis by simp
  next
    case (2 m)
    with offer_ok [OF ok, of m] show ?thesis by (elim disjE) simp_all
  qed
qed

lemma visit_ok:
  assumes "\<And>c r. queue_ok (c_queue c) \<Longrightarrow> f c = Inr r \<Longrightarrow> queue_ok (c_queue (fst r)) \<and> (snd r \<longrightarrow> c_closed (fst r))"
    and "\<forall>c \<in> set cs. queue_ok (c_queue c)"
  shows "\<forall>r \<in> set (snd (visit f cs)). queue_ok (c_queue (fst r)) \<and> (snd r \<longrightarrow> c_closed (fst r))"
  using assms(2)
proof (induction cs)
  case (Cons c cs)
  then show ?case
    using assms(1) [of c] by (cases "f c") (auto simp: split_beta Let_def)
qed simp

definition personal_target :: "uid \<Rightarrow> sse_connection \<Rightarrow> bool" where
  "personal_target u c \<longleftrightarrow> c_tournament_uid c = None \<and> map_option uid (c_user c) = Some u"

lemma personal_step_cases:
  assumes "personal_step now u p c = Inr r"
  shows "r = (c, False) \<or> personal_target u c \<and> (\<exists>m k. r = offer m (Some k) c)"
proof (cases "personal_target u c")
  case True
  then show ?thesis using assms
    by (auto simp: personal_step_def personal_target_def bind_res_Inr Let_def)
next
  case False
  then have "personal_step now u p c = Inr (c, False)"
    by (auto simp: personal_step_def personal_target_def)
  with assms show ?thesis by simp
qed

lemma personal_step_ok:
  assumes "queue_ok (c_queue c)" and "personal_step now u p c = Inr r"
  shows "queue_ok (c_queue (fst r)) \<and> (snd r \<longrightarrow> c_closed (fst r))"
  using personal_step_cases [OF assms(2)] offer_ok [OF assms(1)] assms(1) by auto

text \<open>Memory stays bounded and overflow is visible: through every broadcast each queue keeps
  distinct keys within its bound, and a connection leaves the set only closed, so that its client
  reconnects and catches up.\<close>

theorem broadcasts_keep_queues_bounded:
  assumes "sse_ok s"
  shows "sse_ok (broadcast_precomputed now bd ex s) \<and> sse_ok (snd (broadcast_personal now u p s))
    \<and> sse_ok (broadcast_judge_call t tbl label num player orgs s)
    \<and> sse_ok (broadcast_resync u s) \<and> sse_ok (wake_sse_connections s)"
proof (intro conjI)
  show "sse_ok (broadcast_precomputed now bd ex s)"
    unfolding broadcast_precomputed_def by (rule sweep_ok [OF deliver_ok assms])
  have "step_ok (\<lambda>c. case c_user c of None \<Rightarrow> (c, False)
      | Some u \<Rightarrow> if c_tournament_uid c \<noteq> None \<and> c_tournament_uid c \<noteq> Some t then (c, False)
          else if uid u \<in> set (opt_list orgs)
            then offer (JudgeCallFrame t tbl label num player) None c else (c, False))"
    using offer_ok by (auto simp: step_ok_def split: option.splits)
  from sweep_ok [OF this assms] show "sse_ok (broadcast_judge_call t tbl label num player orgs s)"
    by (simp add: broadcast_judge_call_def)
  show "sse_ok (broadcast_resync u s)" "sse_ok (wake_sse_connections s)"
    using assms
    by (auto simp: sse_ok_def broadcast_resync_def wake_sse_connections_def offer_ok put_nowait_ok)
  have "\<forall>r \<in> set (snd (visit (personal_step now u p) (sse_connections s))).
      queue_ok (c_queue (fst r)) \<and> (snd r \<longrightarrow> c_closed (fst r))"
    using assms personal_step_ok by (intro visit_ok) (auto simp: sse_ok_def)
  then show "sse_ok (snd (broadcast_personal now u p s))"
    using assms by (auto simp: broadcast_personal_def sse_ok_def split: prod.splits sum.splits)
qed

theorem broadcasts_keep_queues_bounded_witness: "sse_ok (wake_sse_connections sample_sse)"
  using broadcasts_keep_queues_bounded [of sample_sse]
  by (simp add: sample_sse_def sse_ok_def new_connection_def new_queue_def queue_ok_def)

section \<open>Targeted pushes\<close>

lemma visit_others:
  assumes "\<And>c. \<not> p c \<Longrightarrow> f c = Inr (c, False)" and "\<And>c r. f c = Inr r \<Longrightarrow> p (fst r) = p c"
  shows "filter (\<lambda>r. \<not> p (fst r)) (snd (visit f cs)) = map (\<lambda>c. (c, False)) (filter (\<lambda>c. \<not> p c) cs)"
proof (induction cs)
  case (Cons c cs)
  then show ?case
    using assms(1) [of c] assms(2) [of c]
    by (cases "f c") (auto simp: split_beta Let_def filter_map comp_def)
qed simp

lemma personal_step_target:
  assumes "personal_step now u p c = Inr r"
  shows "personal_target u (fst r) = personal_target u c"
  using personal_step_cases [OF assms] by (auto simp: personal_target_def offer_keeps)

text \<open>A personal push reaches one member's own browser connections only: every other
  connection, scoped ones included, stays in the set exactly as it was, whatever the push
  raises.\<close>

theorem personal_push_is_targeted:
  "filter (\<lambda>c. \<not> personal_target u c) (sse_connections (snd (broadcast_personal now u p s)))
   = filter (\<lambda>c. \<not> personal_target u c) (sse_connections s)"
proof -
  have others: "filter (\<lambda>r. \<not> personal_target u (fst r)) (snd (visit (personal_step now u p) cs))
      = map (\<lambda>c. (c, False)) (filter (\<lambda>c. \<not> personal_target u c) cs)" for cs
  proof (rule visit_others)
    show "personal_step now u p c = Inr (c, False)" if "\<not> personal_target u c" for c
      using that by (auto simp: personal_step_def personal_target_def)
  qed (rule personal_step_target)
  obtain out rs where visit: "visit (personal_step now u p) (sse_connections s) = (out, rs)"
    by (cases "visit (personal_step now u p) (sse_connections s)")
  with others [of "sse_connections s"]
  have kept: "filter (\<lambda>r. \<not> personal_target u (fst r)) rs
      = map (\<lambda>c. (c, False)) (filter (\<lambda>c. \<not> personal_target u c) (sse_connections s))" by simp
  have swept: "filter (\<lambda>c. \<not> personal_target u c) (map fst (filter (\<lambda>r. \<not> snd r) rs))
      = map fst (filter (\<lambda>r. \<not> snd r) (filter (\<lambda>r. \<not> personal_target u (fst r)) rs))"
    and left: "filter (\<lambda>c. \<not> personal_target u c) (map fst rs)
      = map fst (filter (\<lambda>r. \<not> personal_target u (fst r)) rs)"
    by (induction rs) auto
  show ?thesis
    unfolding broadcast_personal_def visit prod.case
    by (cases out) (simp_all only: sum.case snd_conv sse.simps swept left kept,
      simp_all add: filter_map comp_def kept)
qed

end
