(* ===== verification/Server.thy ===== *)
theory Server
  imports Broadcast
begin

text \<open>
  The running server: the database and the open connections (\<open>_sse_connections\<close>), and the one thing
  every component does with both: save an object, then broadcast what the save returned.
\<close>

text \<open>The program state with the open connections\<close>

type_synonym server = "db \<times> sse"

definition on_db :: "(db, 'a) prog \<Rightarrow> (server, 'a) prog" where
  "on_db m srv = (case m (fst srv) of (r, s') \<Rightarrow> (r, (s', snd srv)))"

definition push_bd :: "instant \<Rightarrow> broadcast_data \<Rightarrow> (server, unit) prog" where
  "push_bd now bd = modify (\<lambda>(s, c). (s, broadcast_precomputed now bd None c))"

definition save_user_prog :: "instant \<Rightarrow> user \<Rightarrow> (db, broadcast_data) prog" where
  "save_user_prog now u = atomic (save_user now u)"

definition save_and_push :: "instant \<Rightarrow> obj \<Rightarrow> (server, unit) prog" where
  "save_and_push now x = seq (on_db (atomic (save_object_from_model now x))) (push_bd now)"

end
