(* ===== verification/Ratings.thy ===== *)
theory Ratings
  imports Queries Standings Server
begin

text \<open>
  \<open>backend/src/ratings.py\<close> with the queries of \<open>db.py\<close> it runs: the rating of every player over the
  rolling window, the Hall of Fame wins, and the daily recomputation of both.  A coroutine that
  saves as it goes is a \<open>prog\<close>.  Sets of uids are lists; the order Python takes them in does not
  show, except in the order of the broadcasts.
\<close>

definition RATING_WINDOW_MONTHS :: int where
  "RATING_WINDOW_MONTHS = 18"

definition TOP_N :: nat where
  "TOP_N = 8"

definition USER_BATCH :: nat where
  "USER_BATCH = 500"

definition rating_category_for_tournament :: "tournament \<Rightarrow> rating_category" where
  "rating_category_for_tournament t = rating_category_of (t_format t) (t_online t)"

section \<open>Who earns an entry\<close>

definition rated_players :: "tournament \<Rightarrow> uid list" where
  "rated_players t =
     (if t_rounds t \<noteq> []
      then remdups (filter (\<lambda>u. u \<noteq> []) (map seat_player_uid (concat (map tb_seating (concat (t_rounds t)))
             @ (case t_finals t of None \<Rightarrow> [] | Some f \<Rightarrow> tb_seating f))))
      else remdups (map st_user_uid (filter (\<lambda>s. st_gw s \<noteq> 0 \<or> st_vp s \<noteq> 0 \<or> st_tp s \<noteq> 0) (t_standings t))))"

definition final_positions :: "tournament \<Rightarrow> (uid \<times> (nat \<times> int)) list" where
  "final_positions t = fold (\<lambda>p d. put (st_user_uid (pc_standing p)) (pc_rank p, pc_finalist_position p) d)
     (filter (\<lambda>p. \<not> st_disqualified (pc_standing p) \<and> \<not> st_non_competing (pc_standing p) \<and> \<not> pc_no_show p)
       (compute_final_standings (t_standings t) (t_winner t))) []"

definition is_disqualified :: "tournament \<Rightarrow> sanction list \<Rightarrow> uid \<Rightarrow> bool" where
  "is_disqualified t ss u \<longleftrightarrow>
     list_ex (\<lambda>p. pl_user_uid p = Some u \<and> pl_state p = DISQUALIFIED) (t_players t)
     \<or> list_ex (\<lambda>s. s_user_uid s = u \<and> s_level s = DISQUALIFICATION \<and> s_lifted_at s = None \<and> deleted_at s = None) ss"

definition is_non_competing :: "tournament \<Rightarrow> uid \<Rightarrow> bool" where
  "is_non_competing t u \<longleftrightarrow> list_ex (\<lambda>p. pl_user_uid p = Some u \<and> pl_non_competing p) (t_players t)"

definition entry_date :: "tournament \<Rightarrow> instant" where
  "entry_date t = date_of (case or_opt (t_finish t) (t_start t) of None \<Rightarrow> modified t | Some d \<Rightarrow> d)"

definition compute_entry ::
    "tournament \<Rightarrow> sanction list \<Rightarrow> uid \<Rightarrow> nat \<Rightarrow> (uid \<times> (nat \<times> int)) list \<Rightarrow> rating_entry" where
  "compute_entry t ss u player_count positions =
     (let (vp, g) = compute_rating_vp_gw t ss u; gw = truncate_rat g;
          (position, fp) = (case map_of positions u of None \<Rightarrow> (0, 0) | Some p \<Rightarrow> p)
      in \<lparr>re_tournament_uid = uid t, re_tournament_name = t_name t, re_date = entry_date t,
          re_player_count = int player_count, re_rank = rank_value (t_rank t), re_vp = vp, re_gw = gw,
          re_finalist_position = fp,
          re_points = compute_rating_points vp gw fp (int player_count) (t_rank t),
          re_position = int position\<rparr>)"

definition compute_entry_sync :: "tournament \<Rightarrow> uid \<Rightarrow> sanction list \<Rightarrow> rating_entry" where
  "compute_entry_sync t u ss = compute_entry t ss u (attested_player_count t) (final_positions t)"

section \<open>The rolling window\<close>

definition rating_cutoff :: "instant \<Rightarrow> instant" where
  "rating_cutoff now = months_before RATING_WINDOW_MONTHS now"

definition category_formats :: "rating_category \<Rightarrow> tournament_format list" where
  "category_formats c = (if c = CONSTRUCTED_ONLINE \<or> c = CONSTRUCTED_OFFLINE then [Standard, V5] else [Limited])"

definition category_online :: "rating_category \<Rightarrow> bool" where
  "category_online c \<longleftrightarrow> c = CONSTRUCTED_ONLINE \<or> c = LIMITED_ONLINE"

text \<open>The query tests the date's text first, which an index answers.\<close>

definition stream_finished_tournaments_for_category ::
    "db \<Rightarrow> tournament_format \<Rightarrow> bool \<Rightarrow> instant \<Rightarrow> tournament list" where
  "stream_finished_tournaments_for_category s fmt online since =
     filter (\<lambda>t. t_state t = T_FINISHED \<and> t_format t = fmt \<and> t_online t = online
        \<and> (let d = (case or_opt (t_finish t) (t_start t) of None \<Rightarrow> modified t | Some d \<Rightarrow> d)
           in date_of since \<le> d \<and> since \<le> d)) (live_tournaments s)"

text \<open>One event adds an entry to each of its players among those asked for.\<close>

definition rate_event ::
    "db \<Rightarrow> uid list \<Rightarrow> tournament \<Rightarrow> (uid \<times> rating_entry list) list \<Rightarrow> (uid \<times> rating_entry list) list" where
  "rate_event s us t d =
     (let players = filter (\<lambda>u. u \<in> set us) (rated_players t)
      in if players = [] then d
         else if ranking_eligibility t \<noteq> EL_ELIGIBLE then d
         else
           let ss = get_sanctions_for_tournament s (uid t); count = attested_player_count t;
               positions = final_positions t
           in fold (\<lambda>u d. if is_disqualified t ss u then d else if is_non_competing t u then d
                else put u (opt_list (map_of d u) @ [compute_entry t ss u count positions]) d) players d)"

definition category_entries ::
    "instant \<Rightarrow> db \<Rightarrow> uid list \<Rightarrow> rating_category \<Rightarrow> (uid \<times> rating_entry list) list" where
  "category_entries now s us cat =
     fold (\<lambda>fmt. fold (rate_event s us) (stream_finished_tournaments_for_category s fmt (category_online cat)
        (rating_cutoff now))) (category_formats cat) (map (\<lambda>u. (u, [])) us)"

section \<open>Storing it\<close>

fun user_rating :: "rating_category \<Rightarrow> user \<Rightarrow> category_rating option" where
  "user_rating CONSTRUCTED_ONLINE u = u_constructed_online u"
| "user_rating CONSTRUCTED_OFFLINE u = u_constructed_offline u"
| "user_rating LIMITED_ONLINE u = u_limited_online u"
| "user_rating LIMITED_OFFLINE u = u_limited_offline u"

fun set_user_rating :: "rating_category \<Rightarrow> category_rating \<Rightarrow> user \<Rightarrow> user" where
  "set_user_rating CONSTRUCTED_ONLINE r u = u\<lparr>u_constructed_online := Some r\<rparr>"
| "set_user_rating CONSTRUCTED_OFFLINE r u = u\<lparr>u_constructed_offline := Some r\<rparr>"
| "set_user_rating LIMITED_ONLINE r u = u\<lparr>u_limited_online := Some r\<rparr>"
| "set_user_rating LIMITED_OFFLINE r u = u\<lparr>u_limited_offline := Some r\<rparr>"

definition rating_order :: "rating_entry \<Rightarrow> int \<times> string" where
  "rating_order e = (- re_points e, re_tournament_uid e)"

definition rating_of_entries :: "rating_entry list \<Rightarrow> category_rating" where
  "rating_of_entries es =
     (let sorted = sort_key rating_order es
      in \<lparr>cr_total = sum_list (map re_points (take TOP_N sorted)), cr_tournaments = sorted\<rparr>)"

definition store_rating ::
    "instant \<Rightarrow> rating_category \<Rightarrow> (uid \<times> rating_entry list) list \<Rightarrow> user
     \<Rightarrow> (db, (user \<times> broadcast_data) option) prog" where
  "store_rating now cat entries u =
     (let r = rating_of_entries (opt_list (map_of entries (uid u)))
      in if user_rating cat u = Some r then return None
         else let u' = (set_user_rating cat r u)\<lparr>modified := now\<rparr>
              in seq (save_user_prog now u') (\<lambda>bd. return (Some (u', bd))))"

definition store_batch ::
    "instant \<Rightarrow> rating_category \<Rightarrow> (uid \<times> rating_entry list) list \<Rightarrow> uid list
     \<Rightarrow> (db, (user \<times> broadcast_data) option list) prog" where
  "store_batch now cat entries batch =
     seq (gets (\<lambda>s. map snd (get_users_by_uids s batch))) (for_each (store_rating now cat entries))"

definition recompute_ratings_for_players ::
    "instant \<Rightarrow> uid list \<Rightarrow> rating_category \<Rightarrow> (db, (user \<times> broadcast_data) list) prog" where
  "recompute_ratings_for_players now us cat =
     (if us = [] then return []
      else seq (gets (\<lambda>s. category_entries now s us cat)) (\<lambda>entries.
        seq (for_each (store_batch now cat entries) (chunks USER_BATCH (sort (remdups us)))) (\<lambda>out.
        return (List.map_filter id (concat out)))))"

section \<open>The Hall of Fame\<close>

definition TWDA_MIN_PLAYERS :: nat where
  "TWDA_MIN_PLAYERS = 10"

definition HOF_WINS_BATCH :: nat where
  "HOF_WINS_BATCH = 500"

definition live_decks :: "db \<Rightarrow> deck list" where
  "live_decks s = List.map_filter (as_deck \<circ> row_full) (live_rows s)"

definition hof_row :: "db \<Rightarrow> tournament \<Rightarrow> bool" where
  "hof_row s t \<longleftrightarrow> t_state t = T_FINISHED \<and> t_winner t \<noteq> [] \<and> \<not> t_online t \<and> \<not> t_open_rounds t
     \<and> \<not> t_self_organized_rounds t \<and> t_format t \<noteq> Limited \<and> t_format t \<noteq> Storyline
     \<and> list_ex (\<lambda>d. d_tournament_uid d = uid t \<and> d_user_uid d = t_winner t) (live_decks s)"

definition win_qualifies :: "tournament \<Rightarrow> bool" where
  "win_qualifies t \<longleftrightarrow>
     (if attested_player_count t < TWDA_MIN_PLAYERS
      then truthy_str (map_of (t_external_ids t) ''twda'') \<and> t_reported_player_count t = 0
        \<and> ranking_eligibility t = EL_NO_RESULTS
      else True)"

definition collect_wins :: "tournament list \<Rightarrow> (uid \<times> uid list) list \<Rightarrow> (uid \<times> uid list) list" where
  "collect_wins ts wins = fold (\<lambda>t wins. if win_qualifies t
     then put (t_winner t) (opt_list (map_of wins (t_winner t)) @ [uid t]) wins else wins) ts wins"

definition get_all_tournament_wins :: "db \<Rightarrow> uid list option \<Rightarrow> (uid \<times> uid list) list" where
  "get_all_tournament_wins s winners = (case winners of
     Some ws \<Rightarrow>
       if ws = [] then []
       else collect_wins (filter (\<lambda>t. hof_row s t \<and> t_winner t \<in> set ws) (live_tournaments s)) []
   | None \<Rightarrow> fold collect_wins (pages_after uid HOF_WINS_BATCH [] (filter (hof_row s) (live_tournaments s))) [])"

definition get_user_uids_with_wins :: "db \<Rightarrow> uid list" where
  "get_user_uids_with_wins s = map uid (filter (\<lambda>u. u_wins u \<noteq> []) (live_users s))"

definition store_wins ::
    "instant \<Rightarrow> (uid \<times> uid list) list \<Rightarrow> (uid \<times> user) list \<Rightarrow> uid \<Rightarrow> (db, (user \<times> broadcast_data) option) prog" where
  "store_wins now wins found u = (case map_of found u of
     None \<Rightarrow> return None
   | Some usr \<Rightarrow>
      let new = sort (opt_list (map_of wins u))
      in if new = u_wins usr then return None
         else let usr' = usr\<lparr>u_wins := new, modified := now\<rparr>
              in seq (save_user_prog now usr') (\<lambda>bd. return (Some (usr', bd))))"

definition recompute_wins :: "instant \<Rightarrow> uid list option \<Rightarrow> (db, (user \<times> broadcast_data) list) prog" where
  "recompute_wins now winners =
     seq (gets (\<lambda>s. get_all_tournament_wins s winners)) (\<lambda>wins.
     seq (gets (\<lambda>s. remdups (case winners of Some ws \<Rightarrow> ws
        | None \<Rightarrow> map fst wins @ get_user_uids_with_wins s))) (\<lambda>us.
     seq (gets (\<lambda>s. get_users_by_uids s us)) (\<lambda>found.
     seq (for_each (store_wins now wins found) us) (\<lambda>out. return (List.map_filter id out)))))"

section \<open>The daily run\<close>

definition all_categories :: "rating_category list" where
  "all_categories = [CONSTRUCTED_ONLINE, CONSTRUCTED_OFFLINE, LIMITED_ONLINE, LIMITED_OFFLINE]"

text \<open>Pass 1: the registered players of every rated event, by category.\<close>

definition rated_event :: "tournament \<Rightarrow> bool" where
  "rated_event t \<longleftrightarrow> t_state t = T_FINISHED \<and> deleted_at t = None \<and> ranking_eligibility t = EL_ELIGIBLE"

definition players_by_category :: "db \<Rightarrow> rating_category \<Rightarrow> uid list" where
  "players_by_category s cat = remdups (concat (map
     (\<lambda>t. filter (\<lambda>u. u \<noteq> []) (List.map_filter pl_user_uid (t_players t)))
     (filter (\<lambda>t. rated_event t \<and> rating_category_for_tournament t = cat)
       (List.map_filter (as_tournament \<circ> row_full) (rows s)))))"

definition recompute_category :: "instant \<Rightarrow> rating_category \<times> uid list \<Rightarrow> (server, nat) prog" where
  "recompute_category now cu =
     (let (cat, us) = cu
      in if us = [] then return 0
         else seq (on_db (recompute_ratings_for_players now us cat)) (\<lambda>updated.
           seq (for_each (\<lambda>(_, bd). push_bd now bd) updated) (\<lambda>_. return (length updated))))"

definition recompute_all_ratings :: "instant \<Rightarrow> (server, nat) prog" where
  "recompute_all_ratings now =
     seq (gets (\<lambda>(s, _). map (\<lambda>c. (c, players_by_category s c)) all_categories)) (\<lambda>groups.
     seq (for_each (recompute_category now) groups) (\<lambda>counts.
     seq (on_db (recompute_wins now None)) (\<lambda>updated.
     seq (for_each (\<lambda>(_, bd). push_bd now bd) updated) (\<lambda>_.
     return (sum_list counts + length updated)))))"

end
