(* ===== verification/Queries_Laws.thy ===== *)
theory Queries_Laws
  imports Queries Store_Laws
begin

text \<open>
  What the queries promise: a replay leaves no row out whatever the size of its batches, an event's
  code is given once, never collides and finds the event again.
\<close>

section \<open>Replay\<close>

lemma stream_keys_distinct: "distinct_keys xs \<Longrightarrow> distinct (map stream_key (filter P xs))"
  by (induction xs) (auto simp: stream_key_def key_set_def image_iff)

text \<open>C19: A replay sends every row its reader may see that changed since the cursor, each once, oldest
  change first, whatever the size of the batches; no batch is empty or over its size, and only an
  unknown level is refused, before anything is sent.\<close>

theorem stream_replays_every_row:
  assumes "rows_ok s" and "0 < n"
  shows "case level_col level of
      Inl e \<Rightarrow> stream_objects_new s ty level since n = Inl e \<and> e = KeyError level
        \<and> level \<notin> set [''public'', ''member'', ''full'']
    | Inr col \<Rightarrow> (case stream_objects_new s ty level since n of Inl _ \<Rightarrow> False
      | Inr batches \<Rightarrow>
          concat (map fst batches) = map (stream_item col)
            (sort_key stream_key (filter (since_row since) (filter (streamed ty level col) (db_objects s))))
          \<and> list_all (\<lambda>(items, cursor). items \<noteq> [] \<and> length items \<le> n) batches)"
proof (cases "level_col level")
  case (Inl e)
  then show ?thesis by (auto simp: level_col_def stream_objects_new_def split: if_splits)
next
  case (Inr col)
  define seen where "seen = filter (streamed ty level col) (db_objects s)"
  have later: "since_row since x \<Longrightarrow> stream_key x < stream_key y \<Longrightarrow> since_row since y" for x y :: "uid \<times> row"
    by (auto simp: since_row_def stream_key_def less_prod_def split: option.split)
  define pages where "pages = keyset_pages stream_key n (since_row since) seen"
  have pages: "concat pages = sort_key stream_key (filter (since_row since) seen)"
    "list_all (\<lambda>p. p \<noteq> [] \<and> length p \<le> n) pages"
    using concat_keyset_pages [where first = "since_row since",
        OF stream_keys_distinct [OF rows_ok_distinct [OF assms(1)]] assms(2) later]
    unfolding seen_def pages_def by simp_all
  have stream: "stream_objects_new s ty level since n
      = Inr (map (\<lambda>p. (map (stream_item col) p, row_modified_at (snd (last p)))) pages)"
    by (simp add: stream_objects_new_def Inr pages_def seen_def)
  have "concat (map fst (map (\<lambda>p. (map (stream_item col) p, row_modified_at (snd (last p)))) pages))
      = map (stream_item col) (concat pages)"
    by (simp add: comp_def map_concat)
  with pages stream show ?thesis unfolding Inr by (auto simp: seen_def [symmetric] list_all_iff)
qed

theorem stream_replays_every_row_witness:
  "stream_objects_new empty_db None ''api'' None 1000 = Inl (KeyError ''api'')"
  using stream_replays_every_row [where s = empty_db and n = 1000 and level = "''api''" and ty = None and since = None] empty_db_ok
  by (simp add: level_col_def db_ok_def)

section \<open>Event codes\<close>

lemma free_code:
  assumes "resolve_event_code mints t s = Inr c"
  shows "\<not> event_code_taken c s"
  using assms by (auto simp: resolve_event_code_def Let_def find_Some_iff split: option.splits)

lemma lower_lower_char: "map lower_char = lower"
  by (simp add: lower_def)

lemma free_code_no_conflict:
  assumes "\<not> event_code_taken (t_event_code t) s"
  shows "\<not> index_conflict (OTournament t) s"
proof
  assume "index_conflict (OTournament t) s"
  then obtain k r where r: "(k, r) \<in> set (db_objects s)" "index_keys (row_full r) = index_keys (OTournament t)"
    "index_keys (OTournament t) \<noteq> None"
    by (auto simp: index_conflict_def list_ex_iff)
  then obtain t' where "row_full r = OTournament t'" "lower (t_event_code t') = lower (t_event_code t)" "t_event_code t' \<noteq> []"
    by (cases "row_full r") (auto simp: lower_lower_char split: if_splits)
  then have "event_code_taken (t_event_code t) s"
    using r(1) by (force simp: event_code_taken_def list_ex_iff rows_def)
  with assms show False ..
qed

lemma get_tournament_saved:
  assumes "save_tournament now t s = Inr (bd, s')"
  shows "get_tournament_by_uid s' (uid t) = Some t"
  using get_after_save [of now "OTournament t" _ s bd s' as_tournament "uid t"] assms
  by (simp add: save_tournament_def save_object_from_model_def get_tournament_by_uid_def)

lemma find_unique:
  assumes "x \<in> set xs" "P x" "\<And>y. y \<in> set xs \<Longrightarrow> P y \<Longrightarrow> y = x"
  shows "find P xs = Some x"
  using assms
proof (induction xs)
  case (Cons y xs)
  show ?case
  proof (cases "P y")
    case True
    with Cons.prems(3) have "y = x" by simp
    with True show ?thesis by simp
  next
    case False
    with Cons.prems(1,2) have "x \<in> set xs" by auto
    then have "find P xs = Some x" by (rule Cons.IH [OF _ Cons.prems(2)]) (simp add: Cons.prems(3))
    with False show ?thesis by simp
  qed
qed simp

lemma in_map_filter: "t \<in> set (List.map_filter f xs) \<longleftrightarrow> (\<exists>x \<in> set xs. f x = Some t)"
  by (induction xs) (auto simp: map_filter_simps split: option.split)

lemma live_tournament_row:
  "t \<in> set (live_tournaments s) \<longleftrightarrow> (\<exists>k r. (k, r) \<in> set (db_objects s) \<and> row_deleted_at r = None \<and> row_full r = OTournament t)"
proof -
  have "as_tournament x = Some t \<longleftrightarrow> x = OTournament t" for x by (cases x) auto
  then show ?thesis
    by (auto simp: live_tournaments_def live_rows_def rows_def in_map_filter image_iff) (metis snd_conv)
qed

lemma rows_ok_uid:
  assumes "rows_ok s" and "map_of (db_objects s) u = Some r"
  shows "obj_uid (row_full r) = u"
proof -
  from assms have "row_ok u r" unfolding rows_ok_def by blast
  then show ?thesis by (simp add: row_ok_def Let_def)
qed

text \<open>C20: The handle of an event is given once and never collides: stamping keeps the table
  consistent and cannot run into the unique index, a stamped event is left alone, and a live event
  is found again by its code, in either case.\<close>

theorem event_code_given_once:
  assumes "rows_ok s"
  shows "case ensure_event_code now mints u s of
      Inl e \<Rightarrow> e = RuntimeError ''event code space exhausted''
        \<and> Option.bind (get_tournament_by_uid s u) (\<lambda>t. Some (resolve_event_code mints t s)) = Some (Inl e)
    | Inr (None, s') \<Rightarrow> s' = s \<and> (case get_tournament_by_uid s u of None \<Rightarrow> True | Some t \<Rightarrow> t_event_code t \<noteq> [])
    | Inr (Some bd, s') \<Rightarrow> rows_ok s' \<and>
        (case (get_tournament_by_uid s u, get_tournament_by_uid s' u) of
           (Some t, Some t') \<Rightarrow> t_event_code t = []
             \<and> resolve_event_code mints t s = Inr (t_event_code t') \<and> t' = t\<lparr>t_event_code := t_event_code t', modified := now\<rparr>
             \<and> (if deleted_at t = None \<and> t_event_code t' \<noteq> []
                then get_tournament_by_event_code s' (t_event_code t') = Some t' else True)
         | _ \<Rightarrow> False)"
proof (cases "get_tournament_by_uid s u")
  case None
  then show ?thesis by (simp add: ensure_event_code_def)
next
  case (Some t)
  show ?thesis
  proof (cases "t_event_code t = []")
    case False
    then show ?thesis by (simp add: ensure_event_code_def Some)
  next
    case blank: True
    show ?thesis
    proof (cases "resolve_event_code mints t s")
      case (Inl e)
      then have "e = RuntimeError ''event code space exhausted''"
        by (auto simp: resolve_event_code_def Let_def split: option.splits)
      then show ?thesis by (simp add: ensure_event_code_def Some blank Inl)
    next
      case (Inr c)
      define t' where "t' = t\<lparr>t_event_code := c, modified := now\<rparr>"
      have free: "\<not> event_code_taken c s" by (rule free_code [OF Inr])
      obtain bd s' where save: "save_tournament now t' s = Inr (bd, s')"
        using save_object_total [of "OTournament t'" s now "deleted_at t'"] free_code_no_conflict [of t' s] free
        by (auto simp: save_tournament_def save_object_from_model_def t'_def)
      from Some obtain r where r: "map_of (db_objects s) u = Some r" "row_full r = OTournament t"
        by (cases "map_of (db_objects s) u")
          (auto simp: get_tournament_by_uid_def get_object_full_def elim!: as_tournament.elims)
      then have "obj_uid (row_full r) = u" using rows_ok_uid [OF assms] by blast
      then have uid: "uid t' = u" by (simp add: r t'_def)
      have found: "get_tournament_by_event_code s' c = Some t'" if live: "deleted_at t = None" and code: "c \<noteq> []"
      proof -
        obtain pub mem api where objs: "db_objects s' = put u (upserted_row now (OTournament t') None
            (map_of (db_objects s) u) (pub, mem, api)) (db_objects s)"
          using save uid live
          by (auto simp: save_tournament_def save_object_from_model_def t'_def elim!: save_object_Inr)
        have keys: "distinct_keys (db_objects s')" using rows_ok_distinct [OF assms] by (simp add: objs)
        have here: "(u, upserted_row now (OTournament t') None (map_of (db_objects s) u) (pub, mem, api)) \<in> set (db_objects s')"
          unfolding in_set_map_of [OF keys] by (simp add: objs)
        have "find (\<lambda>x. lower (t_event_code x) = lower c \<and> t_event_code x \<noteq> []) (live_tournaments s') = Some t'"
        proof (rule find_unique)
          show "t' \<in> set (live_tournaments s')" unfolding live_tournament_row using here by force
          fix y assume "y \<in> set (live_tournaments s')" and y: "lower (t_event_code y) = lower c \<and> t_event_code y \<noteq> []"
          then obtain k q where q: "map_of (db_objects s') k = Some q" "row_full q = OTournament y"
            unfolding live_tournament_row using in_set_map_of [OF keys] by blast
          show "y = t'"
          proof (cases "k = u")
            case True
            then show ?thesis using q by (auto simp: objs)
          next
            case False
            then have "(k, q) \<in> set (db_objects s)" using q(1) in_set_map_of [OF rows_ok_distinct [OF assms]] by (simp add: objs)
            then have "event_code_taken c s" using q(2) y by (force simp: event_code_taken_def list_ex_iff rows_def)
            with free show ?thesis by contradiction
          qed
        qed (simp add: t'_def code)
        then show ?thesis by (simp add: get_tournament_by_event_code_def)
      qed
      have "rows_ok s'"
        using save_object_rows_ok [OF assms] save by (simp add: save_tournament_def save_object_from_model_def)
      then show ?thesis using save get_tournament_saved [OF save] uid found blank
        by (simp add: ensure_event_code_def Some Inr t'_def)
    qed
  qed
qed

definition sample_event :: tournament where
  "sample_event = new_tournament ''t'' (Instant 2026 1 1 0) ''Sample'' ''CODE''"

lemma sample_event_simps: "uid sample_event = ''t''" "t_event_code sample_event = []" "t_external_ids sample_event = []"
    "deleted_at sample_event = None"
  by (simp_all add: sample_event_def new_tournament_def)

theorem event_code_given_once_witness:
  "\<exists>bd s. save_tournament (Instant 2026 1 1 0) sample_event empty_db = Inr (bd, s)
     \<and> (case ensure_event_code (Instant 2026 1 2 0) [''123456'', ''AB2345''] ''t'' s of
          Inr (Some bd, s') \<Rightarrow> map_option t_event_code (get_tournament_by_uid s' ''t'') = Some ''AB2345''
        | _ \<Rightarrow> False)"
proof -
  have "\<not> index_conflict (OTournament sample_event) empty_db" by (simp add: index_conflict_def empty_db_def)
  then obtain bd s where save: "save_tournament (Instant 2026 1 1 0) sample_event empty_db = Inr (bd, s)"
    using save_object_total [of "OTournament sample_event" empty_db "Instant 2026 1 1 0" None]
    by (auto simp: save_tournament_def save_object_from_model_def sample_event_simps)
  then have save': "save_object (Instant 2026 1 1 0) (OTournament sample_event) None empty_db = Inr (bd, s)"
    by (simp add: save_tournament_def save_object_from_model_def sample_event_simps)
  have ok: "rows_ok s" using save_object_rows_ok [OF _ save'] empty_db_ok by (simp add: db_ok_def)
  have here: "get_tournament_by_uid s ''t'' = Some sample_event"
    using get_tournament_saved [OF save] by (simp add: sample_event_simps)
  have free: "\<not> event_code_taken c s" for c
    by (rule save_object_Inr [OF save']) (simp add: event_code_taken_def rows_def empty_db_def sample_event_simps)
  have code: "resolve_event_code [''123456'', ''AB2345''] sample_event s = Inr ''AB2345''"
    by (simp add: resolve_event_code_def sample_event_simps free is_digit_def map_filter_simps)
  show ?thesis
    using event_code_given_once [where now = "Instant 2026 1 2 0" and mints = "[''123456'', ''AB2345'']" and u = "''t''", OF ok]
      save here code
    by (auto simp: sample_event_simps split: sum.splits option.splits prod.splits)
qed

end
