(* ===== verification/Ratings_Laws.thy ===== *)
theory Ratings_Laws
  imports Ratings Queries_Laws
begin

text \<open>
  What a recomputation promises.  Saving a user that is in the table changes that user's row alone,
  so that what ratings and wins are computed from stays as it was; the run ends without an error
  and a second one finds nothing to save.
\<close>

section \<open>A pass over users\<close>

text \<open>Save a user when \<open>upd\<close> has a new value for it.\<close>

definition touch :: "instant \<Rightarrow> (user \<Rightarrow> user option) \<Rightarrow> user \<Rightarrow> (db, (user \<times> broadcast_data) option) prog" where
  "touch now upd u = (case upd u of
     None \<Rightarrow> return None
   | Some u' \<Rightarrow> seq (save_user_prog now u') (\<lambda>bd. return (Some (u', bd))))"

definition updated :: "(user \<Rightarrow> user option) \<Rightarrow> user \<Rightarrow> user" where
  "updated upd u = (case upd u of None \<Rightarrow> u | Some u' \<Rightarrow> u')"

text \<open>An update keeps the identity, the VEKN id and the owner columns.\<close>

definition keeps_identity :: "(user \<Rightarrow> user option) \<Rightarrow> bool" where
  "keeps_identity upd \<longleftrightarrow> (\<forall>u u'. upd u = Some u' \<longrightarrow> uid u' = uid u \<and> u_vekn_id u' = u_vekn_id u
     \<and> owner_columns (OUser u') = owner_columns (OUser u))"

definition user_at :: "db \<Rightarrow> uid \<Rightarrow> user option" where
  "user_at s u = Option.bind (read_object s u) as_user"

text \<open>The state after the users of \<open>seen\<close> have been passed over: everything else is as before.\<close>

definition passed :: "(user \<Rightarrow> user option) \<Rightarrow> uid set \<Rightarrow> db \<Rightarrow> db \<Rightarrow> bool" where
  "passed upd seen s0 s \<longleftrightarrow> rows_ok s
     \<and> (\<forall>w. read_object s w = (case user_at s0 w of
          Some v \<Rightarrow> Some (OUser (if w \<in> seen then updated upd v else v)) | None \<Rightarrow> read_object s0 w))
     \<and> live_tournaments s = live_tournaments s0 \<and> sanctions s = sanctions s0 \<and> live_decks s = live_decks s0
     \<and> keys (db_objects s) = keys (db_objects s0)"

lemma as_user_Some: "as_user x = Some u \<longleftrightarrow> x = OUser u"
  by (cases x) auto

lemma user_at_read: "user_at s u = Some v \<longleftrightarrow> read_object s u = Some (OUser v)"
  by (auto simp: user_at_def as_user_Some split: Option.bind_splits)

lemma passed_start: "rows_ok s \<Longrightarrow> passed upd {} s s"
  by (auto simp: passed_def user_at_read split: option.split)

lemma map_filter_put:
  assumes "map_of d k = Some v0" and "f v0 = None" and "f v = None"
  shows "List.map_filter f (map snd (put k v d)) = List.map_filter f (map snd d)"
  using assms(1)
proof (induction d)
  case (Cons kv d)
  then show ?case using assms(2,3) by (cases kv) (auto simp: map_filter_simps split: option.split)
qed simp

lemma map_filter_filter: "List.map_filter f (filter P xs) = List.map_filter (\<lambda>x. if P x then f x else None) xs"
  by (induction xs) (auto simp: map_filter_simps split: option.split)

lemma user_saves_frame:
  assumes "rows_ok s" and "user_at s (uid v) = Some v0" and "save_user now v s = Inr (bd, s')"
  shows "live_tournaments s' = live_tournaments s" "sanctions s' = sanctions s" "live_decks s' = live_decks s"
    "keys (db_objects s') = keys (db_objects s)"
proof -
  from assms(2) obtain r where r: "map_of (db_objects s) (uid v) = Some r" "row_full r = OUser v0"
    by (auto simp: user_at_read read_object_def)
  from assms(3) obtain q where q: "db_objects s' = put (uid v) q (db_objects s)" "row_full q = OUser (without_owner_columns v)"
    unfolding save_user_def save_object_from_model_def by (elim save_object_Inr) simp
  show "live_tournaments s' = live_tournaments s" "sanctions s' = sanctions s" "live_decks s' = live_decks s"
    unfolding live_tournaments_def sanctions_def live_decks_def live_rows_def rows_def q(1) map_filter_filter
    by (rule map_filter_put [OF r(1)]; simp add: r(2) q(2))+
  show "keys (db_objects s') = keys (db_objects s)"
    unfolding q(1) by (rule keys_put_present) (use r(1) in \<open>rule map_of_Some_keys\<close>)
qed

lemma stored_user:
  assumes "rows_ok s" and "user_at s u = Some v"
  shows "uid v = u" "owner_columns (OUser v) = (None, None, None)"
proof -
  from assms(2) obtain r where r: "map_of (db_objects s) u = Some r" "row_full r = OUser v"
    by (auto simp: user_at_read read_object_def)
  then have "row_ok u r" using assms(1) unfolding rows_ok_def by blast
  then have "obj_uid (OUser v) = u" "as_stored (OUser v) = OUser v" by (simp_all add: row_ok_def r(2) Let_def)
  then show "uid v = u" by simp
  from \<open>as_stored (OUser v) = OUser v\<close> have "without_owner_columns v = v" by simp
  then have "u_calendar_token v = u_calendar_token (without_owner_columns v)"
    "u_agenda_hidden v = u_agenda_hidden (without_owner_columns v)"
    "u_agenda_added v = u_agenda_added (without_owner_columns v)" by simp_all
  then show "owner_columns (OUser v) = (None, None, None)" by (simp add: without_owner_columns_def)
qed

lemma user_update_free:
  assumes "rows_ok s" and "user_at s (uid v) = Some v0" and "u_vekn_id v = u_vekn_id v0"
  shows "\<not> index_conflict (OUser v) s"
proof
  assume "index_conflict (OUser v) s"
  then obtain k q where kq: "(k, q) \<in> set (db_objects s)" "k \<noteq> uid v"
    "index_keys (row_full q) = index_keys (OUser v)" "index_keys (OUser v) \<noteq> None"
    by (auto simp: index_conflict_def list_ex_iff)
  have q: "map_of (db_objects s) k = Some q"
    using kq(1) in_set_map_of [OF rows_ok_distinct [OF assms(1)]] by blast
  have "index_keys (OUser v) = index_keys (OUser v0)" using assms(3) by simp
  moreover obtain r where "map_of (db_objects s) (uid v) = Some r" "row_full r = OUser v0"
    using assms(2) by (auto simp: user_at_read read_object_def)
  ultimately have "index_of s k = index_of s (uid v)" "index_of s k \<noteq> None"
    using q kq(3,4) by (simp_all add: index_of_def)
  then show False using assms(1) kq(2) unfolding rows_ok_def unique_index_def by (metis not_None_eq)
qed

lemma touch_step:
  assumes ok: "passed upd seen s0 s" and id: "keeps_identity upd" and "rows_ok s0"
    and v: "user_at s0 (uid v) = Some v" and new: "uid v \<notin> seen"
  shows "\<exists>out s'. touch now upd v s = (Inr out, s') \<and> passed upd (insert (uid v) seen) s0 s'
    \<and> map_option fst out = upd v"
proof (cases "upd v")
  case None
  then have "passed upd (insert (uid v) seen) s0 s"
    using ok v unfolding passed_def by (auto simp: updated_def split: option.split)
  then show ?thesis using None by (simp add: touch_def)
next
  case (Some v')
  have v': "uid v' = uid v" "u_vekn_id v' = u_vekn_id v" "owner_columns (OUser v') = (None, None, None)"
    using id Some stored_user [OF assms(3) v] unfolding keeps_identity_def by auto
  have now: "user_at s (uid v') = Some v" using ok v new by (simp add: passed_def user_at_def v')
  have rows: "rows_ok s" using ok by (simp add: passed_def)
  obtain bd s' where save: "save_user now v' s = Inr (bd, s')"
    using save_object_total [of "OUser v'" s now "deleted_at v'"] user_update_free [OF rows now v'(2)]
    by (auto simp: save_user_def save_object_from_model_def)
  have "as_stored (OUser v') = OUser v'" using v'(3) by (simp add: without_owner_columns_def)
  then have read: "read_object s' = (read_object s)(uid v \<mapsto> OUser v')"
    using read_object_saved [of now "OUser v'"] save v'(1) by (simp add: save_user_def save_object_from_model_def)
  have "rows_ok s'" using save_object_rows_ok [OF rows] save by (simp add: save_user_def save_object_from_model_def)
  then have "passed upd (insert (uid v) seen) s0 s'"
    using ok user_saves_frame [OF rows now save] v Some unfolding passed_def read
    by (auto simp: updated_def split: option.split)
  then show ?thesis using Some save by (simp add: touch_def save_user_prog_def atomic_def seq_def)
qed

lemma touch_all:
  assumes "passed upd seen s0 s" and "keeps_identity upd" and "rows_ok s0"
    and "distinct (map uid vs)" and "\<forall>v \<in> set vs. user_at s0 (uid v) = Some v \<and> uid v \<notin> seen"
  shows "\<exists>outs s'. for_each (touch now upd) vs s = (Inr outs, s') \<and> passed upd (seen \<union> uid ` set vs) s0 s'
    \<and> map (map_option fst) outs = map upd vs"
  using assms
proof (induction vs arbitrary: seen s)
  case (Cons v vs)
  obtain out s1 where s1: "touch now upd v s = (Inr out, s1)" "passed upd (insert (uid v) seen) s0 s1"
    "map_option fst out = upd v"
    using touch_step [OF Cons.prems(1-3), of v now] Cons.prems(5) by auto
  have "\<exists>outs s'. for_each (touch now upd) vs s1 = (Inr outs, s')
      \<and> passed upd (insert (uid v) seen \<union> uid ` set vs) s0 s' \<and> map (map_option fst) outs = map upd vs"
  proof (rule Cons.IH [OF s1(2) Cons.prems(2,3)])
    show "\<forall>w \<in> set vs. user_at s0 (uid w) = Some w \<and> uid w \<notin> insert (uid v) seen"
      using Cons.prems(4,5) by (auto simp: image_iff)
  qed (use Cons.prems(4) in simp)
  then show ?case using s1 by (auto simp: seq_def)
qed simp

lemma touch_nothing:
  "\<forall>v \<in> set vs. upd v = None \<Longrightarrow> for_each (touch now upd) vs s = (Inr (map (\<lambda>_. None) vs), s)"
  by (induction vs) (auto simp: touch_def seq_def)

lemma passed_cong:
  assumes "\<And>w. user_at s0 w \<noteq> None \<Longrightarrow> w \<in> A \<longleftrightarrow> w \<in> B"
  shows "passed upd A s0 s = passed upd B s0 s"
proof -
  have "(case user_at s0 w of Some v \<Rightarrow> Some (OUser (if w \<in> A then updated upd v else v)) | None \<Rightarrow> read_object s0 w)
      = (case user_at s0 w of Some v \<Rightarrow> Some (OUser (if w \<in> B then updated upd v else v)) | None \<Rightarrow> read_object s0 w)" for w
    using assms [of w] by (simp split: option.split)
  then show ?thesis unfolding passed_def by simp
qed

lemma keyed_values:
  assumes "distinct_keys xs" and "\<And>k r v. (k, r) \<in> set xs \<Longrightarrow> f (k, r) = Some v \<Longrightarrow> g v = k"
  shows "distinct (map g (List.map_filter f xs)) \<and> g ` set (List.map_filter f xs) \<subseteq> key_set xs"
  using assms
proof (induction xs)
  case (Cons x xs)
  obtain k r where x: "x = (k, r)" by (cases x)
  have IH: "distinct (map g (List.map_filter f xs)) \<and> g ` set (List.map_filter f xs) \<subseteq> key_set xs"
    using Cons.prems by (intro Cons.IH) auto
  show ?case
  proof (cases "f (k, r)")
    case (Some v)
    then have "g v = k" using Cons.prems(2) [of k r v] by (simp add: x)
    then show ?thesis using Some IH Cons.prems(1) by (auto simp: x map_filter_simps)
  qed (use IH in \<open>auto simp: x map_filter_simps\<close>)
qed (simp add: map_filter_simps)

lemma found_users:
  assumes "rows_ok s"
  shows "distinct (map uid (map snd (get_users_by_uids s us)))"
    "v \<in> set (map snd (get_users_by_uids s us)) \<longleftrightarrow> user_at s (uid v) = Some v \<and> uid v \<in> set us"
    "map_of (get_users_by_uids s us) u = (if u \<in> set us then user_at s u else None)"
proof -
  define f where "f = (\<lambda>(k, r :: row). if k \<in> set us then as_user (row_full r) else None)"
  have vals: "map snd (get_users_by_uids s us) = List.map_filter f (db_objects s)"
    by (simp add: get_users_by_uids_def f_def comp_def)
  have uid: "uid v = k" if "(k, r) \<in> set (db_objects s)" "f (k, r) = Some v" for k r v
    using that rows_ok_uid [OF assms] in_set_map_of [OF rows_ok_distinct [OF assms]]
    by (force simp: f_def as_user_Some split: if_splits)
  have distinct: "distinct (map uid (List.map_filter f (db_objects s)))"
    using keyed_values [OF rows_ok_distinct [OF assms], of f uid] uid by blast
  then show "distinct (map uid (map snd (get_users_by_uids s us)))" by (simp add: vals)
  have mem: "v \<in> set (List.map_filter f (db_objects s)) \<longleftrightarrow> user_at s (uid v) = Some v \<and> uid v \<in> set us" for v
  proof
    assume "v \<in> set (List.map_filter f (db_objects s))"
    then obtain k r where kr: "(k, r) \<in> set (db_objects s)" "f (k, r) = Some v" by (auto simp: in_map_filter)
    then have "map_of (db_objects s) k = Some r" using in_set_map_of [OF rows_ok_distinct [OF assms]] by blast
    then show "user_at s (uid v) = Some v \<and> uid v \<in> set us" using kr(2) uid [OF kr]
      by (auto simp: f_def user_at_def read_object_def split: if_splits)
  next
    assume v: "user_at s (uid v) = Some v \<and> uid v \<in> set us"
    then obtain r where "map_of (db_objects s) (uid v) = Some r" "row_full r = OUser v"
      by (auto simp: user_at_read read_object_def)
    then show "v \<in> set (List.map_filter f (db_objects s))"
      using v by (force simp: in_map_filter f_def dest: map_of_SomeD)
  qed
  then show "v \<in> set (map snd (get_users_by_uids s us)) \<longleftrightarrow> user_at s (uid v) = Some v \<and> uid v \<in> set us"
    unfolding vals .
  have keyed: "get_users_by_uids s us = map (\<lambda>v. (uid v, v)) (List.map_filter f (db_objects s))"
    by (simp add: get_users_by_uids_def f_def)
  have dk: "distinct_keys (get_users_by_uids s us)" using distinct by (simp add: keyed distinct_keys_def comp_def)
  show "map_of (get_users_by_uids s us) u = (if u \<in> set us then user_at s u else None)"
  proof (cases "map_of (get_users_by_uids s us) u")
    case None
    then have "u \<notin> uid ` set (List.map_filter f (db_objects s))"
      by (simp add: keyed map_of_eq_None_iff image_image)
    then have "\<not> (u \<in> set us \<and> user_at s u = Some v)" for v
      using mem [of v] stored_user(1) [OF assms, of u v] by (auto simp: image_iff)
    then show ?thesis using None by (cases "user_at s u") auto
  next
    case (Some v)
    then have "(u, v) \<in> set (get_users_by_uids s us)" by (rule map_of_SomeD)
    then have "u = uid v" "v \<in> set (List.map_filter f (db_objects s))" by (auto simp: keyed)
    with Some mem show ?thesis by simp
  qed
qed

text \<open>A batch reads its users where an earlier one left them.\<close>

definition touch_batch :: "instant \<Rightarrow> (user \<Rightarrow> user option) \<Rightarrow> uid list \<Rightarrow> (db, (user \<times> broadcast_data) option list) prog" where
  "touch_batch now upd batch = seq (gets (\<lambda>s. map snd (get_users_by_uids s batch))) (for_each (touch now upd))"

lemma passed_user_at: "passed upd seen s0 s \<Longrightarrow> u \<notin> seen \<Longrightarrow> user_at s u = user_at s0 u"
  by (simp add: passed_def user_at_def split: option.split Option.bind_splits)

lemma touch_batch_run:
  assumes "passed upd seen s0 s" and "keeps_identity upd" and "rows_ok s0" and "set batch \<inter> seen = {}"
  shows "\<exists>outs s'. touch_batch now upd batch s = (Inr outs, s') \<and> passed upd (seen \<union> set batch) s0 s'
    \<and> (\<forall>out \<in> set outs. \<forall>p. out = Some p \<longrightarrow> (\<exists>v. upd v = Some (fst p)))"
proof -
  define vs where "vs = map snd (get_users_by_uids s batch)"
  have ok: "rows_ok s" using assms(1) by (simp add: passed_def)
  have vs: "distinct (map uid vs)" "\<And>v. v \<in> set vs \<longleftrightarrow> user_at s (uid v) = Some v \<and> uid v \<in> set batch"
    using found_users(1) [OF ok, of batch] found_users(2) [OF ok, of _ batch] by (simp_all add: vs_def)
  have "\<forall>v \<in> set vs. user_at s0 (uid v) = Some v \<and> uid v \<notin> seen"
    using vs(2) passed_user_at [OF assms(1)] assms(4) by (metis disjoint_iff)
  then obtain outs s' where s': "for_each (touch now upd) vs s = (Inr outs, s')"
    "passed upd (seen \<union> uid ` set vs) s0 s'" "map (map_option fst) outs = map upd vs"
    using touch_all [OF assms(1-3) vs(1)] by blast
  have memb: "w \<in> seen \<union> uid ` set vs \<longleftrightarrow> w \<in> seen \<union> set batch" if known: "user_at s0 w \<noteq> None" for w
  proof (cases "w \<in> seen")
    case False
    obtain v where v: "user_at s0 w = Some v" using known by blast
    then have "uid v = w" "user_at s w = Some v"
      using stored_user(1) [OF assms(3) v] passed_user_at [OF assms(1) False] by simp_all
    have "w \<in> uid ` set vs \<longleftrightarrow> w \<in> set batch"
    proof
      assume "w \<in> uid ` set vs"
      then obtain v2 where "v2 \<in> set vs" "w = uid v2" by blast
      then show "w \<in> set batch" using vs(2) [of v2] by simp
    next
      assume "w \<in> set batch"
      then have "v \<in> set vs" using vs(2) [of v] \<open>uid v = w\<close> \<open>user_at s w = Some v\<close> by simp
      then show "w \<in> uid ` set vs" using \<open>uid v = w\<close> by blast
    qed
    then show ?thesis by simp
  qed simp
  have "passed upd (seen \<union> uid ` set vs) s0 s' = passed upd (seen \<union> set batch) s0 s'"
    by (rule passed_cong) (rule memb)
  then have "passed upd (seen \<union> set batch) s0 s'" using s'(2) by blast
  moreover have "\<exists>v. upd v = Some (fst p)" if "Some p \<in> set outs" for p
  proof -
    have "map_option fst (Some p) \<in> set (map upd vs)" using that s'(3) by (metis image_eqI list.set_map)
    then show ?thesis by (auto dest: sym)
  qed
  ultimately show ?thesis using s'(1) by (auto simp: touch_batch_def seq_def vs_def)
qed

lemma touch_batches_run:
  assumes "passed upd seen s0 s" and "keeps_identity upd" and "rows_ok s0"
    and "distinct (concat bs)" and "set (concat bs) \<inter> seen = {}"
  shows "\<exists>outs s'. for_each (touch_batch now upd) bs s = (Inr outs, s')
    \<and> passed upd (seen \<union> set (concat bs)) s0 s'"
  using assms
proof (induction bs arbitrary: seen s)
  case (Cons b bs)
  obtain outs s1 where s1: "touch_batch now upd b s = (Inr outs, s1)" "passed upd (seen \<union> set b) s0 s1"
    using touch_batch_run [OF Cons.prems(1-3), of b now] Cons.prems(5) by auto
  have "\<exists>outs s'. for_each (touch_batch now upd) bs s1 = (Inr outs, s')
      \<and> passed upd ((seen \<union> set b) \<union> set (concat bs)) s0 s'"
    by (rule Cons.IH [OF s1(2) Cons.prems(2,3)]) (use Cons.prems(4,5) in auto)
  then show ?case using s1 by (auto simp: seq_def Un_assoc)
qed simp

lemma touch_batches_nothing:
  assumes "rows_ok s" and "\<And>u v. u \<in> set (concat bs) \<Longrightarrow> user_at s u = Some v \<Longrightarrow> upd v = None"
  shows "\<exists>outs. for_each (touch_batch now upd) bs s = (Inr outs, s) \<and> List.map_filter id (concat outs) = []"
  using assms(2)
proof (induction bs)
  case (Cons b bs)
  define vs where "vs = map snd (get_users_by_uids s b)"
  have "\<forall>v \<in> set vs. upd v = None" using found_users(2) [OF assms(1)] Cons.prems by (auto simp: vs_def)
  then have "touch_batch now upd b s = (Inr (map (\<lambda>_. None) vs), s)"
    using touch_nothing [of vs upd now s] by (simp add: touch_batch_def seq_def vs_def)
  moreover have "List.map_filter id (map (\<lambda>_. None) vs) = []" for vs :: "user list"
    by (induction vs) (simp_all add: map_filter_simps)
  moreover have "\<exists>outs. for_each (touch_batch now upd) bs s = (Inr outs, s) \<and> List.map_filter id (concat outs) = []"
    by (rule Cons.IH) (use Cons.prems in auto)
  ultimately show ?case by (auto simp: seq_def map_filter_def)
qed (simp add: map_filter_simps)

lemma concat_chunks: "0 < n \<Longrightarrow> concat (chunks n xs) = xs"
  by (induction n xs rule: chunks.induct) (subst chunks.simps, simp)

section \<open>Ratings\<close>

definition rating_upd :: "instant \<Rightarrow> rating_category \<Rightarrow> (uid \<times> rating_entry list) list \<Rightarrow> user \<Rightarrow> user option" where
  "rating_upd now cat entries u =
     (let r = rating_of_entries (opt_list (map_of entries (uid u)))
      in if user_rating cat u = Some r then None else Some ((set_user_rating cat r u)\<lparr>modified := now\<rparr>))"

lemma store_rating_touch: "store_rating now cat entries = touch now (rating_upd now cat entries)"
  by (rule ext) (simp add: store_rating_def touch_def rating_upd_def Let_def)

lemma store_batch_touch: "store_batch now cat entries = touch_batch now (rating_upd now cat entries)"
  by (rule ext) (simp add: store_batch_def touch_batch_def store_rating_touch)

lemma rating_upd_identity: "keeps_identity (rating_upd now cat entries)"
  by (cases cat) (auto simp: keeps_identity_def rating_upd_def Let_def split: if_splits)

lemma updated_rating:
  "user_rating cat (updated (rating_upd now cat entries) u) = Some (rating_of_entries (opt_list (map_of entries (uid u))))"
  "uid (updated (rating_upd now cat entries) u) = uid u"
  "rating_upd now cat entries (updated (rating_upd now cat entries) u) = None"
  by (cases cat; simp add: updated_def rating_upd_def Let_def)+

lemma category_entries_frame:
  assumes "live_tournaments s = live_tournaments s'" "sanctions s = sanctions s'"
  shows "category_entries now s us cat = category_entries now s' us cat"
proof -
  have "get_sanctions_for_tournament s = get_sanctions_for_tournament s'"
    by (rule ext) (simp add: get_sanctions_for_tournament_def assms(2))
  then have "rate_event s us = rate_event s' us"
    by (intro ext) (simp only: rate_event_def)
  then show ?thesis
    by (simp add: category_entries_def stream_finished_tournaments_for_category_def assms(1))
qed

lemma recompute_ratings_run:
  assumes "rows_ok s"
  shows "\<exists>out s'. recompute_ratings_for_players now us cat s = (Inr out, s')
    \<and> passed (rating_upd now cat (category_entries now s us cat)) (set us) s s'"
proof (cases "us = []")
  case True
  then show ?thesis using passed_start [OF assms] by (auto simp: recompute_ratings_for_players_def)
next
  case False
  define bs where "bs = chunks USER_BATCH (sort (remdups us))"
  have bs: "concat bs = sort (remdups us)" by (simp add: bs_def concat_chunks USER_BATCH_def)
  have "\<exists>outs s'. for_each (touch_batch now (rating_upd now cat (category_entries now s us cat))) bs s = (Inr outs, s')
      \<and> passed (rating_upd now cat (category_entries now s us cat)) ({} \<union> set (concat bs)) s s'"
    by (rule touch_batches_run [OF passed_start [OF assms] rating_upd_identity assms]) (simp_all add: bs)
  then show ?thesis using False
    by (auto simp: recompute_ratings_for_players_def seq_def store_batch_touch bs bs_def [symmetric])
qed

text \<open>C21: Recomputing ratings never fails, gives every player asked for the rating their events make,
  and touches nothing else: no other user, no event, no sanction; a second run finds nothing to
  save.\<close>

theorem ratings_recomputed:
  assumes "rows_ok s"
  shows "case recompute_ratings_for_players now us cat s of
      (Inl _, _) \<Rightarrow> False
    | (Inr out, s') \<Rightarrow> rows_ok s'
        \<and> (\<forall>u. case user_at s u of
            None \<Rightarrow> read_object s' u = read_object s u
          | Some v \<Rightarrow> (if u \<in> set us
              then (\<exists>v'. user_at s' u = Some v' \<and> user_rating cat v'
                = Some (rating_of_entries (opt_list (map_of (category_entries now s us cat) u)))
                \<and> (if user_rating cat v' = user_rating cat v then v' = v
                   else v' = (set_user_rating cat (the (user_rating cat v')) v)\<lparr>modified := now\<rparr>))
              else user_at s' u = Some v))
        \<and> live_tournaments s' = live_tournaments s \<and> sanctions s' = sanctions s
        \<and> recompute_ratings_for_players now us cat s' = (Inr [], s')"
proof -
  define entries where "entries = category_entries now s us cat"
  obtain out s' where run: "recompute_ratings_for_players now us cat s = (Inr out, s')"
    and pass: "passed (rating_upd now cat entries) (set us) s s'"
    using recompute_ratings_run [OF assms] unfolding entries_def by blast
  note facts = pass [unfolded passed_def]
  have at: "user_at s' u = map_option (\<lambda>v. if u \<in> set us then updated (rating_upd now cat entries) v else v) (user_at s u)" for u
    using facts by (simp add: user_at_def [of s'] split: option.split Option.bind_splits)
      (metis as_user_Some bind.bind_lunit bind_eq_None_conv user_at_def)
  have again: "recompute_ratings_for_players now us cat s' = (Inr [], s')"
  proof (cases "us = []")
    case False
    have bs: "set (concat (chunks USER_BATCH (sort (remdups us)))) = set us"
      by (simp add: concat_chunks USER_BATCH_def)
    have "category_entries now s' us cat = entries"
      unfolding entries_def by (rule category_entries_frame) (use facts in simp_all)
    moreover have "rating_upd now cat entries v = None"
      if "u \<in> set (concat (chunks USER_BATCH (sort (remdups us))))" "user_at s' u = Some v" for u v
      using that at [of u] updated_rating(3) [of now cat entries] unfolding bs by auto
    then obtain outs where
      "for_each (touch_batch now (rating_upd now cat entries)) (chunks USER_BATCH (sort (remdups us))) s' = (Inr outs, s')"
      "List.map_filter id (concat outs) = []"
      using touch_batches_nothing [of s' _ "rating_upd now cat entries" now] facts by blast
    ultimately show ?thesis
      using False by (simp add: recompute_ratings_for_players_def seq_def store_batch_touch)
  qed (simp add: recompute_ratings_for_players_def)
  have "case user_at s u of None \<Rightarrow> read_object s' u = read_object s u
      | Some v \<Rightarrow> (if u \<in> set us
          then (\<exists>v'. user_at s' u = Some v' \<and> user_rating cat v' = Some (rating_of_entries (opt_list (map_of entries u)))
            \<and> (if user_rating cat v' = user_rating cat v then v' = v
               else v' = (set_user_rating cat (the (user_rating cat v')) v)\<lparr>modified := now\<rparr>))
          else user_at s' u = Some v)" for u
  proof (cases "user_at s u")
    case None
    then show ?thesis using facts by simp
  next
    case (Some v)
    then have "uid v = u" by (rule stored_user(1) [OF assms])
    moreover have "updated (rating_upd now cat entries) v
        = (if user_rating cat v = Some (rating_of_entries (opt_list (map_of entries (uid v)))) then v
           else (set_user_rating cat (rating_of_entries (opt_list (map_of entries (uid v)))) v)\<lparr>modified := now\<rparr>)"
      by (simp add: updated_def rating_upd_def Let_def)
    ultimately show ?thesis
      using at [of u] Some updated_rating(1) [of cat now entries v] by auto
  qed
  then show ?thesis unfolding run prod.case sum.case using facts again unfolding entries_def by blast
qed

text \<open>The events of a category's window, and whether one adds to a player's rating\<close>

definition window_events :: "instant \<Rightarrow> db \<Rightarrow> rating_category \<Rightarrow> tournament list" where
  "window_events now s cat = concat (map (\<lambda>fmt. stream_finished_tournaments_for_category s fmt
     (category_online cat) (rating_cutoff now)) (category_formats cat))"

definition earns_entry :: "db \<Rightarrow> uid \<Rightarrow> tournament \<Rightarrow> bool" where
  "earns_entry s u t \<longleftrightarrow> u \<in> set (rated_players t) \<and> ranking_eligibility t = EL_ELIGIBLE
     \<and> \<not> is_disqualified t (get_sanctions_for_tournament s (uid t)) u \<and> \<not> is_non_competing t u"

lemma rated_players_distinct: "distinct (rated_players t)"
  by (simp add: rated_players_def)

lemma fold_append_entry:
  assumes "distinct players"
  shows "map_of (fold (\<lambda>u d. if P u then d else if Q u then d else put u (opt_list (map_of d u) @ [f u]) d) players d) u
    = (if u \<in> set players \<and> \<not> P u \<and> \<not> Q u then Some (opt_list (map_of d u) @ [f u]) else map_of d u)"
  using assms by (induction players arbitrary: d) auto

lemma rate_event_entries:
  "map_of (rate_event s us t d) u = (if u \<in> set us \<and> earns_entry s u t
     then Some (opt_list (map_of d u) @ [compute_entry_sync t u (get_sanctions_for_tournament s (uid t))])
     else map_of d u)"
proof -
  have players: "distinct (filter (\<lambda>u. u \<in> set us) (rated_players t))" using rated_players_distinct by simp
  show ?thesis
    by (auto simp: rate_event_def Let_def fold_append_entry [OF players] earns_entry_def compute_entry_sync_def filter_empty_conv)
qed

lemma rate_events_entries:
  "u \<in> set us \<Longrightarrow> map_of d u = Some es \<Longrightarrow> map_of (fold (rate_event s us) ts d) u
    = Some (es @ map (\<lambda>t. compute_entry_sync t u (get_sanctions_for_tournament s (uid t))) (filter (earns_entry s u) ts))"
proof (induction ts arbitrary: d es)
  case (Cons t ts)
  show ?case
  proof (cases "earns_entry s u t")
    case True
    then have "map_of (rate_event s us t d) u
        = Some (es @ [compute_entry_sync t u (get_sanctions_for_tournament s (uid t))])"
      using Cons.prems by (simp add: rate_event_entries opt_list_def)
    from Cons.IH [OF Cons.prems(1) this] True show ?thesis by simp
  next
    case False
    then have "map_of (rate_event s us t d) u = Some es" using Cons.prems by (simp add: rate_event_entries)
    from Cons.IH [OF Cons.prems(1) this] False show ?thesis by simp
  qed
qed simp

lemma fold_concat_events: "fold (\<lambda>x. fold f (g x)) xs d = fold f (concat (map g xs)) d"
  by (induction xs arbitrary: d) simp_all



theorem ratings_recomputed_witness:
  "rows_ok (snd (recompute_ratings_for_players (Instant 2026 3 31 0) [''u''] LIMITED_OFFLINE empty_db))"
  using ratings_recomputed [where s = empty_db and now = "Instant 2026 3 31 0" and us = "[''u'']" and cat = LIMITED_OFFLINE]
    empty_db_ok
  by (auto simp: db_ok_def split: prod.splits sum.splits)

section \<open>The Hall of Fame\<close>

definition hof_wins :: "db \<Rightarrow> uid \<Rightarrow> uid list" where
  "hof_wins s u = sort (map uid (filter (\<lambda>t. hof_row s t \<and> win_qualifies t \<and> t_winner t = u) (live_tournaments s)))"

lemma collect_wins_of:
  "opt_list (map_of (collect_wins ts wins) u)
    = opt_list (map_of wins u) @ map uid (filter (\<lambda>t. win_qualifies t \<and> t_winner t = u) ts)"
proof (induction ts arbitrary: wins)
  case (Cons t ts)
  show ?case
    using Cons.IH [of "put (t_winner t) (opt_list (map_of wins (t_winner t)) @ [uid t]) wins"] Cons.IH [of wins]
    by (auto simp: collect_wins_def opt_list_def)
qed (simp add: collect_wins_def)

lemma collect_wins_keys:
  "key_set (collect_wins ts wins) = key_set wins \<union> t_winner ` set (filter win_qualifies ts)"
proof (induction ts arbitrary: wins)
  case (Cons t ts)
  show ?case
    using Cons.IH [of "put (t_winner t) (opt_list (map_of wins (t_winner t)) @ [uid t]) wins"] Cons.IH [of wins]
    by (auto simp: collect_wins_def)
qed (simp add: collect_wins_def)

lemma fold_collect_wins: "fold collect_wins pages wins = collect_wins (concat pages) wins"
  by (induction pages arbitrary: wins) (simp_all add: collect_wins_def)

lemma live_tournament_uids:
  assumes "rows_ok s"
  shows "distinct (map uid (live_tournaments s))"
proof -
  define f where "f = (\<lambda>kr :: uid \<times> row. if row_deleted_at (snd kr) = None then as_tournament (row_full (snd kr)) else None)"
  have live: "live_tournaments s = List.map_filter f (db_objects s)"
    unfolding live_tournaments_def live_rows_def rows_def map_filter_filter
    by (simp add: f_def map_filter_def comp_def filter_map)
  have uid: "uid t = k" if "(k, r) \<in> set (db_objects s)" "f (k, r) = Some t" for k r t
    using that rows_ok_uid [OF assms] in_set_map_of [OF rows_ok_distinct [OF assms]]
    by (cases "row_full r") (force simp: f_def split: if_splits)+
  show ?thesis unfolding live using keyed_values [OF rows_ok_distinct [OF assms], of f uid] uid by blast
qed

lemma all_wins_of:
  assumes "rows_ok s" and "list_all (\<lambda>t. uid t \<noteq> []) (live_tournaments s)"
    and "case winners of None \<Rightarrow> True | Some ws \<Rightarrow> u \<in> set ws"
  shows "sort (opt_list (map_of (get_all_tournament_wins s winners) u)) = hof_wins s u"
proof (cases winners)
  case None
  define xs where "xs = filter (hof_row s) (live_tournaments s)"
  have d: "distinct (map uid xs)" using live_tournament_uids [OF assms(1)] by (simp add: xs_def distinct_map_filter)
  have "filter (\<lambda>t. [] < uid t) xs = xs"
    unfolding filter_id_conv xs_def
  proof
    fix t assume "t \<in> set (filter (hof_row s) (live_tournaments s))"
    then have "uid t \<noteq> []" using assms(2) by (simp add: list_all_iff)
    then show "[] < uid t" by (cases "uid t") simp_all
  qed
  then have "concat (pages_after uid HOF_WINS_BATCH [] xs) = sort_key uid xs"
    using concat_pages_after [OF d, of HOF_WINS_BATCH "[]"] by (simp add: HOF_WINS_BATCH_def)
  then have "opt_list (map_of (get_all_tournament_wins s winners) u)
      = map uid (filter (\<lambda>t. win_qualifies t \<and> t_winner t = u) (sort_key uid xs))"
    by (simp add: get_all_tournament_wins_def None fold_collect_wins xs_def [symmetric] collect_wins_of) (simp add: opt_list_def)
  moreover have "sort (map uid (filter P (sort_key uid xs))) = sort (map uid (filter P xs))" for P
  proof -
    have "mset (map uid (filter P (sort_key uid xs))) = mset (map uid (filter P xs))" by simp
    from arg_cong [OF this, of sorted_list_of_multiset] show ?thesis by (simp only: sorted_list_of_multiset_mset)
  qed
  ultimately show ?thesis by (simp add: hof_wins_def xs_def conj_ac)
next
  case (Some ws)
  then have ws: "u \<in> set ws" "ws \<noteq> []" using assms(3) by auto
  have "filter (\<lambda>t. win_qualifies t \<and> t_winner t = u) (filter (\<lambda>t. hof_row s t \<and> t_winner t \<in> set ws) (live_tournaments s))
      = filter (\<lambda>t. hof_row s t \<and> win_qualifies t \<and> t_winner t = u) (live_tournaments s)"
    unfolding filter_filter by (rule filter_cong) (use ws(1) in auto)
  then have "opt_list (map_of (get_all_tournament_wins s winners) u)
      = map uid (filter (\<lambda>t. hof_row s t \<and> win_qualifies t \<and> t_winner t = u) (live_tournaments s))"
    using ws(2) by (simp add: get_all_tournament_wins_def Some collect_wins_of) (simp add: opt_list_def)
  then show ?thesis by (simp add: hof_wins_def)
qed

definition wins_upd :: "instant \<Rightarrow> (uid \<times> uid list) list \<Rightarrow> user \<Rightarrow> user option" where
  "wins_upd now wins u = (let new = sort (opt_list (map_of wins (uid u)))
     in if new = u_wins u then None else Some (u\<lparr>u_wins := new, modified := now\<rparr>))"

lemma wins_upd_identity: "keeps_identity (wins_upd now wins)"
  by (auto simp: keeps_identity_def wins_upd_def Let_def split: if_splits)

lemma updated_wins:
  "updated (wins_upd now wins) u = (let new = sort (opt_list (map_of wins (uid u)))
     in if new = u_wins u then u else u\<lparr>u_wins := new, modified := now\<rparr>)"
  by (simp add: updated_def wins_upd_def Let_def)

lemma store_wins_touch:
  assumes "map_of found u = Some v" and "uid v = u"
  shows "store_wins now wins found u = touch now (wins_upd now wins) v"
  using assms by (simp add: store_wins_def touch_def wins_upd_def Let_def)

lemma store_wins_all:
  assumes "passed (wins_upd now wins) seen s0 s" and "rows_ok s0" and "distinct us" and "set us \<inter> seen = {}"
    and "\<And>u. u \<in> set us \<Longrightarrow> map_of found u = user_at s0 u"
  shows "\<exists>outs s'. for_each (store_wins now wins found) us s = (Inr outs, s')
    \<and> passed (wins_upd now wins) (seen \<union> set us) s0 s'"
  using assms
proof (induction us arbitrary: seen s)
  case (Cons u us)
  have "\<exists>out s1. store_wins now wins found u s = (Inr out, s1) \<and> passed (wins_upd now wins) (insert u seen) s0 s1"
  proof (cases "user_at s0 u")
    case None
    have "passed (wins_upd now wins) seen s0 s = passed (wins_upd now wins) (insert u seen) s0 s"
      by (rule passed_cong) (use None in auto)
    then show ?thesis using None Cons.prems(1,5) by (simp add: store_wins_def)
  next
    case (Some v)
    then have "uid v = u" by (rule stored_user(1) [OF Cons.prems(2)])
    then show ?thesis
      using touch_step [OF Cons.prems(1) wins_upd_identity Cons.prems(2), of v now] Some Cons.prems(4,5)
        store_wins_touch [of found u v now wins] by auto
  qed
  then obtain out s1 where s1: "store_wins now wins found u s = (Inr out, s1)"
    "passed (wins_upd now wins) (insert u seen) s0 s1" by blast
  have "\<exists>outs s'. for_each (store_wins now wins found) us s1 = (Inr outs, s')
      \<and> passed (wins_upd now wins) (insert u seen \<union> set us) s0 s'"
    by (rule Cons.IH [OF s1(2) Cons.prems(2)]) (use Cons.prems(3-5) in auto)
  then show ?case using s1 by (auto simp: seq_def)
qed simp

text \<open>Whose list a recomputation rewrites\<close>

definition wins_scope :: "db \<Rightarrow> uid list option \<Rightarrow> uid list" where
  "wins_scope s winners = remdups (case winners of Some ws \<Rightarrow> ws
     | None \<Rightarrow> map fst (get_all_tournament_wins s None) @ get_user_uids_with_wins s)"

lemma recompute_wins_run:
  assumes "rows_ok s"
  shows "\<exists>outs s'. recompute_wins now winners s = (Inr (List.map_filter id outs), s')
    \<and> for_each (store_wins now (get_all_tournament_wins s winners) (get_users_by_uids s (wins_scope s winners)))
        (wins_scope s winners) s = (Inr outs, s')
    \<and> passed (wins_upd now (get_all_tournament_wins s winners)) (set (wins_scope s winners)) s s'"
proof -
  have scope: "remdups (case winners of Some ws \<Rightarrow> ws | None \<Rightarrow> map fst (get_all_tournament_wins s winners)
      @ get_user_uids_with_wins s) = wins_scope s winners"
    by (cases winners) (simp_all add: wins_scope_def)
  have "\<exists>outs s'. for_each (store_wins now (get_all_tournament_wins s winners) (get_users_by_uids s (wins_scope s winners)))
        (wins_scope s winners) s = (Inr outs, s')
      \<and> passed (wins_upd now (get_all_tournament_wins s winners)) ({} \<union> set (wins_scope s winners)) s s'"
    by (rule store_wins_all [OF passed_start [OF assms] assms]) (simp_all add: wins_scope_def found_users(3) [OF assms])
  then show ?thesis by (auto simp: recompute_wins_def seq_def scope)
qed

lemma live_users_iff:
  assumes "rows_ok s"
  shows "v \<in> set (live_users s) \<longleftrightarrow> live_user s (uid v) = Some v"
proof -
  have "v \<in> set (live_users s) \<longleftrightarrow> (\<exists>k r. (k, r) \<in> set (db_objects s) \<and> row_deleted_at r = None \<and> row_full r = OUser v)"
    by (auto simp: live_users_def live_rows_def rows_def in_map_filter image_iff as_user_Some) (metis snd_conv)
  also have "\<dots> \<longleftrightarrow> (\<exists>k r. map_of (db_objects s) k = Some r \<and> row_deleted_at r = None \<and> row_full r = OUser v)"
    using in_set_map_of [OF rows_ok_distinct [OF assms]] by blast
  also have "\<dots> \<longleftrightarrow> live_user s (uid v) = Some v"
    using rows_ok_uid [OF assms]
    by (auto simp: live_user_def as_user_Some split: Option.bind_splits if_splits) force+
  finally show ?thesis .
qed

text \<open>The Hall of Fame counts exactly the wins that would have made the archive: after a
  recomputation each member in scope has the sorted list of the live qualifying events they won,
  whoever is out of scope is left alone, and the pass never fails.\<close>

theorem wins_recomputed:
  assumes "rows_ok s" and "list_all (\<lambda>t. uid t \<noteq> []) (live_tournaments s)"
  shows "case recompute_wins now winners s of
      (Inl _, _) \<Rightarrow> False
    | (Inr out, s') \<Rightarrow> rows_ok s'
        \<and> (\<forall>u. case user_at s u of None \<Rightarrow> read_object s' u = read_object s u
          | Some v \<Rightarrow>
             (let skipped = (case winners of Some ws \<Rightarrow> u \<notin> set ws
                | None \<Rightarrow> live_user s u = None \<and> u \<notin> key_set (get_all_tournament_wins s None))
              in user_at s' u = Some (if skipped \<or> u_wins v = hof_wins s u then v
                   else v\<lparr>u_wins := hof_wins s u, modified := now\<rparr>)))
        \<and> live_tournaments s' = live_tournaments s"
proof -
  define wins where "wins = get_all_tournament_wins s winners"
  define scope where "scope = wins_scope s winners"
  obtain outs s' where run: "recompute_wins now winners s = (Inr (List.map_filter id outs), s')"
    and pass: "passed (wins_upd now wins) (set scope) s s'"
    using recompute_wins_run [OF assms(1), of now winners] unfolding wins_def scope_def by blast
  note facts = pass [unfolded passed_def]
  have at: "user_at s' u = map_option (\<lambda>v. if u \<in> set scope then updated (wins_upd now wins) v else v) (user_at s u)" for u
    using facts by (simp add: user_at_def [of s'] split: option.split Option.bind_splits)
      (metis as_user_Some bind.bind_lunit bind_eq_None_conv user_at_def)
  have "case user_at s u of None \<Rightarrow> read_object s' u = read_object s u
      | Some v \<Rightarrow> (let skipped = (case winners of Some ws \<Rightarrow> u \<notin> set ws
            | None \<Rightarrow> live_user s u = None \<and> u \<notin> key_set (get_all_tournament_wins s None))
          in user_at s' u = Some (if skipped \<or> u_wins v = hof_wins s u then v
               else v\<lparr>u_wins := hof_wins s u, modified := now\<rparr>))" for u
  proof (cases "user_at s u")
    case None
    then show ?thesis using facts by simp
  next
    case (Some v)
    then have v: "uid v = u" by (rule stored_user(1) [OF assms(1)])
    have won: "sort (opt_list (map_of wins u)) = hof_wins s u" if "case winners of None \<Rightarrow> True | Some ws \<Rightarrow> u \<in> set ws"
      using all_wins_of [OF assms that] by (simp add: wins_def)
    show ?thesis
    proof (cases winners)
      case (Some ws)
      then have "u \<in> set scope \<longleftrightarrow> u \<in> set ws" by (simp add: scope_def wins_scope_def)
      then show ?thesis using at [of u] \<open>user_at s u = Some v\<close> won Some v by (simp add: updated_wins Let_def)
    next
      case None
      have scope: "u \<in> set scope \<longleftrightarrow> u \<in> key_set wins \<or> (\<exists>w \<in> set (live_users s). u_wins w \<noteq> [] \<and> uid w = u)"
        by (auto simp: scope_def wins_scope_def None wins_def key_set_def get_user_uids_with_wins_def)
      have same: "w = v" if "live_user s u = Some w" for w
        using that \<open>user_at s u = Some v\<close>
        by (auto simp: live_user_def user_at_def read_object_def split: Option.bind_splits if_splits)
      have live: "w \<in> set (live_users s) \<and> uid w = u \<longleftrightarrow> live_user s u = Some w" for w
        using live_users_iff [OF assms(1), of w] same v by auto
      show ?thesis
      proof (cases "u \<in> set scope")
        case True
        then have "\<not> (live_user s u = None \<and> u \<notin> key_set wins)" using scope live by auto
        then show ?thesis using at [of u] \<open>user_at s u = Some v\<close> won None v True
          by (auto simp: updated_wins Let_def wins_def)
      next
        case False
        then have "u \<notin> key_set wins" "live_user s u = Some w \<Longrightarrow> u_wins w = []" for w using scope live by blast+
        moreover from this(1) have "hof_wins s u = []" using won None
          by (simp add: map_of_None_keys [symmetric] opt_list_def)
        ultimately show ?thesis using at [of u] \<open>user_at s u = Some v\<close> None False same
          by (cases "live_user s u") (auto simp: wins_def Let_def)
      qed
    qed
  qed
  then show ?thesis unfolding run prod.case sum.case using facts by blast
qed

theorem wins_recomputed_witness:
  "rows_ok (snd (recompute_wins (Instant 2026 3 31 0) (Some [''u'']) empty_db))"
  using wins_recomputed [where s = empty_db and now = "Instant 2026 3 31 0" and winners = "Some [''u'']"] empty_db_ok
  by (auto simp: db_ok_def live_tournaments_def live_rows_def rows_def empty_db_def map_filter_simps
      split: prod.splits sum.splits)

end
