(* ===== verification/Standings_Laws.thy ===== *)
theory Standings_Laws
  imports Standings
begin

text \<open>
  What the standings promise: where an adjustment lands, who the preliminary sheet lists, that final
  placement loses nobody, and that recomputing a tournament's standings is a function of the games
  played, so that a second run changes nothing.
\<close>

section \<open>Where a standings adjustment lands\<close>

lemma effective_round_seated: "effective_round t u stored = Some r \<Longrightarrow> seated_in t u r \<and> r \<le> length (t_rounds t)"
  by (auto simp: effective_round_def Let_def find_Some_iff rev_nth split: if_splits)

lemma effective_round_found:
  assumes "seated_in t u r" and "r \<le> length (t_rounds t)"
  shows "effective_round t u stored \<noteq> None"
proof -
  have "r \<in> set (rev [0..<Suc (length (t_rounds t))])" using assms(2) by (simp del: upt_Suc)
  then have "find (seated_in t u) (rev [0..<Suc (length (t_rounds t))]) \<noteq> None"
    using assms(1) unfolding find_None_iff by blast
  then show ?thesis unfolding effective_round_def Let_def by simp
qed

text \<open>A standings adjustment always lands on a table its player scored at: the stored round if
  they were seated there, else the latest one they were, the final counting last; it is dropped
  only when they never sat down, and several adjustments add up.\<close>

theorem adjustments_land_where_seated:
  "list_all (\<lambda>(u, r). seated_in t u r \<and> r \<le> length (t_rounds t)) (resolve_sa_effective_rounds t ss)
   \<and> map fst (resolve_sa_effective_rounds t ss)
     = filter (\<lambda>u. list_ex (seated_in t u) [0..<Suc (length (t_rounds t))]) (map fst (get_sa_sanctions ss))"
proof -
  have "list_all (\<lambda>(u, r). seated_in t u r \<and> r \<le> length (t_rounds t))
        (List.map_filter (\<lambda>(u, stored). map_option (Pair u) (effective_round t u stored)) xs)
    \<and> map fst (List.map_filter (\<lambda>(u, stored). map_option (Pair u) (effective_round t u stored)) xs)
      = filter (\<lambda>u. list_ex (seated_in t u) [0..<Suc (length (t_rounds t))]) (map fst xs)" for xs
  proof (induction xs)
    case (Cons x xs)
    obtain u stored where x: "x = (u, stored)" by (cases x)
    show ?case
    proof (cases "effective_round t u stored")
      case None
      then have "\<not> list_ex (seated_in t u) [0..<Suc (length (t_rounds t))]"
        using effective_round_found [of t u _ stored] by (auto simp: list_ex_iff less_Suc_eq_le simp del: upt_Suc)
      with None Cons x show ?thesis by (simp add: map_filter_simps)
    next
      case (Some r)
      then have "seated_in t u r" "r \<le> length (t_rounds t)" using effective_round_seated by blast+
      then have "list_ex (seated_in t u) [0..<Suc (length (t_rounds t))]"
        by (auto simp: list_ex_iff less_Suc_eq_le simp del: upt_Suc)
      with Some Cons x \<open>seated_in t u r\<close> \<open>r \<le> length (t_rounds t)\<close> show ?thesis
        by (simp add: map_filter_simps del: upt_Suc)
    qed
  qed (simp add: map_filter_simps)
  then show ?thesis by (simp add: resolve_sa_effective_rounds_def)
qed

section \<open>The preliminary sheet\<close>

lemma tally_seats_keys:
  assumes "distinct_keys m"
  shows "distinct_keys (tally_seats seats m)
    \<and> key_set (tally_seats seats m) = key_set m \<union> (seat_player_uid ` fst ` set seats - {[]})"
  using assms unfolding tally_seats_def
proof (induction seats arbitrary: m)
  case (Cons x seats)
  obtain s g v p where x: "x = (s, g, v, p)" by (cases x)
  show ?case
    using Cons.IH Cons.prems by (auto simp: x Let_def)
qed simp

lemma score_table_lengths:
  assumes "length vps = length seating"
  shows "length (fst (score_table seating vps r sas seeds)) = length seating"
    "length (snd (score_table seating vps r sas seeds)) = length seating"
  using assms
  by (auto simp: score_table_def compute_gw_def compute_gw_finals_def compute_tp_def adjusted_def
      table_sa_adjustments_def Let_def split: option.split)

lemma length_seat_vps [simp]: "length (seat_vps seating) = length seating"
  by (simp add: seat_vps_def)

definition scored_uids :: "table list \<Rightarrow> uid set" where
  "scored_uids tables = (\<Union>tb \<in> set tables. if tb_state tb = TS_FINISHED
     then seat_player_uid ` set (tb_seating tb) - {[]} else {})"

lemma tally_table_keys:
  assumes "distinct_keys m"
  shows "distinct_keys (tally_table sas r tb m) \<and> key_set (tally_table sas r tb m) = key_set m \<union> scored_uids [tb]"
proof (cases "tb_state tb = TS_FINISHED")
  case True
  obtain gws tps where st: "score_table (tb_seating tb) (seat_vps (tb_seating tb)) r sas None = (gws, tps)"
    by (cases "score_table (tb_seating tb) (seat_vps (tb_seating tb)) r sas None")
  then have "length gws = length (tb_seating tb)" "length tps = length (tb_seating tb)"
    using score_table_lengths [of "seat_vps (tb_seating tb)" "tb_seating tb" r sas None] by simp_all
  then have "fst ` set (zip (tb_seating tb) (zip gws (zip (seat_vps (tb_seating tb)) tps))) = set (tb_seating tb)"
    by (metis (no_types, lifting) length_seat_vps length_zip list.set_map map_fst_zip min.idem)
  with True st tally_seats_keys [OF assms] show ?thesis
    by (simp add: tally_table_def scored_uids_def Let_def)
qed (simp add: tally_table_def scored_uids_def assms)

lemma tally_tables_keys:
  "distinct_keys m \<Longrightarrow> distinct_keys (fold (tally_table sas r) tables m)
    \<and> key_set (fold (tally_table sas r) tables m) = key_set m \<union> scored_uids tables"
proof (induction tables arbitrary: m)
  case (Cons tb tables)
  then show ?case
    using tally_table_keys [of m sas r tb] Cons.IH [of "tally_table sas r tb m"]
    by (auto simp: scored_uids_def)
qed (simp add: scored_uids_def)

lemma tallies_keys:
  "distinct_keys (tallies t sas) \<and> key_set (tallies t sas) = scored_uids (concat (t_rounds t))"
proof -
  have "distinct_keys m \<Longrightarrow> distinct_keys (fold (\<lambda>(r, tables) m. fold (tally_table sas r) tables m) (enumerate n rs) m)
      \<and> key_set (fold (\<lambda>(r, tables) m. fold (tally_table sas r) tables m) (enumerate n rs) m)
        = key_set m \<union> scored_uids (concat rs)" for m n rs
  proof (induction rs arbitrary: m n)
    case (Cons tables rs)
    then show ?case
      using tally_tables_keys [of m sas n tables] Cons.IH [of "fold (tally_table sas n) tables m" "Suc n"]
      by (auto simp: scored_uids_def)
  qed (simp add: scored_uids_def)
  from this [of "[]" 0] show ?thesis by (simp add: tallies_def)
qed

text \<open>The preliminary sheet lists exactly the players seated at a finished table, each once, in
  rank order; whoever is disqualified forfeits their score but stays listed, last with the
  proxies.\<close>

theorem preliminary_sheet_lists_scored_players:
  "set (map se_user_uid (compute_preliminary_standings t ss)) = scored_uids (concat (t_rounds t))
   \<and> distinct (map se_user_uid (compute_preliminary_standings t ss))
   \<and> sorted (map rank_key (compute_preliminary_standings t ss))
   \<and> list_all (\<lambda>s. se_disqualified s = ((case player_of t (se_user_uid s) of None \<Rightarrow> False
          | Some p \<Rightarrow> pl_state p = DISQUALIFIED) \<or> has_dq_sanction ss (se_user_uid s))
        \<and> (if se_disqualified s then se_gw s = 0 \<and> se_vp s = 0 \<and> se_tp s = 0 else True))
       (compute_preliminary_standings t ss)"
proof -
  define sas where "sas = resolve_sa_effective_rounds t ss"
  define entry where "entry = standing_of t ss (filter (\<lambda>sa. snd sa < length (t_rounds t)) sas)"
  have sheet: "compute_preliminary_standings t ss = sort_by_rank (map entry (tallies t sas))"
    by (simp add: compute_preliminary_standings_def sas_def entry_def Let_def)
  have entry_uid: "se_user_uid (entry ut) = fst ut" for ut
    by (simp add: entry_def standing_of_def Let_def split: prod.split)
  note keys = tallies_keys [of t sas, unfolded distinct_keys_def key_set_def]
  have "set (map se_user_uid (compute_preliminary_standings t ss)) = scored_uids (concat (t_rounds t))"
    using keys by (simp add: sheet sort_by_rank_def image_image entry_uid)
  moreover have "distinct (map se_user_uid (compute_preliminary_standings t ss))"
  proof -
    have "distinct (map se_user_uid (map entry (tallies t sas)))" using keys by (simp add: comp_def entry_uid)
    moreover have "mset (map se_user_uid (sort_by_rank (map entry (tallies t sas)))) = mset (map se_user_uid (map entry (tallies t sas)))"
      by (simp add: sort_by_rank_def multiset.map_comp comp_def)
    ultimately show ?thesis unfolding sheet by (metis mset_eq_imp_distinct_iff)
  qed
  moreover have "sorted (map rank_key (compute_preliminary_standings t ss))"
    by (simp add: sheet sort_by_rank_def)
  moreover have "list_all (\<lambda>s. se_disqualified s = ((case player_of t (se_user_uid s) of None \<Rightarrow> False
          | Some p \<Rightarrow> pl_state p = DISQUALIFIED) \<or> has_dq_sanction ss (se_user_uid s))
        \<and> (if se_disqualified s then se_gw s = 0 \<and> se_vp s = 0 \<and> se_tp s = 0 else True))
       (compute_preliminary_standings t ss)"
    by (auto simp: sheet sort_by_rank_def list_all_iff entry_def standing_of_def Let_def)
  ultimately show ?thesis by blast
qed

section \<open>Final placement\<close>

lemma place_rest_standings: "map pc_standing (place_rest winner start idx rank prev ss) = ss"
  by (induction ss arbitrary: idx rank prev) (simp_all add: place_def Let_def)

lemma place_rest_ranks:
  assumes "rank \<le> start + idx"
  shows "sorted (map pc_rank (place_rest winner start idx rank prev ss))
    \<and> (\<forall>p \<in> set (place_rest winner start idx rank prev ss). rank \<le> pc_rank p \<and> pc_rank p < start + idx + length ss)"
  using assms
proof (induction ss arbitrary: idx rank prev)
  case (Cons s ss)
  define rank' where "rank' = (if prev = Some (place_key s) then rank else start + idx)"
  have rank': "rank \<le> rank'" "rank' \<le> start + idx" using Cons.prems by (auto simp: rank'_def)
  note IH = Cons.IH [of rank' "Suc idx" "Some (place_key s)"]
  show ?case using IH rank' by (force simp: rank'_def [symmetric] Let_def place_def)
qed simp

lemma sorted_map_const: "sorted (map (\<lambda>_. c) xs)"
  by (induction xs) auto

lemma sorted_enumerate_ranks: "sorted (map (\<lambda>(i, s). c + i) (enumerate n xs)) \<and> (\<forall>x \<in> set (map (\<lambda>(i, s). c + i) (enumerate n xs)). c + n \<le> x)"
  for c :: nat
  by (induction xs arbitrary: n) fastforce+

lemma place_fields [simp]: "pc_standing (place w r fp s) = s" "pc_rank (place w r fp s) = r"
  by (simp_all add: place_def)

lemma place_excluded:
  "map pc_standing (map (\<lambda>(i, s). place w (c + i) 0 s) (enumerate n ss)) = ss"
  "map pc_rank (map (\<lambda>(i, s). place w (c + i) 0 s) (enumerate n ss)) = map ((+) c) [n..<n + length ss]"
  by (induction ss arbitrary: n) (simp_all add: upt_conv_Cons del: upt_Suc)

lemma sorted_shift: "sorted (map ((+) (c :: nat)) [0..<n])"
  by (simp add: sorted_wrt_map)

lemma at_most_one_row:
  assumes "distinct (map f xs)"
  shows "length (filter (\<lambda>x. f x = y \<and> P x) xs) \<le> 1"
  using assms
proof (induction xs)
  case (Cons x xs)
  then show ?case by (cases "f x = y") (auto simp: filter_empty_conv image_iff)
qed simp

lemma mset_filter_split3:
  "mset (filter P xs) + mset (filter (\<lambda>x. \<not> P x \<and> Q x) xs) + mset (filter (\<lambda>x. \<not> P x \<and> \<not> Q x) xs) = mset xs"
  by (induction xs) auto

lemma length_filter_split3:
  "length (filter P xs) + length (filter (\<lambda>x. \<not> P x \<and> Q x) xs) + length (filter (\<lambda>x. \<not> P x \<and> \<not> Q x) xs) = length xs"
  by (induction xs) auto

lemma mset_filter_split2: "mset (filter (\<lambda>x. \<not> P x) xs) + mset (filter P xs) = mset xs"
  by (induction xs) auto

text \<open>The four groups of a placement and the ranks they get.\<close>

lemma final_placement:
  assumes "distinct (map st_user_uid ss)"
  obtains wins fins rest excl where
    "map pc_standing (compute_final_standings ss winner) = wins @ fins @ map pc_standing rest @ excl"
    "compute_final_standings ss winner = map (place winner 1 (if final_played ss then 1 else 0)) wins
       @ map (place winner 2 2) fins @ rest
       @ map (\<lambda>(i, s). place winner (length wins + length fins + length rest + 1 + i) 0 s) (enumerate 0 excl)"
    "mset wins + mset fins + mset (map pc_standing rest) = mset (filter (\<lambda>s. \<not> excluded_row winner s) ss)"
    "excl = filter (excluded_row winner) ss"
    "wins = filter (\<lambda>s. winner \<noteq> [] \<and> st_user_uid s = winner \<and> \<not> excluded_row winner s) ss" "length wins \<le> 1"
    "sorted (map pc_rank rest)"
    "\<And>p. p \<in> set rest \<Longrightarrow> length wins + length fins < pc_rank p \<and> pc_rank p \<le> length wins + length fins + length rest"
proof -
  define present where "present = (winner \<noteq> [] \<and> list_ex (\<lambda>s. st_user_uid s = winner) ss)"
  define competing where "competing = filter (\<lambda>s. \<not> excluded_row winner s) ss"
  define wins where "wins = filter (\<lambda>s. present \<and> st_user_uid s = winner) competing"
  define fins where "fins = filter (\<lambda>s. \<not> (present \<and> st_user_uid s = winner) \<and> st_finalist s) competing"
  define others where "others = filter (\<lambda>s. \<not> (present \<and> st_user_uid s = winner) \<and> \<not> st_finalist s) competing"
  define excl where "excl = filter (excluded_row winner) ss"
  define rest where "rest = place_rest winner (length wins + length fins + 1) 0 (length wins + length fins + 1) None others"
  have wins_le: "length wins \<le> 1"
    using at_most_one_row [OF assms, of winner "\<lambda>s. \<not> excluded_row winner s \<and> present"]
    by (simp add: wins_def competing_def conj_ac)
  then have wins: "(if wins = [] then [] else [last wins]) = wins" by (cases wins) auto
  have others: "map pc_standing rest = others" by (simp add: rest_def place_rest_standings)
  have sheet: "compute_final_standings ss winner = map (place winner 1 (if final_played ss then 1 else 0)) wins
      @ map (place winner 2 2) fins @ rest
      @ map (\<lambda>(i, s). place winner (length wins + length fins + length rest + 1 + i) 0 s) (enumerate 0 excl)"
    unfolding compute_final_standings_def Let_def present_def [symmetric] competing_def [symmetric]
      wins_def [symmetric] fins_def [symmetric] others_def [symmetric] excl_def [symmetric] wins rest_def
    by (simp only: map_map arg_cong [OF others, of length, unfolded length_map, unfolded rest_def])
  show thesis
  proof (rule that [of wins fins rest excl])
    show "map pc_standing (compute_final_standings ss winner) = wins @ fins @ map pc_standing rest @ excl"
      unfolding sheet map_append place_excluded by (simp add: comp_def)
    show "mset wins + mset fins + mset (map pc_standing rest) = mset (filter (\<lambda>s. \<not> excluded_row winner s) ss)"
      unfolding others wins_def fins_def others_def competing_def [symmetric] by (rule mset_filter_split3)
    show "wins = filter (\<lambda>s. winner \<noteq> [] \<and> st_user_uid s = winner \<and> \<not> excluded_row winner s) ss"
      unfolding wins_def competing_def filter_filter present_def by (rule filter_cong) (auto simp: list_ex_iff)
    show "sorted (map pc_rank rest)"
      "\<And>p. p \<in> set rest \<Longrightarrow> length wins + length fins < pc_rank p \<and> pc_rank p \<le> length wins + length fins + length rest"
      using place_rest_ranks [of "length wins + length fins + 1" "length wins + length fins + 1" 0 winner None others]
        arg_cong [OF others, of length]
      by (simp_all add: rest_def) (force+)?
  qed (fact sheet, simp add: excl_def, fact wins_le)
qed

text \<open>C16: Final placement loses nobody and ranks everybody: given one row a player, it is a
  rearrangement of the sheet, the ranks never go down along it, the winner alone is first when
  they competed, and whoever is disqualified, a proxy or a no-show comes after every
  competitor.\<close>

theorem final_standings_complete:
  assumes "distinct (map st_user_uid ss)"
  shows "mset (map pc_standing (compute_final_standings ss winner)) = mset ss
    \<and> sorted (map pc_rank (compute_final_standings ss winner))
    \<and> (if winner \<noteq> [] \<and> list_ex (\<lambda>s. st_user_uid s = winner \<and> \<not> excluded_row winner s) ss
       then map (\<lambda>p. st_user_uid (pc_standing p)) (filter (\<lambda>p. pc_rank p = 1) (compute_final_standings ss winner)) = [winner]
       else True)
    \<and> list_all (\<lambda>p. (if excluded_row winner (pc_standing p)
          then length (filter (\<lambda>s. \<not> excluded_row winner s) ss) < pc_rank p
          else pc_rank p \<le> length (filter (\<lambda>s. \<not> excluded_row winner s) ss) + 1))
        (compute_final_standings ss winner)"
proof -
  obtain wins fins rest excl where
    rows: "map pc_standing (compute_final_standings ss winner) = wins @ fins @ map pc_standing rest @ excl" and
    sheet: "compute_final_standings ss winner = map (place winner 1 (if final_played ss then 1 else 0)) wins
       @ map (place winner 2 2) fins @ rest
       @ map (\<lambda>(i, s). place winner (length wins + length fins + length rest + 1 + i) 0 s) (enumerate 0 excl)" and
    competing: "mset wins + mset fins + mset (map pc_standing rest) = mset (filter (\<lambda>s. \<not> excluded_row winner s) ss)" and
    excl: "excl = filter (excluded_row winner) ss" and
    wins: "wins = filter (\<lambda>s. winner \<noteq> [] \<and> st_user_uid s = winner \<and> \<not> excluded_row winner s) ss" "length wins \<le> 1" and
    rest: "sorted (map pc_rank rest)"
      "\<And>p. p \<in> set rest \<Longrightarrow> length wins + length fins < pc_rank p \<and> pc_rank p \<le> length wins + length fins + length rest"
    by (rule final_placement [OF assms, of winner]) (rule that)
  have count: "length (filter (\<lambda>s. \<not> excluded_row winner s) ss) = length wins + length fins + length rest"
    using arg_cong [OF competing, of size] by (simp del: mset_filter)
  have fins_pos: "x \<in> set fins \<Longrightarrow> 1 \<le> length fins" for x by (cases fins) simp_all
  have "mset (map pc_standing (compute_final_standings ss winner)) = mset ss"
    using mset_filter_split2 [of "excluded_row winner" ss] competing unfolding rows excl
    by (metis add.assoc mset_append)
  moreover have "sorted (map pc_rank (compute_final_standings ss winner))"
    unfolding sheet map_append place_excluded using rest(1) wins(2)
    by (auto simp: sorted_append sorted_map_const sorted_shift comp_def dest!: rest(2) fins_pos)
  moreover have "map (\<lambda>p. st_user_uid (pc_standing p)) (filter (\<lambda>p. pc_rank p = 1) (compute_final_standings ss winner)) = [winner]"
    if "winner \<noteq> []" "list_ex (\<lambda>s. st_user_uid s = winner \<and> \<not> excluded_row winner s) ss"
  proof -
    have "wins \<noteq> []" using that unfolding wins(1) by (auto simp: list_ex_iff filter_empty_conv)
    then obtain w where w: "wins = [w]" using wins(2) by (cases wins) auto
    moreover have "w \<in> set wins" by (simp add: w)
    then have "st_user_uid w = winner" unfolding wins(1) by simp
    note w = w this
    have "filter (\<lambda>p. pc_rank p = 1) rest = []" using rest(2) w(1) by (force simp: filter_empty_conv)
    moreover have "filter (\<lambda>p. pc_rank p = 1) (map (\<lambda>(i, s). place winner (length wins + length fins + length rest + 1 + i) 0 s) (enumerate 0 excl)) = []"
      by (auto simp: filter_empty_conv w(1) in_set_enumerate_eq)
    ultimately show ?thesis unfolding sheet using w by (simp add: comp_def)
  qed
  moreover have "list_all (\<lambda>p. (if excluded_row winner (pc_standing p)
          then length (filter (\<lambda>s. \<not> excluded_row winner s) ss) < pc_rank p
          else pc_rank p \<le> length (filter (\<lambda>s. \<not> excluded_row winner s) ss) + 1))
        (compute_final_standings ss winner)"
  proof -
    have "set wins \<union> set fins \<union> pc_standing ` set rest = set (filter (\<lambda>s. \<not> excluded_row winner s) ss)"
      using arg_cong [OF competing, of set_mset] by simp
    then have "\<not> excluded_row winner s" if "s \<in> set wins \<union> set fins \<union> pc_standing ` set rest" for s
      using that by simp
    moreover have "excluded_row winner s" if "(i, s) \<in> set (enumerate 0 excl)" for i s
      using nth_mem [of i excl] that unfolding in_set_enumerate_eq by (simp add: excl)
    moreover have "\<not> excluded_row winner (pc_standing p)
        \<and> length wins + length fins < pc_rank p \<and> pc_rank p \<le> length wins + length fins + length rest"
      if "p \<in> set rest" for p using rest(2) [OF that] calculation(1) that by blast
    ultimately show ?thesis unfolding sheet count
      by (auto simp: list_all_iff dest: fins_pos) fastforce+
  qed
  ultimately show ?thesis by simp
qed

text \<open>A five-player sheet with a final, an absentee and a disqualification.\<close>

definition sample_sheet :: "standing list" where
  "sample_sheet =
    [(new_standing ''a'')\<lparr>st_gw := 2, st_vp := 8, st_finalist := True\<rparr>,
     (new_standing ''b'')\<lparr>st_gw := 1, st_vp := 5, st_finalist := True\<rparr>,
     (new_standing ''c'')\<lparr>st_vp := 1\<rparr>, new_standing ''d'',
     (new_standing ''e'')\<lparr>st_vp := 9, st_disqualified := True\<rparr>]"

lemma sample_sheet_uids: "map st_user_uid sample_sheet = [''a'', ''b'', ''c'', ''d'', ''e'']"
  by (simp add: sample_sheet_def new_standing_def)

theorem final_standings_complete_witness:
  "sorted (map pc_rank (compute_final_standings sample_sheet ''b''))
   \<and> mset (map pc_standing (compute_final_standings sample_sheet ''b'')) = mset sample_sheet"
  using final_standings_complete [of sample_sheet "''b''"] by (simp add: sample_sheet_uids)

section \<open>What a refresh leaves alone\<close>

text \<open>The game played at a table: its state, who sat where, and the points they swept.\<close>

definition game_played :: "'z table_scheme \<Rightarrow> table_state \<times> uid list \<times> rat list" where
  "game_played tb = (tb_state tb, map seat_player_uid (tb_seating tb), seat_vps (tb_seating tb))"

definition same_games :: "tournament \<Rightarrow> tournament \<Rightarrow> bool" where
  "same_games t t' \<longleftrightarrow> map (map game_played) (t_rounds t) = map (map game_played) (t_rounds t')
     \<and> map_option game_played (t_finals t) = map_option game_played (t_finals t')
     \<and> t_players t = t_players t'"

lemma same_games_trans: "same_games t t' \<Longrightarrow> same_games t' t'' \<Longrightarrow> same_games t t''"
  by (simp add: same_games_def)

lemma adjustments_by_uids:
  "table_sa_adjustments seating r sas = map (\<lambda>u. - of_nat (length (filter (\<lambda>sa. sa = (u, r)) sas))) (map seat_player_uid seating)"
  by (simp add: table_sa_adjustments_def)

lemma score_table_by_uids:
  assumes "map seat_player_uid seating = map seat_player_uid seating'"
  shows "score_table seating vps r sas seeds = score_table seating' vps r sas seeds"
  using assms map_eq_imp_length_eq [OF assms] by (simp only: score_table_def adjustments_by_uids)

lemma seated_at_uids: "seated_at u tb \<longleftrightarrow> u \<in> set (map seat_player_uid (tb_seating tb))"
  by (auto simp: seated_at_def list_ex_iff)

lemma seated_in_same_games:
  assumes "same_games t t'" and "r \<le> length (t_rounds t)"
  shows "seated_in t u r = seated_in t' u r"
proof -
  have len: "length (t_rounds t) = length (t_rounds t')" using assms(1) by (metis length_map same_games_def)
  have ex: "list_ex (\<lambda>tb. tb_state tb = TS_FINISHED \<and> seated_at u tb) tbs
      = list_ex (\<lambda>(s, us, vs). s = TS_FINISHED \<and> u \<in> set us) (map game_played tbs)" for tbs :: "table list"
    by (simp add: list_ex_iff game_played_def seated_at_uids)
  show ?thesis
  proof (cases "r = length (t_rounds t)")
    case True
    have fin: "seated_at u f \<longleftrightarrow> u \<in> set (fst (snd (game_played f)))" for f :: finals_table
      by (simp add: game_played_def seated_at_uids)
    show ?thesis using True len assms(1)
      by (auto simp: seated_in_def same_games_def fin split: option.splits)
  next
    case False
    then have "r < length (t_rounds t)" "r < length (t_rounds t')" using assms(2) len by simp_all
    then have "map game_played (t_rounds t ! r) = map game_played (t_rounds t' ! r)"
      using assms(1) unfolding same_games_def by (metis nth_map)
    then show ?thesis using False len by (simp add: seated_in_def ex)
  qed
qed

lemma find_cong': "(\<And>x. x \<in> set xs \<Longrightarrow> P x = Q x) \<Longrightarrow> find P xs = find Q xs"
  by (induction xs) auto

lemma effective_round_same_games:
  assumes "same_games t t'"
  shows "effective_round t u stored = effective_round t' u stored"
proof -
  have len: "length (t_rounds t) = length (t_rounds t')" using assms by (metis length_map same_games_def)
  have "find (seated_in t u) (rev [0..<Suc (length (t_rounds t))]) = find (seated_in t' u) (rev [0..<Suc (length (t_rounds t))])"
    by (rule find_cong') (simp add: seated_in_same_games [OF assms] less_Suc_eq_le del: upt_Suc)
  moreover have "stored \<le> length (t_rounds t) \<Longrightarrow> seated_in t u stored = seated_in t' u stored"
    by (rule seated_in_same_games [OF assms])
  ultimately show ?thesis by (auto simp: effective_round_def len Let_def simp del: upt_Suc)
qed

lemma resolve_same_games: "same_games t t' \<Longrightarrow> resolve_sa_effective_rounds t ss = resolve_sa_effective_rounds t' ss"
  by (simp add: resolve_sa_effective_rounds_def effective_round_same_games cong: prod.case_cong)

lemma tally_seats_by_uids:
  "map seat_player_uid seats = map seat_player_uid seats' \<Longrightarrow> tally_seats (zip seats zs) m = tally_seats (zip seats' zs) m"
proof (induction seats arbitrary: seats' zs m)
  case (Cons s seats)
  then obtain s' rest where "seats' = s' # rest" "seat_player_uid s = seat_player_uid s'"
    "map seat_player_uid seats = map seat_player_uid rest" by (cases seats') auto
  then show ?case using Cons.IH [of rest] by (cases zs) (auto simp: tally_seats_def)
qed simp

lemma tally_table_game:
  assumes "game_played tb = game_played tb'"
  shows "tally_table sas r tb m = tally_table sas r tb' m"
proof -
  have eqs: "tb_state tb = tb_state tb'" "map seat_player_uid (tb_seating tb) = map seat_player_uid (tb_seating tb')"
    "seat_vps (tb_seating tb) = seat_vps (tb_seating tb')" using assms by (simp_all add: game_played_def)
  show ?thesis
    by (simp add: tally_table_def eqs(1,3) score_table_by_uids [OF eqs(2)] tally_seats_by_uids [OF eqs(2)])
qed

lemma tally_tables_games:
  "map game_played tbs = map game_played tbs' \<Longrightarrow> fold (tally_table sas r) tbs m = fold (tally_table sas r) tbs' m"
proof (induction tbs arbitrary: tbs' m)
  case (Cons tb tbs)
  then obtain tb' rest where "tbs' = tb' # rest" "game_played tb = game_played tb'"
    "map game_played tbs = map game_played rest" by (cases tbs') auto
  then show ?case using Cons.IH [of rest] tally_table_game [of tb tb' sas r m] by simp
qed simp

lemma tallies_same_games:
  assumes "same_games t t'"
  shows "tallies t sas = tallies t' sas"
proof -
  define total where "total = (\<lambda>(r, tables) m. fold (tally_table sas r) tables m)"
  have step: "total (n, tbs) m = total (n, tbs') m" if "map game_played tbs = map game_played tbs'" for n tbs tbs' m
    unfolding total_def split_conv by (rule tally_tables_games [OF that])
  have "map (map game_played) rs = map (map game_played) rs' \<Longrightarrow>
      fold total (enumerate n rs) m = fold total (enumerate n rs') m" for n m and rs rs' :: "table list list"
  proof (induction rs arbitrary: rs' n m)
    case (Cons tbs rs)
    then obtain tbs' rest where "rs' = tbs' # rest" "map game_played tbs = map game_played tbs'"
      "map (map game_played) rs = map (map game_played) rest" by (cases rs') auto
    then show ?case using Cons.IH [of rest] step [of tbs tbs' n m] by simp
  qed simp
  from this [of "t_rounds t" "t_rounds t'" 0 "[]"] assms show ?thesis
    unfolding tallies_def total_def [symmetric] same_games_def by blast
qed

lemma preliminary_same_games:
  assumes "same_games t t'"
  shows "compute_preliminary_standings t ss = compute_preliminary_standings t' ss"
proof -
  have "length (t_rounds t) = length (t_rounds t')" using assms by (metis length_map same_games_def)
  moreover have "standing_of t = standing_of t'"
    using assms by (intro ext) (simp add: standing_of_def player_of_def same_games_def)
  ultimately show ?thesis
    by (simp add: compute_preliminary_standings_def resolve_same_games [OF assms] tallies_same_games [OF assms])
qed

lemma length_score_table:
  assumes "score_table seating (seat_vps seating) r sas seeds = (gws, tps)"
  shows "length gws = length seating" "length tps = length seating"
  using score_table_lengths [of "seat_vps seating" seating r sas seeds] assms by simp_all

lemma rescored_uids:
  assumes "length gws = length seating" "length tps = length seating"
  shows "map seat_player_uid (rescored gws tps seating) = map seat_player_uid seating"
    "seat_vps (rescored gws tps seating) = seat_vps seating"
    "rescored gws tps (rescored gws tps seating) = rescored gws tps seating"
  using assms
  by (auto simp: rescored_def with_score_def seat_vps_def list_eq_iff_nth_eq)

lemma refresh_table_game [simp]: "game_played (refresh_table sas r tb) = game_played tb"
proof -
  obtain gws tps where st: "score_table (tb_seating tb) (seat_vps (tb_seating tb)) r sas None = (gws, tps)"
    by (cases "score_table (tb_seating tb) (seat_vps (tb_seating tb)) r sas None")
  show ?thesis using length_score_table [OF st] st
    by (simp add: refresh_table_def game_played_def rescored_uids)
qed

lemma refresh_table_again: "refresh_table sas r (refresh_table sas r tb) = refresh_table sas r tb"
proof -
  obtain gws tps where st: "score_table (tb_seating tb) (seat_vps (tb_seating tb)) r sas None = (gws, tps)"
    by (cases "score_table (tb_seating tb) (seat_vps (tb_seating tb)) r sas None")
  note len = length_score_table [OF st]
  have zeros: "length (map (\<lambda>_. 0 :: rat) gws) = length (tb_seating tb)" "length (map (\<lambda>_. 0 :: rat) tps) = length (tb_seating tb)"
    using len by simp_all
  have st': "score_table (rescored xs ys (tb_seating tb)) (seat_vps (tb_seating tb)) r sas None = (gws, tps)"
    if "length xs = length (tb_seating tb)" "length ys = length (tb_seating tb)" for xs ys
    using score_table_by_uids [OF rescored_uids(1) [OF that]] st by simp
  show ?thesis
    by (simp add: refresh_table_def Let_def st st' len rescored_uids [OF len] rescored_uids [OF zeros])
qed

lemma map_enumerate_refresh:
  assumes "\<And>r x. f r (f r x) = f r x"
  shows "map (\<lambda>(r, tables). map (f r) tables) (enumerate n (map (\<lambda>(r, tables). map (f r) tables) (enumerate n rs)))
    = map (\<lambda>(r, tables). map (f r) tables) (enumerate n rs)"
  by (induction rs arbitrary: n) (simp_all add: assms)

lemma map_enumerate_games:
  assumes "\<And>r x. g (f r x) = g x"
  shows "map (map g) (map (\<lambda>(r, tables). map (f r) tables) (enumerate n rs)) = map (map g) rs"
  by (induction rs arbitrary: n) (simp_all add: assms)

lemma refresh_rounds_same_games: "same_games t (refresh_round_scoring t ss)"
  by (simp add: same_games_def refresh_round_scoring_def Let_def map_enumerate_games del: map_map)

lemma refresh_finals_same_games: "same_games t (refresh_finals_scoring t ss)"
proof (cases "t_finals t")
  case (Some f)
  define r where "r = resolve_sa_effective_rounds t ss"
  obtain gws tps where st: "score_table (tb_seating f) (seat_vps (tb_seating f)) (length (t_rounds t)) r
      (Some (tb_seed_order f)) = (gws, tps)"
    by (cases "score_table (tb_seating f) (seat_vps (tb_seating f)) (length (t_rounds t)) r (Some (tb_seed_order f))")
  show ?thesis using length_score_table [OF st] st
    by (simp add: refresh_finals_scoring_def Some r_def [symmetric] same_games_def game_played_def rescored_uids Let_def)
qed (simp add: refresh_finals_scoring_def same_games_def)

lemma same_games_standings: "same_games t (t'\<lparr>t_standings := ss\<rparr>) = same_games t t'"
  by (simp add: same_games_def)

lemma update_standings_same_games: "same_games t (update_standings t ss)"
  unfolding update_standings_def Let_def
  by (simp add: refresh_rounds_same_games)
    (metis refresh_rounds_same_games refresh_finals_same_games same_games_standings same_games_trans)

lemma refresh_rounds_again:
  assumes "same_games t t'" and "t_rounds t' = t_rounds (refresh_round_scoring t ss)"
  shows "refresh_round_scoring t' ss = t'"
  using assms resolve_same_games [OF assms(1), of ss]
  by (simp add: refresh_round_scoring_def Let_def map_enumerate_refresh refresh_table_again)

lemma refresh_finals_fields [simp]:
  "t_rounds (refresh_finals_scoring t ss) = t_rounds t"
  "t_standings (refresh_finals_scoring t ss) = t_standings t"
  by (simp_all add: refresh_finals_scoring_def Let_def split: option.split prod.split)

lemma refresh_rounds_fields [simp]: "t_finals (refresh_round_scoring t ss) = t_finals t"
  by (simp add: refresh_round_scoring_def Let_def)

definition finals_winner :: "uid \<Rightarrow> seat list \<Rightarrow> rat list \<Rightarrow> uid" where
  "finals_winner w seating gws = (if w = [] then w
     else case first_index (\<lambda>g. g = 1) gws of None \<Rightarrow> w | Some i \<Rightarrow> seat_player_uid (seating ! i))"

lemma refresh_finals_step:
  assumes "t_finals t = Some f" "tb_state f = TS_FINISHED"
    and "score_table (tb_seating f) (seat_vps (tb_seating f)) (length (t_rounds t)) (resolve_sa_effective_rounds t ss)
      (Some (tb_seed_order f)) = (gws, tps)"
  shows "refresh_finals_scoring t ss = t\<lparr>t_finals := Some (f\<lparr>tb_seating := rescored gws tps (tb_seating f)\<rparr>),
    t_winner := finals_winner (t_winner t) (tb_seating f) gws\<rparr>"
  using assms by (simp add: refresh_finals_scoring_def Let_def finals_winner_def)

lemma finals_winner_again:
  assumes "map seat_player_uid seated = map seat_player_uid seating" "length gws = length seating"
  shows "finals_winner (finals_winner w seating gws) seated gws = finals_winner w seating gws"
proof (cases "first_index (\<lambda>g. g = 1) gws")
  case (Some i)
  then have "i < length seating" using assms(2) by (auto simp: first_index_def find_Some_iff)
  then have "seat_player_uid (seated ! i) = seat_player_uid (seating ! i)" using assms(1) by (metis length_map nth_map)
  then show ?thesis using Some by (simp add: finals_winner_def)
qed (simp add: finals_winner_def)

lemma refresh_finals_again:
  "refresh_finals_scoring (refresh_finals_scoring t ss) ss = refresh_finals_scoring t ss"
proof (cases "\<exists>f. t_finals t = Some f \<and> tb_state f = TS_FINISHED")
  case True
  then obtain f where f: "t_finals t = Some f" "tb_state f = TS_FINISHED" by blast
  define r where "r = resolve_sa_effective_rounds t ss"
  obtain gws tps where st: "score_table (tb_seating f) (seat_vps (tb_seating f)) (length (t_rounds t)) r
      (Some (tb_seed_order f)) = (gws, tps)"
    by (cases "score_table (tb_seating f) (seat_vps (tb_seating f)) (length (t_rounds t)) r (Some (tb_seed_order f))")
  note len = length_score_table [OF st]
  define seated where "seated = rescored gws tps (tb_seating f)"
  define t' where "t' = t\<lparr>t_finals := Some (f\<lparr>tb_seating := seated\<rparr>),
    t_winner := finals_winner (t_winner t) (tb_seating f) gws\<rparr>"
  note uids = rescored_uids [OF len, folded seated_def]
  have once: "refresh_finals_scoring t ss = t'"
    using refresh_finals_step [OF f] st by (simp add: t'_def seated_def r_def)
  have "score_table seated (seat_vps seated) (length (t_rounds t)) r (Some (tb_seed_order f)) = (gws, tps)"
    using score_table_by_uids [OF uids(1)] st uids(2) by simp
  moreover have "resolve_sa_effective_rounds t' ss = r"
    using resolve_same_games [OF refresh_finals_same_games [of t ss], of ss] by (simp add: once r_def)
  ultimately have "refresh_finals_scoring t' ss = t'"
    using refresh_finals_step [of t' "f\<lparr>tb_seating := seated\<rparr>" ss gws tps] f(2) uids finals_winner_again [OF uids(1) len(1)]
    by (simp add: t'_def)
  then show ?thesis by (simp add: once)
qed (auto simp: refresh_finals_scoring_def split: option.split)

text \<open>C17: Recomputing the standings is a pure function of the games played: it moves nobody, sweeps
  no point and changes no table's state, and a second run over the same sanctions changes nothing
  at all.\<close>

theorem update_standings_idempotent:
  "same_games t (update_standings t ss)
   \<and> update_standings (update_standings t ss) ss = update_standings t ss"
proof -
  define u where "u = update_standings t ss"
  define t' where "t' = refresh_round_scoring t ss"
  have games: "same_games t u" unfolding u_def by (rule update_standings_same_games)
  have t'_games: "same_games t t'" unfolding t'_def by (rule refresh_rounds_same_games)
  have rounds: "t_rounds u = t_rounds t'"
    by (simp add: u_def t'_def update_standings_def Let_def)
  have again: "refresh_round_scoring u ss = u"
    using refresh_rounds_again [OF games] rounds by (simp add: t'_def)
  have "update_standings u ss = u"
  proof (cases "t_rounds t' = []")
    case True
    then show ?thesis using again rounds by (simp add: update_standings_def)
  next
    case False
    define S where "S = map stored_standing (compute_preliminary_standings t' ss)"
    have u: "u = refresh_finals_scoring (t'\<lparr>t_standings := S\<rparr>) ss"
      using False by (simp add: u_def t'_def S_def update_standings_def Let_def)
    have same: "compute_preliminary_standings u ss = compute_preliminary_standings t' ss"
      using preliminary_same_games [OF games, of ss] preliminary_same_games [OF t'_games, of ss] by simp
    have "t_standings u = S" by (simp add: u)
    then have unchanged: "u\<lparr>t_standings := map stored_standing (compute_preliminary_standings u ss)\<rparr> = u"
      by (simp add: same S_def)
    have "update_standings u ss
        = refresh_finals_scoring (u\<lparr>t_standings := map stored_standing (compute_preliminary_standings u ss)\<rparr>) ss"
      using False rounds again unfolding update_standings_def Let_def by simp
    then have "update_standings u ss = refresh_finals_scoring u ss" by (simp only: unchanged)
    also have "\<dots> = u" unfolding u by (rule refresh_finals_again)
    finally show ?thesis .
  qed
  with games show ?thesis by (simp add: u_def)
qed

end
