(* ===== verification/Promo_Stock.thy ===== *)
theory Promo_Stock
  imports Queries Server
begin

text \<open>
  \<open>backend/src/promo_stock.py\<close>: the stock figures stored on promos and users, recomputed from the
  ledger and the events' distribution reports.  The lock runs one recomputation at a time, which is
  the sequence of steps here; an exception ends the run where it is and is logged.
\<close>

type_synonym holdings = "(uid \<times> promo_holding) list"

definition no_holding :: promo_holding where
  "no_holding = \<lparr>ph_assigned = 0, ph_remaining = 0\<rparr>"

text \<open>\<open>h = hold(promo, holder)\<close> and the change made to it\<close>

definition hold :: "uid \<Rightarrow> uid \<Rightarrow> (promo_holding \<Rightarrow> promo_holding) \<Rightarrow> (uid \<times> holdings) list \<Rightarrow> (uid \<times> holdings) list" where
  "hold p holder f hs =
     (let per = (case map_of hs p of None \<Rightarrow> [] | Some x \<Rightarrow> x);
          h = (case map_of per holder of None \<Rightarrow> no_holding | Some h \<Rightarrow> h)
      in put p (put holder (f h) per) hs)"

definition credit :: "int \<Rightarrow> promo_holding \<Rightarrow> promo_holding" where
  "credit q h = \<lparr>ph_assigned = ph_assigned h + q, ph_remaining = ph_remaining h + q\<rparr>"

definition debit :: "int \<Rightarrow> promo_holding \<Rightarrow> promo_holding" where
  "debit q h = h\<lparr>ph_remaining := ph_remaining h - q\<rparr>"

definition apply_entry :: "promo_ledger_entry \<Rightarrow> (uid \<times> holdings) list \<Rightarrow> (uid \<times> holdings) list" where
  "apply_entry e hs =
     (if le_kind e = INTAKE then hold (le_promo_uid e) (le_from_uid e) (credit (le_qty e)) hs
      else
        let hs' = (if le_kind e = ASSIGNMENT \<and> truthy_str (le_to_uid e)
                   then hold (le_promo_uid e) (str_default (le_to_uid e)) (credit (le_qty e)) hs else hs)
        in hold (le_promo_uid e) (le_from_uid e) (debit (le_qty e)) hs')"

definition apply_attribution :: "uid \<times> uid \<times> int \<Rightarrow> (uid \<times> holdings) list \<Rightarrow> (uid \<times> holdings) list" where
  "apply_attribution a hs = (let (p, holder, q) = a in hold p holder (debit q) hs)"

definition compute_holdings :: "db \<Rightarrow> uid list \<Rightarrow> (uid \<times> holdings) list" where
  "compute_holdings s targets =
     fold apply_attribution (get_tournament_promo_attributions s targets)
       (fold apply_entry (get_promo_ledger_for_promos s targets) (map (\<lambda>p. (p, [])) targets))"

definition holdings_of :: "(uid \<times> holdings) list \<Rightarrow> uid \<Rightarrow> holdings" where
  "holdings_of hs p = (case map_of hs p of None \<Rightarrow> [] | Some x \<Rightarrow> x)"

text \<open>Equality of dictionaries does not look at the order of the items.\<close>

definition dict_eq :: "('k \<times> 'v) list \<Rightarrow> ('k \<times> 'v) list \<Rightarrow> bool" where
  "dict_eq d e \<longleftrightarrow> list_all (\<lambda>(k, v). map_of e k = map_of d k) d \<and> list_all (\<lambda>(k, v). map_of d k = map_of e k) e"

definition store_holdings :: "instant \<Rightarrow> (uid \<times> holdings) list \<Rightarrow> promo \<Rightarrow> (server, unit) prog" where
  "store_holdings now hs stale =
     (if dict_eq (p_holdings stale) (holdings_of hs (uid stale)) then return ()
      else seq (gets (\<lambda>(s, _). get_promo_by_uid s (uid stale))) (\<lambda>fresh. case fresh of
         None \<Rightarrow> return ()
       | Some p \<Rightarrow> save_and_push now (OPromo (p\<lparr>p_holdings := holdings_of hs (uid stale), modified := now\<rparr>))))"

section \<open>Per user\<close>

definition user_stocks :: "db \<Rightarrow> uid list \<Rightarrow> (uid \<times> holdings) list \<Rightarrow> (uid \<times> (uid \<times> int) list) list" where
  "user_stocks s targets hs =
     fold (\<lambda>u. setdefault u []) (get_users_with_promo_stock_keys s targets)
       (fold (\<lambda>(p, per) st. fold (\<lambda>(holder, h) st. put holder (put p (ph_remaining h)
             (case map_of st holder of None \<Rightarrow> [] | Some d \<Rightarrow> d)) st) per st) hs [])"

definition merged_stock :: "uid list \<Rightarrow> (uid \<times> int) list \<Rightarrow> (uid \<times> int) list \<Rightarrow> (uid \<times> int) list" where
  "merged_stock targets stocks old =
     fold (\<lambda>p d. case map_of stocks p of Some q \<Rightarrow> put p q d | None \<Rightarrow> del p d) targets old"

definition store_stock :: "instant \<Rightarrow> uid list \<Rightarrow> uid \<times> (uid \<times> int) list \<Rightarrow> (server, unit) prog" where
  "store_stock now targets us =
     seq (gets (\<lambda>(s, _). get_user_by_uid s (fst us))) (\<lambda>fresh. case fresh of
        None \<Rightarrow> return ()
      | Some user \<Rightarrow>
          let merged = merged_stock targets (snd us) (u_promo_stock user)
          in if dict_eq merged (u_promo_stock user) then return ()
             else save_and_push now (OUser (user\<lparr>u_promo_stock := merged, modified := now\<rparr>)))"

section \<open>The recomputation\<close>

definition recompute_promo_stock :: "instant \<Rightarrow> uid list option \<Rightarrow> (server, unit) prog" where
  "recompute_promo_stock now promo_uids =
     seq (gets (\<lambda>(s, _). case promo_uids of None \<Rightarrow> get_all_promos s
        | Some ps \<Rightarrow> filter (\<lambda>p. uid p \<in> set ps) (get_all_promos s))) (\<lambda>promos.
     if promos = [] then return ()
     else
       let targets = map uid promos
       in seq (gets (\<lambda>(s, _). compute_holdings s targets)) (\<lambda>hs.
          seq (for_each (store_holdings now hs) promos) (\<lambda>_.
          seq (gets (\<lambda>(s, _). user_stocks s targets hs)) (\<lambda>stocks.
          seq (for_each (store_stock now targets) stocks) (\<lambda>_. return ())))))"

end
