(* ===== verification/Passes.thy ===== *)
theory Passes
  imports Server Ratings_Laws
begin

text \<open>
  Passes over stored objects: read one, save what becomes of it, broadcast it, go on.  Shared by the
  components that walk over many objects.
\<close>

section \<open>A pass over objects\<close>

text \<open>Read an object, save what \<open>upd\<close> makes of it, if anything, and broadcast it.\<close>

definition touch_object :: "instant \<Rightarrow> (obj \<Rightarrow> obj option) \<Rightarrow> uid \<Rightarrow> (server, unit) prog" where
  "touch_object now upd u srv = (case Option.bind (read_object (fst srv) u) upd of
     None \<Rightarrow> (Inr (), srv) | Some y \<Rightarrow> save_and_push now y srv)"

definition keeps_object :: "(obj \<Rightarrow> obj option) \<Rightarrow> bool" where
  "keeps_object upd \<longleftrightarrow> (\<forall>x y. upd x = Some y \<longrightarrow> obj_uid y = obj_uid x \<and> index_keys y = index_keys x
     \<and> (as_stored x = x \<longrightarrow> as_stored y = y))"

definition touched :: "(obj \<Rightarrow> obj option) \<Rightarrow> obj \<Rightarrow> obj" where
  "touched upd x = (case upd x of None \<Rightarrow> x | Some y \<Rightarrow> y)"

definition row_owner :: "row \<Rightarrow> string option \<times> uid list option \<times> uid list option" where
  "row_owner r = (row_calendar_token r, row_agenda_hidden r, row_agenda_added r)"

definition owner_of :: "db \<Rightarrow> uid \<Rightarrow> (string option \<times> uid list option \<times> uid list option) option" where
  "owner_of s w = map_option row_owner (map_of (db_objects s) w)"

text \<open>Only the objects have changed.\<close>

definition same_rest :: "db \<Rightarrow> db \<Rightarrow> bool" where
  "same_rest s0 s \<longleftrightarrow> s = s0\<lparr>db_objects := db_objects s\<rparr>"

lemma same_rest_refl [simp]: "same_rest s s"
  by (simp add: same_rest_def)

lemma same_rest_trans: "same_rest s0 s1 \<Longrightarrow> same_rest s1 s2 \<Longrightarrow> same_rest s0 s2"
  unfolding same_rest_def by (metis db.surjective db.update_convs(1))

lemma same_rest_tables:
  assumes "same_rest s0 s"
  shows "db_auth s = db_auth s0" "db_nda s = db_nda s0" "db_ledger s = db_ledger s0" "db_transient s = db_transient s0"
    "db_push s = db_push s0" "db_avatars s = db_avatars s0" "db_banners s = db_banners s0" "db_promo_images s = db_promo_images s0"
    "db_consents s = db_consents s0" "db_tokens s = db_tokens s0"
proof -
  obtain objs where s: "s = s0\<lparr>db_objects := objs\<rparr>" using assms unfolding same_rest_def by blast
  show "db_auth s = db_auth s0" "db_nda s = db_nda s0" "db_ledger s = db_ledger s0" "db_transient s = db_transient s0"
    "db_push s = db_push s0" "db_avatars s = db_avatars s0" "db_banners s = db_banners s0" "db_promo_images s = db_promo_images s0"
    "db_consents s = db_consents s0" "db_tokens s = db_tokens s0" by (simp_all add: s)
qed

lemma same_rest_saved: "save_object now x deleted s = Inr (bd, s') \<Longrightarrow> same_rest s s'"
  unfolding same_rest_def by (erule save_object_Inr) simp

definition passed_objects :: "(obj \<Rightarrow> obj option) \<Rightarrow> uid set \<Rightarrow> db \<Rightarrow> db \<Rightarrow> bool" where
  "passed_objects upd seen s0 s \<longleftrightarrow> rows_ok s
     \<and> (\<forall>w. read_object s w = map_option (\<lambda>x. if w \<in> seen then touched upd x else x) (read_object s0 w))
     \<and> (\<forall>w. Option.bind (read_object s0 w) upd = None \<longrightarrow> map_of (db_objects s) w = map_of (db_objects s0) w)
     \<and> same_rest s0 s \<and> owner_of s = owner_of s0"

lemma stored_owner:
  assumes "as_stored y = y"
  shows "owner_columns y = (None, None, None)"
proof (cases y)
  case (OUser v)
  then have "without_owner_columns v = v" using assms by simp
  then have "u_calendar_token v = u_calendar_token (without_owner_columns v)"
    "u_agenda_hidden v = u_agenda_hidden (without_owner_columns v)"
    "u_agenda_added v = u_agenda_added (without_owner_columns v)" by simp_all
  then show ?thesis by (simp add: OUser without_owner_columns_def)
qed simp_all

lemma owner_saved:
  assumes "save_object now y deleted s = Inr (bd, s')" and "as_stored y = y" and "map_of (db_objects s) (obj_uid y) \<noteq> None"
  shows "owner_of s' = owner_of s"
proof -
  obtain p where p: "s' = s\<lparr>db_objects := put (obj_uid y) (upserted_row now y deleted (map_of (db_objects s) (obj_uid y)) p) (db_objects s)\<rparr>"
    by (rule save_object_Inr [OF assms(1)]) blast
  obtain r where r: "map_of (db_objects s) (obj_uid y) = Some r" using assms(3) by blast
  have "row_owner (upserted_row now y deleted (Some r) p) = row_owner r"
    using stored_owner [OF assms(2)] by (simp add: row_owner_def upserted_row_def or_opt_def)
  then show ?thesis by (auto simp: owner_of_def p r)
qed

lemma passed_objects_start: "rows_ok s \<Longrightarrow> passed_objects upd {} s s"
  by (simp add: passed_objects_def option.map_ident)

lemma stored_object:
  assumes "rows_ok s" and "read_object s u = Some x"
  shows "obj_uid x = u" "as_stored x = x"
proof -
  from assms(2) obtain r where r: "map_of (db_objects s) u = Some r" "row_full r = x" by (auto simp: read_object_def)
  then have "row_ok u r" using assms(1) unfolding rows_ok_def by blast
  then show "obj_uid x = u" "as_stored x = x" by (simp_all add: row_ok_def r(2) Let_def)
qed

lemma object_update_free:
  assumes "rows_ok s" and "read_object s (obj_uid y) = Some x" and "index_keys y = index_keys x"
  shows "\<not> index_conflict y s"
proof
  assume "index_conflict y s"
  then obtain k q where kq: "(k, q) \<in> set (db_objects s)" "k \<noteq> obj_uid y" "index_keys (row_full q) = index_keys y"
    "index_keys y \<noteq> None"
    by (auto simp: index_conflict_def list_ex_iff)
  have "map_of (db_objects s) k = Some q" using kq(1) in_set_map_of [OF rows_ok_distinct [OF assms(1)]] by blast
  moreover obtain r where "map_of (db_objects s) (obj_uid y) = Some r" "row_full r = x"
    using assms(2) by (auto simp: read_object_def)
  ultimately have "index_of s k = index_of s (obj_uid y)" "index_of s k \<noteq> None"
    using kq(3,4) assms(3) by (simp_all add: index_of_def)
  then show False using assms(1) kq(2) unfolding rows_ok_def unique_index_def by (metis not_None_eq)
qed

lemma pass_here:
  assumes "passed_objects upd seen s0 s" and "u \<notin> seen"
  shows "read_object s u = read_object s0 u"
  using assms by (simp add: passed_objects_def option.map_ident)

lemma pass_skip:
  assumes "passed_objects upd seen s0 s" and "Option.bind (read_object s0 u) upd = None"
  shows "passed_objects upd (insert u seen) s0 s"
  using assms by (auto simp: passed_objects_def touched_def intro!: option.map_cong split: Option.bind_splits)

lemma pass_save:
  assumes ok: "passed_objects upd seen s0 s" and keep: "keeps_object upd" and "rows_ok s0" and new: "u \<notin> seen"
    and upd: "Option.bind (read_object s0 u) upd = Some y"
  obtains bd s' where "save_object now y deleted s = Inr (bd, s')" "passed_objects upd (insert u seen) s0 s'" "bd_uid bd = u"
proof -
  have rows: "rows_ok s" and read: "read_object s w = map_option (\<lambda>x. if w \<in> seen then touched upd x else x) (read_object s0 w)" for w
    using ok by (simp_all add: passed_objects_def)
  have here: "read_object s u = read_object s0 u" by (rule pass_here [OF ok new])
  obtain x where x: "read_object s0 u = Some x" "upd x = Some y" using upd by (auto split: Option.bind_splits)
  then have y: "obj_uid y = u" "index_keys y = index_keys x" "as_stored y = y"
    using keep stored_object [OF assms(3) x(1)] unfolding keeps_object_def by auto
  obtain bd s' where save: "save_object now y deleted s = Inr (bd, s')"
    using save_object_total [of y s now deleted] object_update_free [OF rows _ y(2)] here x(1) y(1) by auto
  have rd: "read_object s' = (read_object s)(u \<mapsto> y)" using read_object_saved [OF save] y by simp
  have same: "map_of (db_objects s') w = map_of (db_objects s) w" if "w \<noteq> u" for w
    by (rule save_object_Inr [OF save]) (simp add: y(1) that)
  have "map_of (db_objects s) (obj_uid y) \<noteq> None" using here x(1) y(1) by (auto simp: read_object_def)
  then have owner: "owner_of s' = owner_of s0" using owner_saved [OF save y(3)] ok by (simp add: passed_objects_def)
  have rest: "same_rest s0 s'" using same_rest_saved [OF save] ok by (auto simp: passed_objects_def intro: same_rest_trans)
  have "map_of (db_objects s') w = map_of (db_objects s0) w" if "Option.bind (read_object s0 w) upd = None" for w
  proof -
    have "w \<noteq> u" using that upd by auto
    then show ?thesis using same [of w] that ok by (simp add: passed_objects_def)
  qed
  then have "passed_objects upd (insert u seen) s0 s'"
    using save_object_rows_ok [OF rows save] x rest owner unfolding passed_objects_def rd
    by (auto simp: touched_def read)
  moreover have "bd_uid bd = u" by (rule save_object_Inr [OF save]) (simp add: y(1))
  ultimately show thesis using save that by blast
qed

text \<open>A loop whose every step passes over its object; \<open>g\<close> finds the database in the state.\<close>

lemma pass_over:
  assumes "passed_objects upd seen s0 (g st)" and "distinct (map f xs)" and "f ` set xs \<inter> seen = {}"
    and step: "\<And>x st seen. x \<in> set xs \<Longrightarrow> f x \<notin> seen \<Longrightarrow> passed_objects upd seen s0 (g st) \<Longrightarrow>
      \<exists>out st'. m x st = (Inr out, st') \<and> passed_objects upd (insert (f x) seen) s0 (g st')"
  shows "\<exists>out st'. for_each m xs st = (Inr out, st') \<and> passed_objects upd (seen \<union> f ` set xs) s0 (g st')"
  using assms
proof (induction xs arbitrary: seen st)
  case (Cons x xs)
  have new: "f x \<notin> seen" using Cons.prems(3) by auto
  obtain out st1 where s1: "m x st = (Inr out, st1)" "passed_objects upd (insert (f x) seen) s0 (g st1)"
    using Cons.prems(4) [OF _ new Cons.prems(1)] by auto
  have "\<exists>out st'. for_each m xs st1 = (Inr out, st') \<and> passed_objects upd (insert (f x) seen \<union> f ` set xs) s0 (g st')"
    by (rule Cons.IH [OF s1(2)]) (use Cons.prems(2-4) in auto)
  then show ?case using s1(1) by (auto simp: seq_def)
qed simp

text \<open>A pass that reaches every object there is something to do for leaves all of them done.\<close>

lemma passed_all:
  assumes "passed_objects upd seen s0 s" and "\<And>w x. read_object s0 w = Some x \<Longrightarrow> upd x \<noteq> None \<Longrightarrow> w \<in> seen"
  shows "read_object s w = map_option (touched upd) (read_object s0 w)"
  using assms by (cases "read_object s0 w") (fastforce simp: passed_objects_def touched_def split: option.split)+

lemma touch_object_step:
  assumes ok: "passed_objects upd seen s0 (fst srv)" and keep: "keeps_object upd" and "rows_ok s0" and new: "u \<notin> seen"
  shows "\<exists>srv'. touch_object now upd u srv = (Inr (), srv') \<and> passed_objects upd (insert u seen) s0 (fst srv')"
proof -
  obtain s c where srv: "srv = (s, c)" by (cases srv)
  have ok': "passed_objects upd seen s0 s" and here: "read_object s u = read_object s0 u"
    using ok pass_here [OF ok new] by (simp_all add: srv)
  show ?thesis
  proof (cases "Option.bind (read_object s0 u) upd")
    case None
    then show ?thesis using here pass_skip [OF ok'] by (simp add: touch_object_def srv)
  next
    case (Some y)
    obtain bd s' where "save_object now y (obj_deleted_at y) s = Inr (bd, s')" "passed_objects upd (insert u seen) s0 s'"
      by (rule pass_save [OF ok' keep assms(3) new Some])
    then show ?thesis
      using here Some by (simp add: touch_object_def srv save_and_push_def on_db_def seq_def atomic_def push_bd_def
          save_object_from_model_def)
  qed
qed

lemma touch_objects:
  assumes "passed_objects upd seen s0 (fst srv)" and "keeps_object upd" and "rows_ok s0"
    and "distinct us" and "set us \<inter> seen = {}"
    and step: "\<And>x srv seen. x \<in> set xs \<Longrightarrow> f x \<notin> seen \<Longrightarrow> passed_objects upd seen s0 (fst srv) \<Longrightarrow> m x srv = touch_object now upd (f x) srv"
    and "us = map f xs"
  shows "\<exists>out srv'. for_each m xs srv = (Inr out, srv') \<and> passed_objects upd (seen \<union> set us) s0 (fst srv')"
proof -
  have "\<exists>out srv'. for_each m xs srv = (Inr out, srv') \<and> passed_objects upd (seen \<union> f ` set xs) s0 (fst srv')"
    using assms(4,5,7) step touch_object_step [OF _ assms(2,3)] by (intro pass_over [where g = fst, OF assms(1)]) fastforce+
  then show ?thesis using assms(7) by simp
qed

end
