(* ===== verification/Promo_Stock_Laws.thy ===== *)
theory Promo_Stock_Laws
  imports Promo_Stock Passes
begin

text \<open>
  What the stock figures promise: handing stock over conserves it, and a recomputation leaves every
  promo and every user with the figures of the ledger and the reports.
\<close>

section \<open>Conservation\<close>

definition total_by :: "(promo_holding \<Rightarrow> int) \<Rightarrow> (uid \<times> holdings) list \<Rightarrow> uid \<Rightarrow> int" where
  "total_by g hs p = sum_list (map (g \<circ> snd) (holdings_of hs p))"

lemma sum_put:
  fixes g :: "'v \<Rightarrow> int"
  shows "sum_list (map (g \<circ> snd) (put k v d))
    = sum_list (map (g \<circ> snd) d) + g v - (case map_of d k of None \<Rightarrow> 0 | Some w \<Rightarrow> g w)"
  by (induction d) (auto split: option.split)

lemma holdings_of_hold:
  "holdings_of (hold p holder f hs) q = (if q = p
     then put holder (f (case map_of (holdings_of hs p) holder of None \<Rightarrow> no_holding | Some h \<Rightarrow> h)) (holdings_of hs p)
     else holdings_of hs q)"
  by (simp add: holdings_of_def hold_def Let_def)

lemma total_hold:
  assumes "g no_holding = 0" and "\<And>h. g (f h) = g h + d"
  shows "total_by g (hold p holder f hs) q = total_by g hs q + (if q = p then d else 0)"
  using assms by (simp add: total_by_def holdings_of_hold sum_put split: option.split)

lemma totals_credit_debit [simp]:
  "total_by ph_remaining (hold p holder (credit q) hs) r = total_by ph_remaining hs r + (if r = p then q else 0)"
  "total_by ph_assigned (hold p holder (credit q) hs) r = total_by ph_assigned hs r + (if r = p then q else 0)"
  "total_by ph_remaining (hold p holder (debit q) hs) r = total_by ph_remaining hs r + (if r = p then - q else 0)"
  "total_by ph_assigned (hold p holder (debit q) hs) r = total_by ph_assigned hs r + (if r = p then 0 else 0)"
  by (rule total_hold; simp add: credit_def debit_def no_holding_def)+

text \<open>What an entry adds to the stock around and to what was handed out.\<close>

definition stock_change :: "promo_ledger_entry \<Rightarrow> int" where
  "stock_change e = (if le_kind e = INTAKE then le_qty e
     else if le_kind e = ASSIGNMENT \<and> truthy_str (le_to_uid e) then 0 else - le_qty e)"

definition assigned_change :: "promo_ledger_entry \<Rightarrow> int" where
  "assigned_change e = (if le_kind e = INTAKE \<or> le_kind e = ASSIGNMENT \<and> truthy_str (le_to_uid e) then le_qty e else 0)"

lemma totals_entry:
  "total_by ph_remaining (apply_entry e hs) p = total_by ph_remaining hs p + (if le_promo_uid e = p then stock_change e else 0)"
  "total_by ph_assigned (apply_entry e hs) p = total_by ph_assigned hs p + (if le_promo_uid e = p then assigned_change e else 0)"
  by (auto simp: apply_entry_def stock_change_def assigned_change_def Let_def)

lemma totals_entries:
  "total_by ph_remaining (fold apply_entry es hs) p
    = total_by ph_remaining hs p + sum_list (map stock_change (filter (\<lambda>e. le_promo_uid e = p) es))"
  "total_by ph_assigned (fold apply_entry es hs) p
    = total_by ph_assigned hs p + sum_list (map assigned_change (filter (\<lambda>e. le_promo_uid e = p) es))"
  by (induction es arbitrary: hs) (simp_all add: totals_entry)

lemma totals_attributions:
  "total_by ph_remaining (fold apply_attribution as hs) p
    = total_by ph_remaining hs p - sum_list (map (snd \<circ> snd) (filter (\<lambda>a. fst a = p) as))"
  "total_by ph_assigned (fold apply_attribution as hs) p = total_by ph_assigned hs p"
  by (induction as arbitrary: hs) (auto simp: apply_attribution_def)

lemma total_start: "total_by g (map (\<lambda>p. (p, [])) targets) p = 0"
  by (induction targets) (auto simp: total_by_def holdings_of_def)

text \<open>C24: Stock is conserved: whatever is handed from one member to another, all that the holders of a
  promo have left together is what was taken in, less what was given away without a recipient and
  what the events reported; and all they were ever assigned is what was taken in or handed over.\<close>

theorem stock_is_conserved:
  assumes "p \<in> set targets"
  shows "total_by ph_remaining (compute_holdings s targets) p
      = sum_list (map stock_change (filter (\<lambda>e. le_promo_uid e = p) (db_ledger s)))
        - sum_list (map (snd \<circ> snd) (get_tournament_promo_attributions s [p]))
    \<and> total_by ph_assigned (compute_holdings s targets) p
      = sum_list (map assigned_change (filter (\<lambda>e. le_promo_uid e = p) (db_ledger s)))"
proof -
  have ledger: "filter (\<lambda>e. le_promo_uid e = p) (get_promo_ledger_for_promos s targets)
      = filter (\<lambda>e. le_promo_uid e = p) (db_ledger s)"
    unfolding get_promo_ledger_for_promos_def filter_filter by (rule filter_cong) (use assms in auto)
  have "filter (\<lambda>a. fst a = p) (concat (map (\<lambda>t. if t_promo_stock_source_uid t = [] then []
         else map (\<lambda>r. (pd_promo_uid r, t_promo_stock_source_uid t, pd_qty r))
                (filter (\<lambda>r. pd_promo_uid r \<in> set targets) (t_promos_distributed t))) ts))
      = concat (map (\<lambda>t. if t_promo_stock_source_uid t = [] then []
         else map (\<lambda>r. (pd_promo_uid r, t_promo_stock_source_uid t, pd_qty r))
                (filter (\<lambda>r. pd_promo_uid r \<in> set [p]) (t_promos_distributed t))) ts)" for ts
    using assms by (induction ts) (auto simp: filter_map comp_def intro!: arg_cong [of _ _ "map _"] filter_cong)
  then have "filter (\<lambda>a. fst a = p) (get_tournament_promo_attributions s targets) = get_tournament_promo_attributions s [p]"
    by (simp add: get_tournament_promo_attributions_def)
  with ledger show ?thesis
    by (simp add: compute_holdings_def totals_entries totals_attributions total_start)
qed

section \<open>What a recomputation leaves\<close>

definition holdings_upd :: "instant \<Rightarrow> (uid \<times> holdings) list \<Rightarrow> obj \<Rightarrow> obj option" where
  "holdings_upd now hs x = (case x of
     OPromo p \<Rightarrow> if dict_eq (p_holdings p) (holdings_of hs (uid p)) then None
        else Some (OPromo (p\<lparr>p_holdings := holdings_of hs (uid p), modified := now\<rparr>))
   | _ \<Rightarrow> None)"

definition stock_upd :: "instant \<Rightarrow> uid list \<Rightarrow> (uid \<times> (uid \<times> int) list) list \<Rightarrow> obj \<Rightarrow> obj option" where
  "stock_upd now targets stocks x = (case x of
     OUser u \<Rightarrow> Option.bind (map_of stocks (uid u)) (\<lambda>d.
        let merged = merged_stock targets d (u_promo_stock u)
        in if dict_eq merged (u_promo_stock u) then None
           else Some (OUser (u\<lparr>u_promo_stock := merged, modified := now\<rparr>)))
   | _ \<Rightarrow> None)"

lemma without_owner_columns_stock:
  "without_owner_columns (u\<lparr>u_promo_stock := m, modified := n\<rparr>) = (without_owner_columns u)\<lparr>u_promo_stock := m, modified := n\<rparr>"
  by (simp add: without_owner_columns_def)

lemma upd_keeps: "keeps_object (holdings_upd now hs)" "keeps_object (stock_upd now targets stocks)"
proof -
  show "keeps_object (holdings_upd now hs)"
    by (auto simp: keeps_object_def holdings_upd_def split: obj.splits if_splits)
  show "keeps_object (stock_upd now targets stocks)"
    unfolding keeps_object_def
  proof (intro allI impI)
    fix x y assume upd: "stock_upd now targets stocks x = Some y"
    then obtain u m where x: "x = OUser u" and y: "y = OUser (u\<lparr>u_promo_stock := m, modified := now\<rparr>)"
      by (auto simp: stock_upd_def Let_def split: obj.splits if_splits Option.bind_splits)
    show "obj_uid y = obj_uid x \<and> index_keys y = index_keys x \<and> (as_stored x = x \<longrightarrow> as_stored y = y)"
      by (simp add: x y without_owner_columns_stock)
  qed
qed

lemma get_promo_read: "get_promo_by_uid s u = Option.bind (read_object s u) as_promo"
  "get_user_by_uid s u = user_at s u"
  by (simp_all add: get_promo_by_uid_def get_user_by_uid_def get_object_full_read user_at_def)

lemma as_promo_Some: "as_promo x = Some p \<longleftrightarrow> x = OPromo p"
  by (cases x) auto

lemma store_holdings_touch:
  assumes "rows_ok s0" and "passed_objects (holdings_upd now hs) seen s0 (fst srv)" and "uid p \<notin> seen"
    and "read_object s0 (uid p) = Some (OPromo p)"
  shows "store_holdings now hs p srv = touch_object now (holdings_upd now hs) (uid p) srv"
proof -
  have "read_object (fst srv) (uid p) = Some (OPromo p)"
    using assms(2-4) by (simp add: passed_objects_def)
  then show ?thesis
    by (cases srv) (simp add: store_holdings_def touch_object_def holdings_upd_def seq_def get_promo_read)
qed

lemma store_stock_touch:
  assumes "rows_ok s0" and "passed_objects (stock_upd now targets stocks) seen s0 (fst srv)" and "u \<notin> seen"
    and "map_of stocks u = Some d"
  shows "store_stock now targets (u, d) srv = touch_object now (stock_upd now targets stocks) u srv"
proof -
  have same: "read_object (fst srv) u = read_object s0 u"
    using assms(2,3) by (simp add: passed_objects_def option.map_ident)
  have ok: "rows_ok (fst srv)" using assms(2) by (simp add: passed_objects_def)
  show ?thesis
  proof (cases "user_at (fst srv) u")
    case None
    then have "Option.bind (read_object (fst srv) u) (stock_upd now targets stocks) = None"
      by (auto simp: user_at_def stock_upd_def split: Option.bind_splits obj.splits)
    then show ?thesis using None by (cases srv) (simp add: store_stock_def touch_object_def seq_def get_promo_read)
  next
    case (Some v)
    then have "uid v = u" "read_object (fst srv) u = Some (OUser v)"
      using stored_user(1) [OF ok Some] by (simp_all add: user_at_read)
    then show ?thesis using Some assms(4)
      by (cases srv) (simp add: store_stock_def touch_object_def seq_def get_promo_read stock_upd_def Let_def)
  qed
qed

section \<open>The figures\<close>

lemma hold_keys:
  assumes "distinct_keys hs" "list_all (\<lambda>(p, per). distinct_keys per) hs" and "p \<in> key_set hs"
  shows "distinct_keys (hold p h f hs)" "list_all (\<lambda>(p, per). distinct_keys per) (hold p h f hs)"
    "keys (hold p h f hs) = keys hs"
proof -
  show "distinct_keys (hold p h f hs)" using assms(1) by (simp add: hold_def Let_def)
  show "keys (hold p h f hs) = keys hs" using assms(3) by (simp add: hold_def Let_def keys_put_present)
  obtain per where per: "map_of hs p = Some per" using assms(3) by (auto simp: key_set_map_of)
  then have "distinct_keys per" using assms(2) by (force simp: list_all_iff dest: map_of_SomeD)
  then have new: "distinct_keys (put h v per)" for v by simp
  have "list_all (\<lambda>(p, per). distinct_keys per) hs \<Longrightarrow> distinct_keys q \<Longrightarrow> list_all (\<lambda>(p, per). distinct_keys per) (put p q hs)" for q
    by (induction hs) auto
  then show "list_all (\<lambda>(p, per). distinct_keys per) (hold p h f hs)"
    using assms(2) new by (simp add: hold_def Let_def per)
qed

lemma dict_eq_iff: "dict_eq d e \<longleftrightarrow> map_of d = map_of e"
proof
  assume eq: "dict_eq d e"
  show "map_of d = map_of e"
  proof
    fix k
    have "k \<in> key_set d \<Longrightarrow> map_of e k = map_of d k" "k \<in> key_set e \<Longrightarrow> map_of d k = map_of e k"
      using eq by (auto simp: dict_eq_def list_all_iff key_set_def)
    then show "map_of d k = map_of e k" by (metis map_of_None_keys)
  qed
qed (simp add: dict_eq_def list_all_iff)

lemma merged_stock_of:
  "map_of (merged_stock targets st old) p = (if p \<in> set targets then map_of st p else map_of old p)"
proof -
  have "map_of (fold (\<lambda>p d. case map_of st p of Some q \<Rightarrow> put p q d | None \<Rightarrow> del p d) targets d) p
      = (if p \<in> set targets then map_of st p else map_of d p)" for d
    by (induction targets arbitrary: d) (auto split: option.split)
  then show ?thesis by (simp add: merged_stock_def)
qed

text \<open>Every promo asked for has its own table, with one line a holder.\<close>

definition holdings_ok :: "uid list \<Rightarrow> (uid \<times> holdings) list \<Rightarrow> bool" where
  "holdings_ok targets hs \<longleftrightarrow> distinct_keys hs \<and> list_all (\<lambda>(p, per). distinct_keys per) hs \<and> keys hs = targets"

lemma holdings_ok_hold: "holdings_ok targets hs \<Longrightarrow> p \<in> set targets \<Longrightarrow> holdings_ok targets (hold p h f hs)"
  using hold_keys [of hs p h f] by (auto simp: holdings_ok_def key_set_def)

lemma holdings_ok_entries:
  "holdings_ok targets hs \<Longrightarrow> \<forall>e \<in> set es. le_promo_uid e \<in> set targets \<Longrightarrow> holdings_ok targets (fold apply_entry es hs)"
  by (induction es arbitrary: hs) (auto simp: apply_entry_def Let_def intro!: holdings_ok_hold)

lemma holdings_ok_attributions:
  "holdings_ok targets hs \<Longrightarrow> \<forall>a \<in> set as. fst a \<in> set targets \<Longrightarrow> holdings_ok targets (fold apply_attribution as hs)"
proof (induction as arbitrary: hs)
  case (Cons a as)
  obtain p holder q where a: "a = (p, holder, q)" by (cases a) auto
  have "holdings_ok targets (apply_attribution a hs)"
    using holdings_ok_hold [OF Cons.prems(1), of p] Cons.prems(2) by (simp add: a apply_attribution_def)
  then show ?case using Cons.IH Cons.prems(2) by simp
qed simp

lemma compute_holdings_ok:
  assumes "distinct targets"
  shows "holdings_ok targets (compute_holdings s targets)"
proof -
  have "holdings_ok targets (map (\<lambda>p. (p, [])) targets)"
    using assms by (auto simp: holdings_ok_def distinct_keys_def comp_def list_all_iff)
  moreover have "\<forall>e \<in> set (get_promo_ledger_for_promos s targets). le_promo_uid e \<in> set targets"
    by (simp add: get_promo_ledger_for_promos_def)
  moreover have "\<forall>a \<in> set (get_tournament_promo_attributions s targets). fst a \<in> set targets"
    by (auto simp: get_tournament_promo_attributions_def split: if_splits)
  ultimately show ?thesis
    unfolding compute_holdings_def by (intro holdings_ok_attributions holdings_ok_entries)
qed

text \<open>What a user's new figures say of a promo\<close>

definition stock_at :: "(uid \<times> (uid \<times> int) list) list \<Rightarrow> uid \<Rightarrow> uid \<Rightarrow> int option" where
  "stock_at st u p = Option.bind (map_of st u) (\<lambda>d. map_of d p)"

definition put_stock :: "uid \<Rightarrow> uid \<times> promo_holding \<Rightarrow> (uid \<times> (uid \<times> int) list) list \<Rightarrow> (uid \<times> (uid \<times> int) list) list" where
  "put_stock p x st = (case x of (holder, h) \<Rightarrow>
     put holder (put p (ph_remaining h) (case map_of st holder of None \<Rightarrow> [] | Some d \<Rightarrow> d)) st)"

lemma stock_at_put: "stock_at (put_stock p (holder, h) st) u q
    = (if u = holder \<and> q = p then Some (ph_remaining h) else stock_at st u q)"
  by (auto simp: stock_at_def put_stock_def split: option.split)

lemma stock_at_promo:
  "distinct_keys per \<Longrightarrow> stock_at (fold (put_stock p) per st) u q
    = (if q = p \<and> u \<in> key_set per then map_option ph_remaining (map_of per u) else stock_at st u q)"
proof (induction per arbitrary: st)
  case (Cons x per)
  obtain holder h where x: "x = (holder, h)" by (cases x)
  show ?case
    using Cons.IH [of "put_stock p x st"] Cons.prems by (auto simp: x stock_at_put)
qed simp

lemma stock_at_promos:
  "distinct_keys hs \<Longrightarrow> list_all (\<lambda>(p, per). distinct_keys per) hs \<Longrightarrow>
   stock_at (fold (\<lambda>(p, per). fold (put_stock p) per) hs st) u q
    = (if u \<in> key_set (holdings_of hs q) then map_option ph_remaining (map_of (holdings_of hs q) u) else stock_at st u q)"
proof (induction hs arbitrary: st)
  case (Cons x hs)
  obtain p per where x: "x = (p, per)" by (cases x)
  have "map_of hs p = None" using Cons.prems(1) by (simp add: x map_of_None_keys)
  then show ?case
    using Cons.IH [of "fold (put_stock p) per st"] Cons.prems stock_at_promo [of per p st u q]
    by (auto simp: x holdings_of_def)
qed (simp add: holdings_of_def)

lemma key_set_put_stocks: "key_set (fold (put_stock p) per st) = key_set st \<union> key_set per"
  by (induction per arbitrary: st) (auto simp: put_stock_def)

lemma key_set_promo_stocks:
  "key_set (fold (\<lambda>(p, per). fold (put_stock p) per) hs st) = key_set st \<union> (\<Union>(p, per) \<in> set hs. key_set per)"
  by (induction hs arbitrary: st) (auto simp: key_set_put_stocks)

lemma distinct_promo_stocks:
  "distinct_keys st \<Longrightarrow> distinct_keys (fold (\<lambda>(p, per). fold (put_stock p) per) hs st)"
proof -
  have "distinct_keys st \<Longrightarrow> distinct_keys (fold (put_stock p) per st)" for p per st
    by (induction per arbitrary: st) (auto simp: put_stock_def)
  then show "distinct_keys st \<Longrightarrow> distinct_keys (fold (\<lambda>(p, per). fold (put_stock p) per) hs st)"
    by (induction hs arbitrary: st) auto
qed

lemma setdefaults:
  "map_of (fold (\<lambda>u. setdefault u []) us st) u = (if map_of st u = None \<and> u \<in> set us then Some [] else map_of st u)"
  "distinct_keys st \<Longrightarrow> distinct_keys (fold (\<lambda>u. setdefault u []) us st)"
proof -
  show "map_of (fold (\<lambda>u. setdefault u []) us st) u = (if map_of st u = None \<and> u \<in> set us then Some [] else map_of st u)"
    by (induction us arbitrary: st) (auto simp: map_of_setdefault)
  show "distinct_keys st \<Longrightarrow> distinct_keys (fold (\<lambda>u. setdefault u []) us st)"
  proof (induction us arbitrary: st)
    case (Cons u us)
    have "distinct_keys (setdefault u [] st)"
      using Cons.prems by (auto simp: setdefault_def distinct_keys_def map_of_eq_None_iff)
    then show ?case using Cons.IH by simp
  qed simp
qed

lemma user_stocks_of:
  assumes "holdings_ok targets hs"
  shows "distinct_keys (user_stocks s targets hs)"
    "map_of (user_stocks s targets hs) u = Some d \<Longrightarrow> map_of d p = map_option ph_remaining (map_of (holdings_of hs p) u)"
    "map_of (user_stocks s targets hs) u = None \<Longrightarrow> map_of (holdings_of hs p) u = None
      \<and> u \<notin> set (get_users_with_promo_stock_keys s targets)"
proof -
  define st where "st = fold (\<lambda>(p, per). fold (put_stock p) per) hs []"
  have stocks: "user_stocks s targets hs = fold (\<lambda>u. setdefault u []) (get_users_with_promo_stock_keys s targets) st"
    by (simp add: user_stocks_def st_def put_stock_def [abs_def] case_prod_unfold)
  have hs: "distinct_keys hs" "list_all (\<lambda>(p, per). distinct_keys per) hs" using assms by (simp_all add: holdings_ok_def)
  show "distinct_keys (user_stocks s targets hs)"
    unfolding stocks st_def by (intro setdefaults(2) distinct_promo_stocks) simp
  have at: "stock_at st u p = map_option ph_remaining (map_of (holdings_of hs p) u)"
    using stock_at_promos [OF hs, of "[]" u p] by (auto simp: st_def stock_at_def map_of_None_keys)
  show "map_of d p = map_option ph_remaining (map_of (holdings_of hs p) u)" if "map_of (user_stocks s targets hs) u = Some d"
    using that at by (auto simp: stocks setdefaults stock_at_def split: if_splits)
  show "map_of (holdings_of hs p) u = None \<and> u \<notin> set (get_users_with_promo_stock_keys s targets)"
    if "map_of (user_stocks s targets hs) u = None"
    using that at by (auto simp: stocks setdefaults stock_at_def split: if_splits)
qed

section \<open>The recomputation\<close>

definition stock_targets :: "db \<Rightarrow> uid list option \<Rightarrow> promo list" where
  "stock_targets s ps = (case ps of None \<Rightarrow> get_all_promos s | Some us \<Rightarrow> filter (\<lambda>p. uid p \<in> set us) (get_all_promos s))"

lemma live_promos:
  assumes "rows_ok s"
  shows "distinct (map uid (get_all_promos s))" "p \<in> set (get_all_promos s) \<Longrightarrow> read_object s (uid p) = Some (OPromo p)"
proof -
  have rows: "distinct_keys (db_objects s)" by (rule rows_ok_distinct [OF assms])
  have uid: "obj_uid (row_full r) = k" if "(k, r) \<in> set (db_objects s)" for k r
    using rows_ok_uid [OF assms] in_set_map_of [OF rows] that by blast
  show "read_object s (uid p) = Some (OPromo p)" if "p \<in> set (get_all_promos s)"
  proof -
    from that obtain k r where kr: "(k, r) \<in> set (db_objects s)" "row_full r = OPromo p"
      by (auto simp: get_all_promos_def live_rows_def rows_def in_map_filter as_promo_Some)
    then have "uid p = k" using uid [OF kr(1)] by simp
    then show ?thesis using in_set_map_of [OF rows, of k r] kr by (simp add: read_object_def)
  qed
  have sub: "map uid (List.map_filter (as_promo \<circ> row_full) (map snd kvs)) = map fst (filter (\<lambda>(k, r). as_promo (row_full r) \<noteq> None) kvs)"
    if "\<forall>(k, r) \<in> set kvs. obj_uid (row_full r) = k" for kvs :: "(uid \<times> row) list"
    using that by (induction kvs) (auto simp: map_filter_simps as_promo_Some split: option.split)
  define kvs where "kvs = filter (\<lambda>(k, r). row_deleted_at r = None) (db_objects s)"
  have "live_rows s = map snd kvs"
    by (simp add: live_rows_def rows_def kvs_def filter_map comp_def case_prod_unfold)
  moreover have "\<forall>(k, r) \<in> set kvs. obj_uid (row_full r) = k" using uid by (auto simp: kvs_def)
  moreover have "distinct (map fst kvs)" using rows by (simp add: kvs_def distinct_keys_def distinct_map_filter)
  ultimately show "distinct (map uid (get_all_promos s))"
    by (simp add: get_all_promos_def sub distinct_map_filter)
qed

lemma stock_targets_ok:
  assumes "rows_ok s"
  shows "distinct (map uid (stock_targets s ps))" "p \<in> set (stock_targets s ps) \<Longrightarrow> read_object s (uid p) = Some (OPromo p)"
  using live_promos [OF assms] by (auto simp: stock_targets_def distinct_map_filter split: option.split_asm option.split)

lemma holdings_left:
  assumes "rows_ok s" and p: "p \<in> set (stock_targets s ps)"
    and "passed_objects (holdings_upd now hs) (uid ` set (stock_targets s ps)) s s1"
  shows "\<exists>pr. get_promo_by_uid s1 (uid p) = Some pr \<and> map_of (p_holdings pr) = map_of (holdings_of hs (uid p))"
proof -
  have "read_object s1 (uid p) = Some (touched (holdings_upd now hs) (OPromo p))"
    using stock_targets_ok(2) [OF assms(1) p] assms(3) p by (simp add: passed_objects_def)
  moreover have "\<exists>pr. touched (holdings_upd now hs) (OPromo p) = OPromo pr \<and> map_of (p_holdings pr) = map_of (holdings_of hs (uid p))"
    by (auto simp: touched_def holdings_upd_def dict_eq_iff)
  ultimately show ?thesis by (auto simp: get_promo_read)
qed

lemma stock_left:
  assumes "rows_ok s1" and hs: "holdings_ok targets hs"
    and passed: "passed_objects (stock_upd now targets (user_stocks s1 targets hs)) (key_set (user_stocks s1 targets hs)) s1 s2"
    and live: "live_user s2 u = Some v" and p: "p \<in> set targets"
  shows "map_of (u_promo_stock v) p = map_option ph_remaining (map_of (holdings_of hs p) u)"
proof -
  let ?st = "user_stocks s1 targets hs"
  obtain r where r: "map_of (db_objects s2) u = Some r" "row_deleted_at r = None" "row_full r = OUser v"
    using live by (auto simp: live_user_def as_user_Some split: Option.bind_splits if_splits)
  then have "read_object s2 u = Some (OUser v)" by (simp add: read_object_def)
  then obtain x where x: "read_object s1 u = Some x" "OUser v = (if u \<in> key_set ?st then touched (stock_upd now targets ?st) x else x)"
    using passed by (auto simp: passed_objects_def)
  have ux: "obj_uid x = u" by (rule stored_object [OF assms(1) x(1)])
  show ?thesis
  proof (cases "map_of ?st u")
    case (Some d)
    then have seen: "u \<in> key_set ?st" by (simp add: key_set_map_of)
    have fig: "map_of d q = map_option ph_remaining (map_of (holdings_of hs q) u)" for q
      by (rule user_stocks_of(2) [OF hs Some])
    obtain w where w: "x = OUser w" "uid w = u"
      using x(2) seen ux by (cases x) (auto simp: touched_def stock_upd_def)
    have "map_of (u_promo_stock v) = map_of (merged_stock targets d (u_promo_stock w))"
      using x(2) seen by (auto simp: w touched_def stock_upd_def Some Let_def dict_eq_iff split: if_splits)
    then show ?thesis using p fig by (simp add: merged_stock_of)
  next
    case None
    then have "x = OUser v" using x(2) by (simp add: key_set_map_of)
    then have "stock_upd now targets ?st x = None" using None ux by (simp add: stock_upd_def)
    then have "map_of (db_objects s1) u = Some r" using passed x(1) r(1) by (simp add: passed_objects_def)
    then have row: "(u, r) \<in> set (db_objects s1)" by (rule map_of_SomeD)
    have none: "map_of (holdings_of hs p) u = None" "u \<notin> set (get_users_with_promo_stock_keys s1 targets)"
      using user_stocks_of(3) [OF hs None] by auto
    then have "\<not> list_ex (\<lambda>p. p \<in> set targets) (keys (u_promo_stock v))"
      using row r(2,3) by (force simp: get_users_with_promo_stock_keys_def image_iff)
    then have "map_of (u_promo_stock v) p = None" using p by (auto simp: list_ex_iff map_of_None_keys key_set_def)
    then show ?thesis by (simp add: none)
  qed
qed

text \<open>C23: A recomputation always ends well and leaves the stored figures right: each of the promos
  asked for holds the figures of the ledger and the reports, and the stock of every live user is, for
  each of these promos, exactly what that promo says the user has left - none where the user never
  held any.\<close>

theorem recompute_promo_stock_converges:
  assumes "rows_ok s"
  shows "case recompute_promo_stock now ps (s, c) of
      (Inl e, _) \<Rightarrow> False
    | (Inr _, (s', c')) \<Rightarrow> rows_ok s' \<and> list_all (\<lambda>p.
        (case get_promo_by_uid s' p of None \<Rightarrow> False
         | Some pr \<Rightarrow> map_of (p_holdings pr) = map_of (holdings_of (compute_holdings s (map uid (stock_targets s ps))) p))
        \<and> (\<forall>u. case live_user s' u of None \<Rightarrow> True
           | Some v \<Rightarrow> map_of (u_promo_stock v) p = map_option ph_remaining
               (map_of (holdings_of (compute_holdings s (map uid (stock_targets s ps))) p) u)))
        (map uid (stock_targets s ps))"
proof (cases "stock_targets s ps = []")
  case True
  then show ?thesis using assms by (simp add: recompute_promo_stock_def stock_targets_def [symmetric] seq_def)
next
  case False
  define targets where "targets = map uid (stock_targets s ps)"
  define hs where "hs = compute_holdings s targets"
  have hs: "holdings_ok targets hs"
    unfolding hs_def targets_def by (rule compute_holdings_ok [OF stock_targets_ok(1) [OF assms]])
  have "\<exists>out srv'. for_each (store_holdings now hs) (stock_targets s ps) (s, c) = (Inr out, srv')
      \<and> passed_objects (holdings_upd now hs) ({} \<union> set targets) s (fst srv')"
  proof (rule touch_objects [where f = uid and us = targets])
    show "passed_objects (holdings_upd now hs) {} s (fst (s, c))" using passed_objects_start [OF assms] by simp
    show "store_holdings now hs p srv = touch_object now (holdings_upd now hs) (uid p) srv"
      if "p \<in> set (stock_targets s ps)" "uid p \<notin> seen" "passed_objects (holdings_upd now hs) seen s (fst srv)" for p srv seen
      by (rule store_holdings_touch [OF assms that(3,2) stock_targets_ok(2) [OF assms that(1)]])
  qed (simp_all add: upd_keeps assms targets_def stock_targets_ok(1) [OF assms])
  then obtain out1 srv1 where p1: "for_each (store_holdings now hs) (stock_targets s ps) (s, c) = (Inr out1, srv1)"
    "passed_objects (holdings_upd now hs) (set targets) s (fst srv1)" by auto
  obtain s1 c1 where srv1: "srv1 = (s1, c1)" by (cases srv1)
  have ok1: "rows_ok s1" using p1(2) by (simp add: passed_objects_def srv1)
  define st where "st = user_stocks s1 targets hs"
  have dk: "distinct_keys st" unfolding st_def by (rule user_stocks_of(1) [OF hs])
  have "\<exists>out srv'. for_each (store_stock now targets) st (s1, c1) = (Inr out, srv')
      \<and> passed_objects (stock_upd now targets st) ({} \<union> set (map fst st)) s1 (fst srv')"
  proof (rule touch_objects [where f = fst and us = "map fst st"])
    show "passed_objects (stock_upd now targets st) {} s1 (fst (s1, c1))" using passed_objects_start [OF ok1] by simp
    show "store_stock now targets x srv = touch_object now (stock_upd now targets st) (fst x) srv"
      if "x \<in> set st" "fst x \<notin> seen" "passed_objects (stock_upd now targets st) seen s1 (fst srv)" for x srv seen
      using store_stock_touch [OF ok1 that(3,2), of "snd x"] in_set_map_of [OF dk, of "fst x" "snd x"] that(1) by simp
  qed (use dk in \<open>simp_all add: upd_keeps ok1 distinct_keys_def\<close>)
  then obtain out2 s2 c2 where p2: "for_each (store_stock now targets) st (s1, c1) = (Inr out2, (s2, c2))"
    "passed_objects (stock_upd now targets st) (key_set st) s1 s2" by (auto simp: key_set_def)
  have run: "recompute_promo_stock now ps (s, c) = (Inr (), (s2, c2))"
    using False p1(1) p2(1) unfolding recompute_promo_stock_def
    by (simp add: stock_targets_def [symmetric] seq_def targets_def [symmetric] hs_def [symmetric] srv1 st_def [symmetric])
  have ok2: "rows_ok s2" using p2(2) by (simp add: passed_objects_def)
  have promo: "\<exists>pr. get_promo_by_uid s2 p = Some pr \<and> map_of (p_holdings pr) = map_of (holdings_of hs p)" if "p \<in> set targets" for p
  proof -
    from that obtain x where "x \<in> set (stock_targets s ps)" "p = uid x" unfolding targets_def by auto
    then obtain pr where pr: "get_promo_by_uid s1 p = Some pr" "map_of (p_holdings pr) = map_of (holdings_of hs p)"
      using holdings_left [OF assms, of x ps now hs s1] p1(2) by (auto simp: targets_def srv1)
    then have "read_object s1 p = Some (OPromo pr)" by (auto simp: get_promo_read as_promo_Some split: Option.bind_splits)
    then have "get_promo_by_uid s2 p = Some pr"
      using p2(2) by (simp add: passed_objects_def get_promo_read touched_def stock_upd_def)
    then show ?thesis using pr(2) by blast
  qed
  have stock: "map_of (u_promo_stock v) p = map_option ph_remaining (map_of (holdings_of hs p) u)"
    if "live_user s2 u = Some v" "p \<in> set targets" for u v p
    by (rule stock_left [OF ok1 hs _ that]) (use p2(2) in \<open>simp add: st_def\<close>)
  show ?thesis
    unfolding run prod.case sum.case targets_def [symmetric] hs_def [symmetric] list_all_iff
    using ok2 promo stock by (fastforce split: option.split)
qed

section \<open>The laws at work\<close>

definition sample_stock :: db where
  "sample_stock = empty_db\<lparr>db_ledger := [
     \<lparr>le_uid = ''l1'', le_kind = INTAKE, le_promo_uid = ''p'', le_qty = 5, le_from_uid = ''a'', le_to_uid = None,
       le_note = [], le_happened_at = Instant 2026 1 1 0, le_created_by = ''a'', le_created_at = Instant 2026 1 1 0\<rparr>,
     \<lparr>le_uid = ''l2'', le_kind = ASSIGNMENT, le_promo_uid = ''p'', le_qty = 3, le_from_uid = ''a'', le_to_uid = Some ''b'',
       le_note = [], le_happened_at = Instant 2026 1 2 0, le_created_by = ''a'', le_created_at = Instant 2026 1 2 0\<rparr>]\<rparr>"

theorem stock_is_conserved_witness:
  "total_by ph_remaining (compute_holdings sample_stock [''p'']) ''p'' = 5
   \<and> total_by ph_assigned (compute_holdings sample_stock [''p'']) ''p'' = 8"
  using stock_is_conserved [of "''p''" "[''p'']" sample_stock]
  by (simp add: sample_stock_def stock_change_def assigned_change_def truthy_str_def get_tournament_promo_attributions_def
      live_tournaments_def live_rows_def rows_def empty_db_def map_filter_simps)

definition sample_promo :: obj where
  "sample_promo = OPromo (new_promo ''p'' (Instant 2026 1 1 0) ''Promo'')"

lemma sample_promo_saved: "\<exists>bd s'. save_object now sample_promo None sample_stock = Inr (bd, s')"
  using save_object_total [of sample_promo sample_stock now None]
  by (simp add: sample_promo_def index_conflict_def)

lemma sample_stock_ok: "rows_ok sample_stock"
  using empty_db_ok by (simp add: db_ok_def sample_stock_def rows_ok_def unique_index_def index_of_def)

theorem recompute_promo_stock_converges_witness:
  "\<exists>bd s. save_object (Instant 2026 1 1 0) sample_promo None sample_stock = Inr (bd, s)
     \<and> rows_ok (fst (snd (recompute_promo_stock (Instant 2026 1 2 0) (Some [''p'']) (s, sample_sse))))"
proof -
  obtain bd s where save: "save_object (Instant 2026 1 1 0) sample_promo None sample_stock = Inr (bd, s)"
    using sample_promo_saved by blast
  have "rows_ok s" by (rule save_object_rows_ok [OF sample_stock_ok save])
  from recompute_promo_stock_converges [OF this, where now = "Instant 2026 1 2 0" and ps = "Some [''p'']" and c = sample_sse]
  have "rows_ok (fst (snd (recompute_promo_stock (Instant 2026 1 2 0) (Some [''p'']) (s, sample_sse))))"
    by (auto split: prod.splits sum.splits)
  then show ?thesis using save by blast
qed

end
