(* ===== verification/Decks.thy ===== *)
theory Decks
  imports Queries Server
begin

text \<open>
  Decks: \<open>backend/src/decks.py\<close> applies the deck operations an event of the rule engine comes back
  with, and the parts of \<open>engine/src/tournament/helpers.rs\<close> that emit them.
\<close>

section \<open>The engine's side\<close>

text \<open>What the engine is told of a deck (\<open>build_decks_json\<close>)\<close>

record deck_json =
  dj_user_uid :: uid
  dj_round :: "int option"
  dj_uid :: uid
  dj_public :: bool
  dj_winner :: bool
  dj_private :: bool

definition deck_to_json :: "deck \<Rightarrow> deck_json" where
  "deck_to_json d = \<lparr>dj_user_uid = d_user_uid d, dj_round = d_round d, dj_uid = uid d, dj_public = d_public d,
     dj_winner = d_winner d, dj_private = d_private d\<rparr>"

definition build_decks_json :: "db \<Rightarrow> uid \<Rightarrow> deck_json list" where
  "build_decks_json s t = map deck_to_json (get_decks_for_tournament s t)"

text \<open>The body of an upload; an absent credit leaves the stored one standing.\<close>

record deck_data =
  dd_round :: "int option"
  dd_name :: string
  dd_comments :: string
  dd_cards :: "(string \<times> int) list"
  dd_attribution :: "deck_attribution option"
  dd_public :: bool
  dd_winner :: bool
  dd_private :: bool

datatype deck_op =
    Upsert uid deck_data
  | Delete uid "int option" bool
  | SetRound uid "int option"
  | SetPublication uid bool bool
  | SetAttribution uid uid deck_attribution
  | SetPrivate uid bool
  | LogView uid uid int

definition as_usize :: "int option \<Rightarrow> nat option" where
  "as_usize r = (case r of None \<Rightarrow> None | Some i \<Rightarrow> if 0 \<le> i then Some (nat i) else None)"

definition seated_in_round :: "tournament \<Rightarrow> nat \<Rightarrow> uid list" where
  "seated_in_round t i =
     (if length (t_rounds t) \<le> i
      then (case t_finals t of None \<Rightarrow> [] | Some f \<Rightarrow> map seat_player_uid (tb_seating f))
      else map seat_player_uid (concat (map tb_seating
             (filter (\<lambda>tb. tb_state tb \<noteq> TS_CANCELLED) (t_rounds t ! i)))))"

text \<open>The loop over the decks; \<open>taken\<close> are the players who have a deck for the round.\<close>

fun stamp_pending :: "uid list \<Rightarrow> nat \<Rightarrow> uid list \<Rightarrow> deck_json list \<Rightarrow> deck_op list" where
  "stamp_pending seated i taken [] = []"
| "stamp_pending seated i taken (d # ds) =
     (if dj_round d \<noteq> None \<or> dj_user_uid d \<notin> set seated \<or> dj_user_uid d \<in> set taken
      then stamp_pending seated i taken ds
      else SetRound (dj_uid d) (Some (int i)) # stamp_pending seated i (dj_user_uid d # taken) ds)"

definition stamp_round_decks :: "tournament \<Rightarrow> deck_json list \<Rightarrow> nat \<Rightarrow> deck_op list" where
  "stamp_round_decks t ds i =
     (if \<not> t_multideck t then []
      else stamp_pending (seated_in_round t i) i
             (map dj_user_uid (filter (\<lambda>d. as_usize (dj_round d) = Some i) ds)) ds)"

definition release_stamped_decks :: "deck_json list \<Rightarrow> nat list \<Rightarrow> uid option \<Rightarrow> deck_op list" where
  "release_stamped_decks ds removed player =
     map (\<lambda>d. SetRound (dj_uid d) None)
       (filter (\<lambda>d. (case as_usize (dj_round d) of None \<Rightarrow> False | Some r \<Rightarrow> r \<in> set removed)
          \<and> (case player of None \<Rightarrow> True | Some u \<Rightarrow> dj_user_uid d = u)) ds)"

definition count_player_rounds_played :: "tournament \<Rightarrow> uid \<Rightarrow> nat" where
  "count_player_rounds_played t u =
     length (filter (list_ex (\<lambda>tb. tb_state tb \<noteq> TS_CANCELLED
       \<and> list_ex (\<lambda>seat. seat_player_uid seat = u) (tb_seating tb))) (t_rounds t))"

definition compute_deck_public :: "tournament \<Rightarrow> uid \<Rightarrow> bool \<Rightarrow> bool" where
  "compute_deck_public t u private =
     (if t_state t \<noteq> T_FINISHED then False
      else if private then t_winner t = u
      else case t_decklists_mode t of
        DL_ALL \<Rightarrow> t_rounds t = [] \<or> 0 < count_player_rounds_played t u
      | DL_FINALISTS \<Rightarrow> t_winner t = u
          \<or> list_ex (\<lambda>p. pl_user_uid p = Some u \<and> pl_finalist p) (t_players t)
      | DL_WINNER \<Rightarrow> t_winner t = u)"

definition compute_deck_winner :: "tournament \<Rightarrow> uid \<Rightarrow> bool" where
  "compute_deck_winner t u \<longleftrightarrow> t_winner t = u"

text \<open>A deck the operations so far upserted or deleted already carries its answer.\<close>

definition deck_touched :: "deck_op list \<Rightarrow> deck_json \<Rightarrow> bool" where
  "deck_touched ops d = list_ex (\<lambda>op. case op of
       Upsert player x \<Rightarrow> player = dj_user_uid d \<and> as_usize (dd_round x) = as_usize (dj_round d)
     | Delete player i multi \<Rightarrow> player = dj_user_uid d \<and> (\<not> multi \<or> as_usize i = as_usize (dj_round d))
     | _ \<Rightarrow> False) ops"

fun sets_private :: "uid \<Rightarrow> deck_op \<Rightarrow> bool" where
  "sets_private u (SetPrivate v p) \<longleftrightarrow> v = u" | "sets_private u _ \<longleftrightarrow> False"

definition private_after :: "deck_op list \<Rightarrow> deck_json \<Rightarrow> bool" where
  "private_after ops d = (case find (sets_private (dj_uid d)) (rev ops) of
     Some (SetPrivate _ p) \<Rightarrow> p | _ \<Rightarrow> dj_private d)"

definition deck_publication :: "tournament \<Rightarrow> deck_op list \<Rightarrow> deck_json \<Rightarrow> deck_op option" where
  "deck_publication t ops d =
     (if deck_touched ops d \<or> dj_user_uid d = [] \<or> dj_uid d = [] then None
      else let pub = compute_deck_public t (dj_user_uid d) (private_after ops d);
               win = compute_deck_winner t (dj_user_uid d)
           in if dj_public d \<noteq> pub \<or> dj_winner d \<noteq> win then Some (SetPublication (dj_uid d) pub win) else None)"

definition recompute_deck_publication :: "tournament \<Rightarrow> deck_json list \<Rightarrow> deck_op list \<Rightarrow> deck_op list" where
  "recompute_deck_publication t ds ops =
     ops @ List.map_filter (deck_publication t ops) ds"

section \<open>Saving a deck\<close>

definition save_deck ::
    "instant \<Rightarrow> tournament_state option \<Rightarrow> uid list \<Rightarrow> deck \<Rightarrow> db \<Rightarrow> (broadcast_data \<times> db) res" where
  "save_deck now st orgs d s = bind_res (save_object_from_model now (ODeck d) s) (\<lambda>(bd, s').
     Inr (bd\<lparr>bd_org_uids := Some (deck_org_uids (d_private d) st orgs)\<rparr>, s'))"

definition save_event_deck :: "instant \<Rightarrow> tournament \<Rightarrow> deck \<Rightarrow> (db, broadcast_data) prog" where
  "save_event_deck now t d = atomic (save_deck now (Some (t_state t)) (t_organizers_uids t) d)"

section \<open>Applying the operations\<close>

text \<open>
  \<open>existing\<close> is read once and its decks are changed in place: what one operation does to a deck,
  the next ones of the batch see.  A deck is found again by its uid.
\<close>

definition set_deck :: "deck \<Rightarrow> deck list \<Rightarrow> deck list" where
  "set_deck d = map (\<lambda>e. if uid e = uid d then d else e)"

definition uploaded :: "instant \<Rightarrow> deck_data \<Rightarrow> deck \<Rightarrow> deck" where
  "uploaded now x d = d\<lparr>modified := now, d_round := dd_round x, d_name := dd_name x, d_comments := dd_comments x,
     d_cards := dd_cards x,
     d_attribution := (case dd_attribution x of None \<Rightarrow> d_attribution d | Some a \<Rightarrow> a),
     d_public := dd_public x, d_winner := dd_winner x, d_private := dd_private x\<rparr>"

type_synonym deck_batch = "deck list \<times> broadcast_data list"

definition update_target ::
    "instant \<Rightarrow> tournament \<Rightarrow> uid \<Rightarrow> (deck \<Rightarrow> deck) \<Rightarrow> deck list \<Rightarrow> (db, deck_batch) prog" where
  "update_target now t u f existing = (case find (\<lambda>d. uid d = u) existing of
     None \<Rightarrow> return (existing, [])
   | Some d \<Rightarrow> let d' = (f d)\<lparr>modified := now\<rparr>
       in seq (save_event_deck now t d') (\<lambda>bd. return (set_deck d' existing, [bd])))"

definition upsert_deck ::
    "instant \<Rightarrow> uid \<Rightarrow> tournament \<Rightarrow> uid \<Rightarrow> uid \<Rightarrow> deck_data \<Rightarrow> deck list \<Rightarrow> (db, deck_batch) prog" where
  "upsert_deck now mint t tu player x existing =
     (case find (\<lambda>d. d_user_uid d = player \<and> d_round d = dd_round x) existing of
        Some d \<Rightarrow> let d' = uploaded now x d
          in seq (save_event_deck now t d') (\<lambda>bd. return (set_deck d' existing, [bd]))
      | None \<Rightarrow> seq (save_event_deck now t (uploaded now x (new_deck mint now tu player)))
          (\<lambda>bd. return (existing, [bd])))"

definition deck_hit :: "uid \<Rightarrow> int option \<Rightarrow> bool \<Rightarrow> deck \<Rightarrow> bool" where
  "deck_hit player i multi d \<longleftrightarrow> d_user_uid d = player \<and> (\<not> multi \<or> d_round d = i)"

definition buried_deck :: "instant \<Rightarrow> deck \<Rightarrow> deck" where
  "buried_deck now d = d\<lparr>deleted_at := Some now, modified := now\<rparr>"

definition delete_decks ::
    "instant \<Rightarrow> tournament \<Rightarrow> uid \<Rightarrow> int option \<Rightarrow> bool \<Rightarrow> deck list \<Rightarrow> (db, deck_batch) prog" where
  "delete_decks now t player i multi existing =
     seq (for_each (\<lambda>d. save_event_deck now t (buried_deck now d)) (filter (deck_hit player i multi) existing))
       (\<lambda>bds. return (map (\<lambda>d. if deck_hit player i multi d then buried_deck now d else d) existing, bds))"

text \<open>The deck is read again under the row lock; the batch's copy is not the one changed.\<close>

definition log_view :: "instant \<Rightarrow> tournament \<Rightarrow> uid \<Rightarrow> uid \<Rightarrow> uid \<Rightarrow> int \<Rightarrow> (db, broadcast_data list) prog" where
  "log_view now t tu u viewer r =
     seq (gets (\<lambda>s. find (\<lambda>d. uid d = u) (get_decks_for_tournament s tu))) (\<lambda>target. case target of
        None \<Rightarrow> return []
      | Some d \<Rightarrow>
          if list_all (\<lambda>v. dv_user_uid v \<noteq> viewer) (d_views d)
          then seq (save_event_deck now t (d\<lparr>d_views := d_views d @ [\<lparr>dv_user_uid = viewer, dv_round = r\<rparr>],
                 modified := now\<rparr>)) (\<lambda>bd. return [bd])
          else return [])"

fun deck_op_step ::
    "instant \<Rightarrow> uid \<Rightarrow> tournament \<Rightarrow> uid \<Rightarrow> deck_op \<Rightarrow> deck list \<Rightarrow> (db, deck_batch) prog" where
  "deck_op_step now mint t tu (Upsert player x) ds = upsert_deck now mint t tu player x ds"
| "deck_op_step now mint t tu (Delete player i multi) ds = delete_decks now t player i multi ds"
| "deck_op_step now mint t tu (SetRound u r) ds = update_target now t u (\<lambda>d. d\<lparr>d_round := r\<rparr>) ds"
| "deck_op_step now mint t tu (SetPublication u p w) ds =
     update_target now t u (\<lambda>d. d\<lparr>d_public := p, d_winner := w\<rparr>) ds"
| "deck_op_step now mint t tu (SetAttribution player u a) ds = update_target now t u (\<lambda>d. d\<lparr>d_attribution := a\<rparr>) ds"
| "deck_op_step now mint t tu (SetPrivate u p) ds = update_target now t u (\<lambda>d. d\<lparr>d_private := p\<rparr>) ds"
| "deck_op_step now mint t tu (LogView u viewer r) ds =
     seq (log_view now t tu u viewer r) (\<lambda>bds. return (ds, bds))"

text \<open>\<open>mint n\<close> is the uid the operation at place \<open>n\<close> draws for a new deck.\<close>

fun deck_ops_loop ::
    "instant \<Rightarrow> (nat \<Rightarrow> uid) \<Rightarrow> tournament \<Rightarrow> uid \<Rightarrow> nat \<Rightarrow> deck_op list \<Rightarrow> deck list \<Rightarrow> (db, broadcast_data list) prog"
where
  "deck_ops_loop now mint t tu n [] ds = return []"
| "deck_ops_loop now mint t tu n (op # ops) ds =
     seq (deck_op_step now (mint n) t tu op ds) (\<lambda>(ds', bds).
     seq (deck_ops_loop now mint t tu (Suc n) ops ds') (\<lambda>rest. return (bds @ rest)))"

definition process_deck_ops ::
    "instant \<Rightarrow> (nat \<Rightarrow> uid) \<Rightarrow> deck_op list \<Rightarrow> uid \<Rightarrow> tournament \<Rightarrow> (db, broadcast_data list) prog" where
  "process_deck_ops now mint ops tu t =
     (if ops = [] then return []
      else seq (gets (\<lambda>s. get_decks_for_tournament s tu)) (deck_ops_loop now mint t tu 0 ops))"

section \<open>Pushing decks\<close>

definition deck_personal :: "tournament \<Rightarrow> instant option \<Rightarrow> string option \<Rightarrow> deck \<Rightarrow> personal" where
  "deck_personal t modified_at access d =
     \<lparr>pn_obj_type = DECK, pn_uid = uid d, pn_full_dict = deck_builtins d, pn_country = None,
      pn_org_uids = Some (deck_org_uids (d_private d) (Some (t_state t)) (t_organizers_uids t)),
      pn_obj_user_uid = Some (d_user_uid d), pn_modified_at = modified_at, pn_access_version = access\<rparr>"

definition push_decks ::
    "instant \<Rightarrow> tournament \<Rightarrow> uid list \<Rightarrow> deck list \<Rightarrow> instant option \<Rightarrow> string option \<Rightarrow> (sse, unit) prog" where
  "push_decks now t us ds modified_at access =
     seq (for_each (\<lambda>u. for_each (\<lambda>d. broadcast_personal now u (deck_personal t modified_at access d)) ds) us)
       (\<lambda>_. return ())"

definition on_sse :: "(sse, 'a) prog \<Rightarrow> (server, 'a) prog" where
  "on_sse m srv = (case m (snd srv) of (r, c') \<Rightarrow> (r, (fst srv, c')))"

text \<open>\<open>async with tournament_transaction\<close>: an exception undoes what was written.\<close>

definition transaction :: "('s, 'a) prog \<Rightarrow> ('s, 'a) prog" where
  "transaction m s = (case m s of (Inl e, s') \<Rightarrow> (Inl e, s) | (Inr x, s') \<Rightarrow> (Inr x, s'))"

definition withdraw_private_decks :: "instant \<Rightarrow> tournament \<Rightarrow> (server, unit) prog" where
  "withdraw_private_decks now t =
     seq (on_db (transaction (
       seq (gets (\<lambda>s. map (\<lambda>d. d\<lparr>modified := now\<rparr>) (filter d_private (get_decks_for_tournament s (uid t))))) (\<lambda>ds.
       seq (for_each (save_event_deck now t) ds) (\<lambda>bds. return (ds, bds)))))) (\<lambda>(ds, bds).
     seq (for_each (push_bd now) bds) (\<lambda>_.
     on_sse (push_decks now t (t_organizers_uids t) ds None None)))"

section \<open>Deleting an event\<close>

definition soft_delete_tournament ::
    "instant \<Rightarrow> uid \<Rightarrow> (db, (tournament \<times> broadcast_data list) option) prog" where
  "soft_delete_tournament now u = transaction (
     seq (gets (\<lambda>s. get_tournament_by_uid s u)) (\<lambda>found. case found of
        None \<Rightarrow> return None
      | Some fresh \<Rightarrow>
          let t = fresh\<lparr>deleted_at := Some now, modified := now\<rparr>
          in seq (atomic (save_tournament now t)) (\<lambda>bd.
             seq (gets (\<lambda>s. get_decks_for_tournament s u)) (\<lambda>ds.
             seq (for_each (\<lambda>d. save_event_deck now t (buried_deck now d)) ds) (\<lambda>dbs.
             seq (gets (\<lambda>s. get_sanctions_for_tournament s u)) (\<lambda>xs.
             seq (for_each (\<lambda>x. atomic (save_object_from_model now (OSanction (x\<lparr>deleted_at := Some now, modified := now\<rparr>)))) xs) (\<lambda>sbs.
             return (Some (t, [bd] @ dbs @ sbs)))))))))"

end
