(* ===== verification/Accounts.thy ===== *)
theory Accounts
  imports Decks Ratings
begin

text \<open>
  Account surgery (\<open>backend/src/accounts.py\<close>): merging two accounts, detaching a person from a VEKN
  record, anonymising a member; and the role metadata pushed to Discord
  (\<open>backend/src/roles_hook\<close>).  Nothing here runs in one transaction: every write stands on its own.
\<close>

section \<open>Discord linked roles\<close>

fun org_level :: "role \<Rightarrow> int" where
  "org_level PRINCE = 2" | "org_level NC = 3" | "org_level IC = 4" | "org_level _ = 0"

fun judge_level :: "role \<Rightarrow> int" where
  "judge_level SHERIFF = 1" | "judge_level JUDGE = 2" | "judge_level RULEMONGER = 3" | "judge_level _ = 0"

fun playtest_level :: "role \<Rightarrow> int" where
  "playtest_level PT = 1" | "playtest_level PTC = 2" | "playtest_level _ = 0"

record role_metadata =
  rm_organization :: int
  rm_judge :: int
  rm_playtest :: int

definition top_level :: "(role \<Rightarrow> int) \<Rightarrow> role list \<Rightarrow> int" where
  "top_level lv rs = fold max (map lv rs) 0"

definition build_metadata :: "user \<Rightarrow> role_metadata" where
  "build_metadata u =
     (let org = top_level org_level (u_roles u)
      in \<lparr>rm_organization = (if org = 0 \<and> truthy_str (u_vekn_id u) then 1 else org),
          rm_judge = top_level judge_level (u_roles u), rm_playtest = top_level playtest_level (u_roles u)\<rparr>)"

definition build_platform_info :: "user \<Rightarrow> string \<times> string" where
  "build_platform_info u = (''Archon'', if truthy_str (u_vekn_id u) then str_default (u_vekn_id u) else u_name u)"

definition rc_key :: "uid \<Rightarrow> string" where
  "rc_key u = ''discord_rc:'' @ u"

definition token_field :: "token_data \<Rightarrow> string \<Rightarrow> string" where
  "token_field d k = str_default (map_of d k)"

text \<open>
  One synchronisation.  \<open>push\<close> is whether Discord accepts the metadata under an access token, and
  \<open>refresh\<close> what it answers to a refresh token: a new access token and perhaps a new refresh token.
\<close>

definition sync_user_discord_roles ::
    "instant \<Rightarrow> (role_metadata \<Rightarrow> string \<times> string \<Rightarrow> string \<Rightarrow> bool) \<Rightarrow> (string \<Rightarrow> (string \<times> string option) option) \<Rightarrow> uid \<Rightarrow> db \<Rightarrow> db"
where
  "sync_user_discord_roles now push refresh u s =
     (case get_transient_token now s (rc_key u) of
        None \<Rightarrow> s
      | Some stored \<Rightarrow>
          if stored = [] then s
          else (case get_user_by_uid s u of
             None \<Rightarrow> s
           | Some usr \<Rightarrow>
               let rt = token_field stored ''refresh_token''
               in if push (build_metadata usr) (build_platform_info usr) (token_field stored ''access_token'') then s
                  else if rt = [] then delete_transient_token (rc_key u) s
                  else (case refresh rt of
                     None \<Rightarrow> delete_transient_token (rc_key u) s
                   | Some (acc, rt') \<Rightarrow> store_transient_token (rc_key u)
                       (put ''refresh_token'' (case rt' of None \<Rightarrow> rt | Some x \<Rightarrow> x) (put ''access_token'' acc stored))
                       (plus_days 365 now) s)))"

section \<open>The state of account surgery\<close>

text \<open>The server, and the members a Discord push was started for (it runs on its own later)\<close>

type_synonym desk = "server \<times> uid list"

definition on_desk :: "(db, 'a) prog \<Rightarrow> (desk, 'a) prog" where
  "on_desk m d = (case m (fst (fst d)) of (r, s') \<Rightarrow> (r, ((s', snd (fst d)), snd d)))"

definition push_linked_roles :: "uid \<Rightarrow> (desk, unit) prog" where
  "push_linked_roles u = modify (\<lambda>(srv, p). (srv, p @ [u]))"

definition resync_member :: "uid \<Rightarrow> (desk, unit) prog" where
  "resync_member u = modify (\<lambda>((s, c), p). ((s, broadcast_resync u c), p))"

definition only_if :: "bool \<Rightarrow> ('s, unit) prog \<Rightarrow> ('s, unit) prog" where
  "only_if b m = (if b then m else return ())"

definition save_member :: "instant \<Rightarrow> user \<Rightarrow> user \<Rightarrow> (desk, broadcast_data) prog" where
  "save_member now before after =
     seq (on_desk (save_user_prog now after)) (\<lambda>bd.
     seq (only_if (access_inputs (Some before) \<noteq> access_inputs (Some after)) (resync_member (uid after))) (\<lambda>_.
     seq (only_if ((build_metadata before, build_platform_info before) \<noteq> (build_metadata after, build_platform_info after))
           (push_linked_roles (uid after))) (\<lambda>_. return bd)))"

definition move_discord_role_token :: "instant \<Rightarrow> uid \<Rightarrow> uid \<Rightarrow> (desk, unit) prog" where
  "move_discord_role_token now from to =
     seq (on_desk (gets (\<lambda>s. get_transient_token now s (rc_key from)))) (\<lambda>stored. case stored of
        None \<Rightarrow> return ()
      | Some d \<Rightarrow> if d = [] then return ()
          else seq (on_desk (modify (store_transient_token (rc_key to) d (plus_days 365 now)))) (\<lambda>_.
               seq (on_desk (modify (delete_transient_token (rc_key from)))) (\<lambda>_. push_linked_roles to)))"

section \<open>Reassigning what is keyed to a member\<close>

definition reassign_auth_methods :: "uid \<Rightarrow> uid \<Rightarrow> db \<Rightarrow> nat \<times> db" where
  "reassign_auth_methods from to s =
     (length (filter (\<lambda>(_, a). am_user_uid a = from) (db_auth s)),
      s\<lparr>db_auth := map (\<lambda>(k, a). (k, if am_user_uid a = from then a\<lparr>am_user_uid := to\<rparr> else a)) (db_auth s)\<rparr>)"

definition reassign_sanctions :: "instant \<Rightarrow> uid \<Rightarrow> uid \<Rightarrow> (db, broadcast_data list) prog" where
  "reassign_sanctions now from to =
     seq (gets (\<lambda>s. get_sanctions_for_user s from)) (for_each (\<lambda>x. atomic (save_sanction now (x\<lparr>s_user_uid := to\<rparr>))))"

text \<open>The left join with the deck's event: no organizers and no state when there is none.\<close>

definition deck_event :: "db \<Rightarrow> deck \<Rightarrow> uid list \<times> tournament_state option" where
  "deck_event s d = (case get_tournament_by_uid s (d_tournament_uid d) of
     None \<Rightarrow> ([], None) | Some t \<Rightarrow> (t_organizers_uids t, Some (t_state t)))"

definition reassign_decks :: "instant \<Rightarrow> uid \<Rightarrow> uid \<Rightarrow> (db, broadcast_data list) prog" where
  "reassign_decks now from to =
     seq (gets (\<lambda>s. map (\<lambda>d. (d, deck_event s d)) (filter (\<lambda>d. d_user_uid d = from) (decks s))))
       (for_each (\<lambda>(d, orgs, st). atomic (save_deck now st orgs (d\<lparr>d_user_uid := to\<rparr>))))"

definition reassign_coopted_by_references :: "instant \<Rightarrow> uid \<Rightarrow> uid \<Rightarrow> (db, broadcast_data list) prog" where
  "reassign_coopted_by_references now from to =
     seq (gets (\<lambda>s. filter (\<lambda>u. u_coopted_by u = Some from) (users s)))
       (for_each (\<lambda>u. save_user_prog now (u\<lparr>u_coopted_by := Some to\<rparr>)))"

section \<open>Merging\<close>

definition or_int :: "int option \<Rightarrow> int option \<Rightarrow> int option" where
  "or_int a b = (if a = None \<or> a = Some 0 then b else a)"

definition set_union :: "'a list \<Rightarrow> 'a list \<Rightarrow> 'a list" where
  "set_union a b = remdups (a @ b)"

definition sponsor_side :: "user \<Rightarrow> user \<Rightarrow> user" where
  "sponsor_side keep gone =
     (if ''coopted_by'' \<in> set (u_local_modifications keep) then keep
      else if ''coopted_by'' \<in> set (u_local_modifications gone) then gone
      else if truthy_str (u_coopted_by keep) then keep else gone)"

definition discord_side :: "user \<Rightarrow> user \<Rightarrow> user" where
  "discord_side keep gone = (if truthy_str (u_discord_id gone) then gone else keep)"

definition merged_user :: "user \<Rightarrow> user \<Rightarrow> string option \<Rightarrow> uid list \<times> uid list \<Rightarrow> user" where
  "merged_user keep gone token agenda = keep\<lparr>
     u_name := or_list (u_name keep) (u_name gone),
     u_country := or_str (u_country keep) (u_country gone),
     u_vekn_id := or_str (u_vekn_id keep) (u_vekn_id gone),
     u_city := or_str (u_city keep) (u_city gone),
     u_city_geoname_id := or_int (u_city_geoname_id keep) (u_city_geoname_id gone),
     u_state := or_str (u_state keep) (u_state gone),
     u_nickname := or_str (u_nickname gone) (u_nickname keep),
     u_roles := set_union (u_roles keep) (u_roles gone),
     u_avatar_path := or_str (u_avatar_path gone) (u_avatar_path keep),
     u_contact_email := or_str (u_contact_email gone) (u_contact_email keep),
     u_contact_discord := u_contact_discord (discord_side keep gone),
     u_discord_id := u_discord_id (discord_side keep gone),
     u_contact_phone := or_str (u_contact_phone gone) (u_contact_phone keep),
     u_phone_is_whatsapp := (u_phone_is_whatsapp gone \<or> u_phone_is_whatsapp keep),
     u_community_links := or_list (u_community_links keep) (u_community_links gone),
     u_coopted_by := u_coopted_by (sponsor_side keep gone),
     u_coopted_at := u_coopted_at (sponsor_side keep gone),
     u_vekn_synced := (u_vekn_synced keep \<or> u_vekn_synced gone),
     u_vekn_synced_at := or_opt (u_vekn_synced_at keep) (u_vekn_synced_at gone),
     u_local_modifications := set_union (u_local_modifications keep) (u_local_modifications gone),
     u_vekn_prefix := or_str (u_vekn_prefix keep) (u_vekn_prefix gone),
     u_calendar_token := token,
     u_agenda_hidden := Some (fst agenda),
     u_agenda_added := Some (snd agenda)\<rparr>"

text \<open>The feed and the agenda of the claiming account are preferred.\<close>

definition merged_token :: "db \<Rightarrow> uid \<Rightarrow> uid \<Rightarrow> string option" where
  "merged_token s keep gone = or_str (get_calendar_token s gone) (get_calendar_token s keep)"

definition merged_agenda :: "db \<Rightarrow> uid \<Rightarrow> uid \<Rightarrow> uid list \<times> uid list" where
  "merged_agenda s keep gone = (let claimed = get_agenda s gone
     in if fst claimed \<noteq> [] \<or> snd claimed \<noteq> [] then claimed else get_agenda s keep)"

definition merge_cascade :: "instant \<Rightarrow> uid \<Rightarrow> uid \<Rightarrow> user \<Rightarrow> user \<Rightarrow> (desk, user \<times> broadcast_data list) prog" where
  "merge_cascade now keep_uid delete_uid keep merged =
     seq (save_member now keep merged) (\<lambda>merged_bd.
     seq (move_discord_role_token now delete_uid keep_uid) (\<lambda>_.
     seq (on_desk (\<lambda>s. case reassign_auth_methods delete_uid keep_uid s of (n, s') \<Rightarrow> (Inr n, s'))) (\<lambda>_.
     seq (on_desk (atomic (remap_nda_user delete_uid keep_uid))) (\<lambda>_.
     seq (on_desk (reassign_sanctions now delete_uid keep_uid)) (\<lambda>b1.
     seq (on_desk (reassign_decks now delete_uid keep_uid)) (\<lambda>b2.
     seq (on_desk (recompute_wins now (Some [keep_uid]))) (\<lambda>recomputed.
     seq (on_desk (reassign_coopted_by_references now delete_uid keep_uid)) (\<lambda>b4.
     seq (on_desk (atomic (soft_delete_user now delete_uid))) (\<lambda>deleted.
     return (if recomputed = [] then merged else fst (last recomputed),
             [merged_bd] @ b1 @ b2 @ map snd recomputed @ b4
               @ (case deleted of None \<Rightarrow> [] | Some (_, bd) \<Rightarrow> [bd])))))))))))"

definition merge_users :: "instant \<Rightarrow> uid \<Rightarrow> uid \<Rightarrow> (desk, (user \<times> broadcast_data list) option) prog" where
  "merge_users now keep_uid delete_uid =
     seq (on_desk (gets (\<lambda>s. (get_user_by_uid s keep_uid, get_user_by_uid s delete_uid)))) (\<lambda>(k, d).
     case k of
       None \<Rightarrow> return None
     | Some keep \<Rightarrow>
         if keep_uid = delete_uid then return (Some (keep, []))
         else (case d of
            None \<Rightarrow> return (Some (keep, []))
          | Some gone \<Rightarrow>
              if truthy_str (u_vekn_id gone) then
                raise (ValueError ''Cannot merge an account that holds a VEKN ID'')
              else if u_anonymized_at keep \<noteq> None then
                raise (ValueError ''Cannot merge into an anonymized member'')
              else
                seq (on_desk (gets (\<lambda>s. (merged_token s keep_uid delete_uid, merged_agenda s keep_uid delete_uid)))) (\<lambda>(tok, agenda).
                seq (merge_cascade now keep_uid delete_uid keep (merged_user keep gone tok agenda)) (\<lambda>r.
                return (Some r)))))"

definition user_has_active_suspension :: "instant \<Rightarrow> uid \<Rightarrow> db \<Rightarrow> bool" where
  "user_has_active_suspension now u s = list_ex (\<lambda>x. deleted_at x = None \<and> s_lifted_at x = None
     \<and> s_level x \<in> {SUSPENSION, PROBATION} \<and> (case s_expires_at x of None \<Rightarrow> True | Some e \<Rightarrow> now < e))
     (get_sanctions_for_user s u)"

section \<open>Detaching\<close>

text \<open>The defaults of \<open>UID_KEYED_FIELDS\<close> and of \<open>PERSONAL_FIELDS\<close>\<close>

definition without_record_fields :: "user \<Rightarrow> user" where
  "without_record_fields u = u\<lparr>u_vekn_id := None, u_roles := [], u_coopted_by := None, u_coopted_at := None,
     u_vekn_synced := False, u_vekn_synced_at := None, u_vekn_prefix := None, u_community_links := [],
     u_promo_stock := [], u_constructed_online := None, u_constructed_offline := None, u_limited_online := None,
     u_limited_offline := None, u_wins := []\<rparr>"

definition without_personal_fields :: "user \<Rightarrow> user" where
  "without_personal_fields u = u\<lparr>u_nickname := None, u_avatar_path := None, u_contact_email := None,
     u_contact_discord := None, u_discord_id := None, u_contact_phone := None, u_phone_is_whatsapp := False,
     u_github_login := None, u_github_id := None\<rparr>"

definition personal_account :: "instant \<Rightarrow> uid \<Rightarrow> string option \<Rightarrow> uid list \<times> uid list \<Rightarrow> user \<Rightarrow> user" where
  "personal_account now new token agenda u = (without_record_fields u)\<lparr>uid := new, modified := now,
     u_calendar_token := token, u_agenda_hidden := Some (fst agenda), u_agenda_added := Some (snd agenda),
     u_local_modifications := []\<rparr>"

definition vekn_record :: "instant \<Rightarrow> user \<Rightarrow> user" where
  "vekn_record now u = (without_personal_fields u)\<lparr>modified := now, u_calendar_token := None, u_agenda_hidden := None,
     u_agenda_added := None, u_local_modifications := []\<rparr>"

definition detach_user_from_vekn ::
    "instant \<Rightarrow> uid \<Rightarrow> uid \<Rightarrow> (desk, (user \<times> user \<times> broadcast_data list) option) prog" where
  "detach_user_from_vekn now new_uid u =
     seq (on_desk (gets (\<lambda>s. get_user_by_uid s u))) (\<lambda>found. case found of
       None \<Rightarrow> return None
     | Some usr \<Rightarrow>
         seq (on_desk (gets (\<lambda>s. (get_calendar_token s u, get_agenda s u)))) (\<lambda>(tok, agenda).
         seq (on_desk (modify (clear_owner_columns u))) (\<lambda>_.
         let personal = personal_account now new_uid tok agenda usr; record' = vekn_record now usr
         in seq (save_member now usr personal) (\<lambda>personal_bd.
            seq (move_discord_role_token now u new_uid) (\<lambda>_.
            seq (on_desk (\<lambda>s. case reassign_auth_methods u new_uid s of (n, s') \<Rightarrow> (Inr n, s'))) (\<lambda>_.
            seq (on_desk (atomic (remap_nda_user u new_uid))) (\<lambda>_.
            seq (save_member now usr record') (\<lambda>vekn_bd.
            return (Some (personal, record', [personal_bd, vekn_bd]))))))))))"

section \<open>Anonymising\<close>

definition ANONYMIZED_NAME :: string where
  "ANONYMIZED_NAME = ''Anonymized member''"

definition scrub_player :: "uid list \<Rightarrow> player \<Rightarrow> player" where
  "scrub_player us p = (if (case pl_user_uid p of None \<Rightarrow> False | Some u \<Rightarrow> u \<in> set us) \<and> truthy_str (pl_display_name p)
     then p\<lparr>pl_display_name := None\<rparr> else p)"

definition scrub_announcement :: "uid list \<Rightarrow> announcement \<Rightarrow> announcement" where
  "scrub_announcement us a = (if an_author_uid a \<in> set us \<and> an_author_name a \<noteq> ANONYMIZED_NAME
     then a\<lparr>an_author_name := ANONYMIZED_NAME\<rparr> else a)"

definition scrub :: "uid list \<Rightarrow> tournament \<Rightarrow> bool \<times> tournament" where
  "scrub us t = (let ps = map (scrub_player us) (t_players t); ans = map (scrub_announcement us) (t_announcements t)
     in (ps \<noteq> t_players t \<or> ans \<noteq> t_announcements t, t\<lparr>t_players := ps, t_announcements := ans\<rparr>))"

definition named_uids :: "tournament \<Rightarrow> uid list" where
  "named_uids t = remdups (List.map_filter (\<lambda>p. if truthy_str (pl_user_uid p) \<and> truthy_str (pl_display_name p) then pl_user_uid p else None)
     (t_players t) @ map an_author_uid (t_announcements t))"

definition scrub_anonymized_copies :: "db \<Rightarrow> tournament \<Rightarrow> tournament" where
  "scrub_anonymized_copies s t =
     (if named_uids t = [] then t
      else snd (scrub (map fst (filter (\<lambda>(_, u). u_anonymized_at u \<noteq> None) (get_users_by_uids s (named_uids t)))) t))"

definition copies_uids :: "db \<Rightarrow> uid \<Rightarrow> uid list" where
  "copies_uids s u = map fst (filter (\<lambda>(_, r). case as_tournament (row_full r) of
       None \<Rightarrow> False
     | Some t \<Rightarrow> list_ex (\<lambda>p. pl_user_uid p = Some u) (t_players t) \<or> list_ex (\<lambda>a. an_author_uid a = u) (t_announcements t))
     (db_objects s))"

text \<open>The row is saved without a deletion mark of its own: \<open>save_object\<close> is called with no \<open>deleted_at\<close>.\<close>

definition scrub_copy :: "instant \<Rightarrow> uid \<Rightarrow> uid \<Rightarrow> (db, broadcast_data list) prog" where
  "scrub_copy now u tu =
     seq (gets (\<lambda>s. get_tournament_by_uid s tu)) (\<lambda>found. case found of
       None \<Rightarrow> return []
     | Some t \<Rightarrow> (case scrub [u] t of (changed, t') \<Rightarrow>
         if \<not> changed then return []
         else seq (atomic (save_object now (OTournament (t'\<lparr>modified := now\<rparr>)) None)) (\<lambda>bd. return [bd])))"

definition scrub_tournament_copies :: "instant \<Rightarrow> uid \<Rightarrow> (db, broadcast_data list) prog" where
  "scrub_tournament_copies now u =
     seq (gets (\<lambda>s. copies_uids s u)) (\<lambda>us.
     seq (for_each (\<lambda>tu. transaction (scrub_copy now u tu)) us) (\<lambda>bds. return (concat bds)))"

definition ANONYMIZED_FIELDS :: "string list" where
  "ANONYMIZED_FIELDS = [''nickname'', ''avatar_path'', ''contact_email'', ''contact_discord'', ''discord_id'', ''contact_phone'',
     ''phone_is_whatsapp'', ''github_login'', ''github_id'', ''name'', ''city'', ''city_geoname_id'', ''state'', ''community_links'']"

definition anonymized :: "instant \<Rightarrow> uid \<Rightarrow> user \<Rightarrow> user" where
  "anonymized now by u = (without_personal_fields u)\<lparr>modified := now, u_anonymized_at := Some now,
     u_anonymized_by_uid := Some by, u_local_modifications := set_union (u_local_modifications u) ANONYMIZED_FIELDS,
     u_name := ANONYMIZED_NAME, u_city := None, u_city_geoname_id := None, u_state := None, u_community_links := []\<rparr>"

definition drop_logins :: "uid \<Rightarrow> db \<Rightarrow> db" where
  "drop_logins u s = s\<lparr>db_auth := filter (\<lambda>(_, a). am_user_uid a \<noteq> u) (db_auth s),
     db_push := filter (\<lambda>(_, x). ps_user_uid x \<noteq> u) (db_push s)\<rparr>"

definition drop_consents :: "uid \<Rightarrow> db \<Rightarrow> db" where
  "drop_consents u s = fold (\<lambda>c s. delete_oauth_consent u (oc_client_id c)
      (revoke_oauth_tokens_for_user_client u (oc_client_id c) s)) (get_oauth_consents_by_user s u) s"

definition anonymize_user :: "instant \<Rightarrow> user \<Rightarrow> uid \<Rightarrow> (db, user \<times> broadcast_data list) prog" where
  "anonymize_user now u by =
     seq (modify (drop_logins (uid u))) (\<lambda>_.
     seq (modify (drop_consents (uid u))) (\<lambda>_.
     seq (modify (delete_transient_token (rc_key (uid u)))) (\<lambda>_.
     seq (modify (\<lambda>s. snd (delete_avatar (uid u) s))) (\<lambda>_.
     seq (modify (clear_owner_columns (uid u))) (\<lambda>_.
     seq (scrub_tournament_copies now (uid u)) (\<lambda>bds.
     seq (save_user_prog now (anonymized now by u)) (\<lambda>bd.
     return (anonymized now by u, bds @ [bd]))))))))"

end
