(* ===== verification/Decks_Laws.thy ===== *)
theory Decks_Laws
  imports Decks Passes
begin

text \<open>
  What the deck operations promise: they touch the decks of the event alone, they never fail, the
  engine's stamps give a player one deck a round, and the flags of publication settle.
\<close>

section \<open>Saving a deck\<close>

lemma save_plain:
  assumes "index_keys x = None" and "as_stored x = x"
  obtains bd s' where "save_object_from_model now x s = Inr (bd, s')"
    "read_object s' = (read_object s)(obj_uid x \<mapsto> x)" "rows_ok s \<Longrightarrow> rows_ok s'"
    "bd_uid bd = obj_uid x" "bd_obj_type bd = obj_type x"
    "compute_full (type_name x) (to_builtins x) = Inr (bd_full bd)"
    "\<And>w. w \<noteq> obj_uid x \<Longrightarrow> map_of (db_objects s') w = map_of (db_objects s) w"
    "s' = s\<lparr>db_objects := db_objects s'\<rparr>"
proof -
  obtain bd s' where save: "save_object now x (obj_deleted_at x) s = Inr (bd, s')"
    using save_object_total [of x s now "obj_deleted_at x"] assms(1) by (auto simp: index_conflict_def)
  show thesis
  proof (rule that)
    show "save_object_from_model now x s = Inr (bd, s')" using save by (simp add: save_object_from_model_def)
    show "read_object s' = (read_object s)(obj_uid x \<mapsto> x)" using read_object_saved [OF save] assms(2) by simp
    show "rows_ok s'" if "rows_ok s" by (rule save_object_rows_ok [OF that save])
    show "compute_full (type_name x) (to_builtins x) = Inr (bd_full bd)" by (rule save_object_Inr [OF save]; simp)
    show "bd_uid bd = obj_uid x" "bd_obj_type bd = obj_type x" "s' = s\<lparr>db_objects := db_objects s'\<rparr>"
      by (rule save_object_Inr [OF save]; simp)+
    show "map_of (db_objects s') w = map_of (db_objects s) w" if "w \<noteq> obj_uid x" for w
      by (rule save_object_Inr [OF save]) (simp add: that)
  qed
qed

definition closed_to_organizers :: "tournament \<Rightarrow> deck \<Rightarrow> bool" where
  "closed_to_organizers t d \<longleftrightarrow> d_private d \<and> t_state t = T_FINISHED"

lemma save_event_deck_run:
  obtains bd s' where "save_event_deck now t d s = (Inr bd, s')"
    "read_object s' = (read_object s)(uid d \<mapsto> ODeck d)" "rows_ok s \<Longrightarrow> rows_ok s'"
    "bd_uid bd = uid d" "bd_obj_type bd = DECK" "bd_full bd = deck_builtins d"
    "bd_org_uids bd = Some (if closed_to_organizers t d then [] else t_organizers_uids t)"
    "\<And>w. w \<noteq> uid d \<Longrightarrow> map_of (db_objects s') w = map_of (db_objects s) w"
    "s' = s\<lparr>db_objects := db_objects s'\<rparr>"
proof -
  obtain bd s' where s': "save_object_from_model now (ODeck d) s = Inr (bd, s')"
    "read_object s' = (read_object s)(uid d \<mapsto> ODeck d)" "rows_ok s \<Longrightarrow> rows_ok s'"
    "bd_uid bd = uid d" "bd_obj_type bd = DECK" "bd_full bd = deck_builtins d"
    "\<And>w. w \<noteq> uid d \<Longrightarrow> map_of (db_objects s') w = map_of (db_objects s) w"
    "s' = s\<lparr>db_objects := db_objects s'\<rparr>"
    by (rule save_plain [of "ODeck d" now s]) (auto simp: compute_full_def compute_deck_full_def objtype_of_def)
  show thesis
  proof (rule that)
    show "save_event_deck now t d s
        = (Inr (bd\<lparr>bd_org_uids := Some (deck_org_uids (d_private d) (Some (t_state t)) (t_organizers_uids t))\<rparr>), s')"
      using s'(1) by (simp add: save_event_deck_def save_deck_def atomic_def)
  qed (use s' in \<open>simp_all add: deck_org_uids_def closed_to_organizers_def\<close>)
qed

section \<open>The decks of an event\<close>

lemma as_deck_Some: "as_deck x = Some d \<longleftrightarrow> x = ODeck d"
  by (cases x) auto

lemma as_tournament_Some: "as_tournament x = Some t \<longleftrightarrow> x = OTournament t"
  by (cases x) auto

lemma as_sanction_Some: "as_sanction x = Some d \<longleftrightarrow> x = OSanction d"
  by (cases x) auto

text \<open>The objects of a type, read from the table\<close>

lemma stored_objects:
  fixes C :: "'a base_object_scheme \<Rightarrow> obj"
  assumes "rows_ok s" and dec: "\<And>x d. dec x = Some d \<longleftrightarrow> x = C d" and "\<And>d. obj_uid (C d) = uid d"
  shows "d \<in> set (List.map_filter (dec \<circ> row_full) (rows s)) \<longleftrightarrow> read_object s (uid d) = Some (C d)"
    "distinct (map uid (List.map_filter (dec \<circ> row_full) (rows s)))"
proof -
  have rows: "distinct_keys (db_objects s)" by (rule rows_ok_distinct [OF assms(1)])
  have uid: "obj_uid (row_full r) = k" if "(k, r) \<in> set (db_objects s)" for k r
    using rows_ok_uid [OF assms(1)] in_set_map_of [OF rows] that by blast
  have "d \<in> set (List.map_filter (dec \<circ> row_full) (rows s)) \<longleftrightarrow> (\<exists>k r. (k, r) \<in> set (db_objects s) \<and> row_full r = C d)"
    by (force simp: rows_def in_map_filter dec)
  also have "\<dots> \<longleftrightarrow> read_object s (uid d) = Some (C d)"
  proof
    assume "\<exists>k r. (k, r) \<in> set (db_objects s) \<and> row_full r = C d"
    then obtain k r where kr: "(k, r) \<in> set (db_objects s)" "row_full r = C d" by blast
    then have "uid d = k" using uid [OF kr(1)] assms(3) by simp
    then show "read_object s (uid d) = Some (C d)"
      using kr in_set_map_of [OF rows, of k r] by (simp add: read_object_def)
  next
    assume "read_object s (uid d) = Some (C d)"
    then obtain r where "map_of (db_objects s) (uid d) = Some r" "row_full r = C d"
      by (auto simp: read_object_def)
    then show "\<exists>k r. (k, r) \<in> set (db_objects s) \<and> row_full r = C d" by (blast dest: map_of_SomeD)
  qed
  finally show "d \<in> set (List.map_filter (dec \<circ> row_full) (rows s)) \<longleftrightarrow> read_object s (uid d) = Some (C d)" .
  have "map uid (List.map_filter (dec \<circ> row_full) (map snd kvs)) = map fst (filter (\<lambda>(k, r). dec (row_full r) \<noteq> None) kvs)"
    if "\<forall>(k, r) \<in> set kvs. obj_uid (row_full r) = k" for kvs :: "(uid \<times> row) list"
    using that by (induction kvs) (auto simp: map_filter_simps assms(3) split: option.split dest: dec [THEN iffD1])
  then have "map uid (List.map_filter (dec \<circ> row_full) (rows s)) = map fst (filter (\<lambda>(k, r). dec (row_full r) \<noteq> None) (db_objects s))"
    using uid by (fastforce simp: rows_def)
  then show "distinct (map uid (List.map_filter (dec \<circ> row_full) (rows s)))"
    using rows by (simp add: distinct_keys_def distinct_map_filter)
qed

lemmas stored_decks = stored_objects [where dec = as_deck and C = ODeck, OF _ as_deck_Some, simplified, folded decks_def]
lemmas stored_sanctions = stored_objects [where dec = as_sanction and C = OSanction, OF _ as_sanction_Some, simplified, folded sanctions_def]

lemma event_decks:
  assumes "rows_ok s"
  shows "d \<in> set (get_decks_for_tournament s t) \<longleftrightarrow>
      read_object s (uid d) = Some (ODeck d) \<and> d_tournament_uid d = t \<and> deleted_at d = None"
    "distinct (map uid (get_decks_for_tournament s t))"
  using stored_decks [OF assms] by (auto simp: get_decks_for_tournament_def distinct_map_filter)

lemma event_sanctions:
  assumes "rows_ok s"
  shows "x \<in> set (get_sanctions_for_tournament s t) \<longleftrightarrow>
      read_object s (uid x) = Some (OSanction x) \<and> s_tournament_uid x = Some t \<and> deleted_at x = None"
    "distinct (map uid (get_sanctions_for_tournament s t))"
  using stored_sanctions [OF assms] by (auto simp: get_sanctions_for_tournament_def distinct_map_filter)

text \<open>The batch's copy agrees with the table.\<close>

definition in_sync :: "db \<Rightarrow> deck list \<Rightarrow> bool" where
  "in_sync s ds \<longleftrightarrow> distinct (map uid ds) \<and> list_all (\<lambda>d. read_object s (uid d) = Some (ODeck d)) ds"

lemma in_sync_event: "rows_ok s \<Longrightarrow> in_sync s (get_decks_for_tournament s t)"
  using event_decks [of s] by (auto simp: in_sync_def list_all_iff)

lemma find_uid:
  "distinct (map uid ds) \<Longrightarrow> find (\<lambda>d. uid d = u) ds = Some d \<longleftrightarrow> d \<in> set ds \<and> uid d = (u :: uid)"
  by (induction ds) auto

section \<open>Batches of edits\<close>

text \<open>The operations that change a deck in place\<close>

fun is_edit :: "deck_op \<Rightarrow> bool" where
  "is_edit (Upsert _ _) = False" | "is_edit (Delete _ _ _) = False" | "is_edit (LogView _ _ _) = False" | "is_edit _ = True"

fun edit :: "instant \<Rightarrow> deck_op \<Rightarrow> deck \<Rightarrow> deck" where
  "edit now (SetRound u r) d = (if uid d = u then d\<lparr>d_round := r, modified := now\<rparr> else d)"
| "edit now (SetPublication u p w) d = (if uid d = u then d\<lparr>d_public := p, d_winner := w, modified := now\<rparr> else d)"
| "edit now (SetAttribution player u a) d = (if uid d = u then d\<lparr>d_attribution := a, modified := now\<rparr> else d)"
| "edit now (SetPrivate u p) d = (if uid d = u then d\<lparr>d_private := p, modified := now\<rparr> else d)"
| "edit now _ d = d"

lemma edit_fixed [simp]:
  "uid (edit now op d) = uid d" "d_user_uid (edit now op d) = d_user_uid d"
  "d_tournament_uid (edit now op d) = d_tournament_uid d" "deleted_at (edit now op d) = deleted_at d"
  "d_views (edit now op d) = d_views d"
  by (cases op; simp)+

lemma edits_fixed [simp]:
  "uid (fold (edit now) ops d) = uid d" "d_user_uid (fold (edit now) ops d) = d_user_uid d"
  "d_tournament_uid (fold (edit now) ops d) = d_tournament_uid d" "deleted_at (fold (edit now) ops d) = deleted_at d"
  by (induction ops arbitrary: d) simp_all

lemma update_target_run:
  assumes "in_sync s ds" and "\<And>d. uid (f d) = uid d"
  obtains bds s' where "update_target now t u f ds s
      = (Inr (map (\<lambda>d. if uid d = u then (f d)\<lparr>modified := now\<rparr> else d) ds, bds), s')"
    "read_object s' = (\<lambda>w. case find (\<lambda>d. uid d = w) ds of None \<Rightarrow> read_object s w
       | Some d \<Rightarrow> Some (ODeck (if uid d = u then (f d)\<lparr>modified := now\<rparr> else d)))"
    "rows_ok s \<Longrightarrow> rows_ok s'"
proof (cases "find (\<lambda>d. uid d = u) ds")
  case None
  then have none: "\<forall>d \<in> set ds. uid d \<noteq> u" by (simp add: find_None_iff)
  have "read_object s = (\<lambda>w. case find (\<lambda>d. uid d = w) ds of None \<Rightarrow> read_object s w
       | Some d \<Rightarrow> Some (ODeck (if uid d = u then (f d)\<lparr>modified := now\<rparr> else d)))"
    using assms(1) none find_uid [of ds] by (fastforce simp: in_sync_def list_all_iff split: option.split)
  moreover have "map (\<lambda>d. if uid d = u then (f d)\<lparr>modified := now\<rparr> else d) ds = ds"
    using none by (simp add: map_idI)
  ultimately show thesis using None that [of "[]" s] by (simp add: update_target_def)
next
  case (Some d)
  have ds: "distinct (map uid ds)" using assms(1) by (simp add: in_sync_def)
  then have d: "d \<in> set ds" "uid d = u" using Some find_uid [of ds] by auto
  let ?d' = "(f d)\<lparr>modified := now\<rparr>"
  obtain bd s' where s': "save_event_deck now t ?d' s = (Inr bd, s')" "read_object s' = (read_object s)(u \<mapsto> ODeck ?d')"
    "rows_ok s \<Longrightarrow> rows_ok s'"
    by (rule save_event_deck_run [of now t ?d' s]) (auto simp: assms(2) d(2))
  have set: "set_deck ?d' ds = map (\<lambda>d. if uid d = u then (f d)\<lparr>modified := now\<rparr> else d) ds"
    unfolding set_deck_def using ds d by (auto simp: assms(2) distinct_map dest: inj_onD)
  have "read_object s' = (\<lambda>w. case find (\<lambda>d. uid d = w) ds of None \<Rightarrow> read_object s w
       | Some d \<Rightarrow> Some (ODeck (if uid d = u then (f d)\<lparr>modified := now\<rparr> else d)))"
  proof
    fix w
    show "read_object s' w = (case find (\<lambda>d. uid d = w) ds of None \<Rightarrow> read_object s w
       | Some d \<Rightarrow> Some (ODeck (if uid d = u then (f d)\<lparr>modified := now\<rparr> else d)))"
    proof (cases "find (\<lambda>d. uid d = w) ds")
      case None
      then have "w \<noteq> u" using d by (auto simp: find_None_iff)
      then show ?thesis by (simp add: None s'(2))
    next
      case (Some e)
      then have e: "e \<in> set ds" "uid e = w" using find_uid [OF ds] by auto
      then have "uid e = u \<Longrightarrow> e = d" using ds d by (auto simp: distinct_map dest: inj_onD)
      then show ?thesis using e assms(1) by (auto simp: Some s'(2) in_sync_def list_all_iff)
    qed
  qed
  then show thesis
    using that [of "[bd]" s'] s'(1,3) by (simp add: update_target_def Some seq_def set)
qed

lemma edit_as_update:
  assumes "is_edit op"
  obtains u f where "\<And>d. uid (f d) = uid d" "edit now op = (\<lambda>d. if uid d = u then (f d)\<lparr>modified := now\<rparr> else d)"
    "deck_op_step now mint t tu op = update_target now t u f"
proof (cases op)
  case (SetRound u r)
  show thesis by (rule that [of "\<lambda>d. d\<lparr>d_round := r\<rparr>" u]) (auto simp: SetRound)
next
  case (SetPublication u p w)
  show thesis by (rule that [of "\<lambda>d. d\<lparr>d_public := p, d_winner := w\<rparr>" u]) (auto simp: SetPublication)
next
  case (SetAttribution player u a)
  show thesis by (rule that [of "\<lambda>d. d\<lparr>d_attribution := a\<rparr>" u]) (auto simp: SetAttribution)
next
  case (SetPrivate u p)
  show thesis by (rule that [of "\<lambda>d. d\<lparr>d_private := p\<rparr>" u]) (auto simp: SetPrivate)
qed (use assms in auto)

lemma edit_step:
  assumes "in_sync s ds" and "is_edit op"
  obtains bds s' where "deck_op_step now mint t tu op ds s = (Inr (map (edit now op) ds, bds), s')"
    "read_object s' = (\<lambda>w. case find (\<lambda>d. uid d = w) ds of None \<Rightarrow> read_object s w
       | Some d \<Rightarrow> Some (ODeck (edit now op d)))"
    "rows_ok s \<Longrightarrow> rows_ok s'"
proof -
  obtain u f where f: "\<And>d. uid (f d) = uid d" "edit now op = (\<lambda>d. if uid d = u then (f d)\<lparr>modified := now\<rparr> else d)"
    "deck_op_step now mint t tu op = update_target now t u f"
    by (rule edit_as_update [OF assms(2), of now mint t tu]) blast
  obtain bds s' where "update_target now t u f ds s = (Inr (map (edit now op) ds, bds), s')"
    "read_object s' = (\<lambda>w. case find (\<lambda>d. uid d = w) ds of None \<Rightarrow> read_object s w
       | Some d \<Rightarrow> Some (ODeck (edit now op d)))" "rows_ok s \<Longrightarrow> rows_ok s'"
    unfolding f(2) by (rule update_target_run [OF assms(1) f(1), of now t u]) blast
  then show thesis unfolding f(3) [symmetric] by (rule that)
qed

lemma find_map_uid: "(\<And>d. uid (f d) = uid d) \<Longrightarrow> find (\<lambda>d. uid d = u) (map f ds) = map_option f (find (\<lambda>d. uid d = (u :: uid)) ds)"
  by (induction ds) auto

lemma edits_loop:
  "in_sync s ds \<Longrightarrow> rows_ok s \<Longrightarrow> list_all is_edit ops \<Longrightarrow>
   \<exists>bds s'. deck_ops_loop now mint t tu n ops ds s = (Inr bds, s') \<and> rows_ok s'
     \<and> read_object s' = (\<lambda>w. case find (\<lambda>d. uid d = w) ds of None \<Rightarrow> read_object s w
        | Some d \<Rightarrow> Some (ODeck (fold (edit now) ops d)))"
proof (induction ops arbitrary: n ds s)
  case Nil
  have "read_object s w = (case find (\<lambda>d. uid d = w) ds of None \<Rightarrow> read_object s w
      | Some d \<Rightarrow> Some (ODeck (fold (edit now) [] d)))" for w
    using Nil.prems(1) find_uid [of ds w] by (auto simp: in_sync_def list_all_iff split: option.split)
  then show ?case using Nil.prems(2) unfolding deck_ops_loop.simps prog_simps by blast
next
  case (Cons op ops)
  obtain bds s1 where s1: "deck_op_step now (mint n) t tu op ds s = (Inr (map (edit now op) ds, bds), s1)"
    "read_object s1 = (\<lambda>w. case find (\<lambda>d. uid d = w) ds of None \<Rightarrow> read_object s w
       | Some d \<Rightarrow> Some (ODeck (edit now op d)))" "rows_ok s \<Longrightarrow> rows_ok s1"
    by (rule edit_step [OF Cons.prems(1), of op now "mint n" t tu]) (use Cons.prems(3) in auto)
  have ds: "distinct (map uid ds)" using Cons.prems(1) by (simp add: in_sync_def)
  have sync: "in_sync s1 (map (edit now op) ds)"
    using ds find_uid [OF ds, THEN iffD2] by (auto simp: in_sync_def list_all_iff s1(2) comp_def)
  obtain rest s2 where s2: "deck_ops_loop now mint t tu (Suc n) ops (map (edit now op) ds) s1 = (Inr rest, s2)" "rows_ok s2"
    "read_object s2 = (\<lambda>w. case find (\<lambda>d. uid d = w) (map (edit now op) ds) of None \<Rightarrow> read_object s1 w
        | Some d \<Rightarrow> Some (ODeck (fold (edit now) ops d)))"
    using Cons.IH [OF sync s1(3) [OF Cons.prems(2)], of "Suc n"] Cons.prems(3) by auto
  have "read_object s2 = (\<lambda>w. case find (\<lambda>d. uid d = w) ds of None \<Rightarrow> read_object s w
        | Some d \<Rightarrow> Some (ODeck (fold (edit now) (op # ops) d)))"
    unfolding s2(3) s1(2) by (auto simp: find_map_uid split: option.split)
  then show ?case using s1(1) s2(1,2) by (simp add: seq_def)
qed

lemma edits_event:
  assumes "rows_ok s" and "list_all is_edit ops"
  shows "\<exists>bds s'. process_deck_ops now mint ops tu t s = (Inr bds, s') \<and> rows_ok s'
    \<and> (\<forall>e. e \<in> set (get_decks_for_tournament s' tu) \<longleftrightarrow> (\<exists>d \<in> set (get_decks_for_tournament s tu). e = fold (edit now) ops d))
    \<and> (\<forall>w. (\<forall>d \<in> set (get_decks_for_tournament s tu). uid d \<noteq> w) \<longrightarrow> read_object s' w = read_object s w)"
proof -
  let ?ds = "get_decks_for_tournament s tu"
  obtain bds s' where s': "deck_ops_loop now mint t tu 0 ops ?ds s = (Inr bds, s')" "rows_ok s'"
    "read_object s' = (\<lambda>w. case find (\<lambda>d. uid d = w) ?ds of None \<Rightarrow> read_object s w
        | Some d \<Rightarrow> Some (ODeck (fold (edit now) ops d)))"
    using edits_loop [OF in_sync_event [OF assms(1)] assms(1,2)] by blast
  have run: "process_deck_ops now mint ops tu t s = (Inr bds, s')"
    using s'(1) by (cases ops) (simp_all add: process_deck_ops_def seq_def)
  have ds: "distinct (map uid ?ds)" by (rule event_decks(2) [OF assms(1)])
  have found: "find (\<lambda>d. uid d = w) ?ds = Some d \<longleftrightarrow> d \<in> set ?ds \<and> uid d = w" for w d by (rule find_uid [OF ds])
  have "e \<in> set (get_decks_for_tournament s' tu) \<longleftrightarrow> (\<exists>d \<in> set ?ds. e = fold (edit now) ops d)" for e
  proof
    assume "e \<in> set (get_decks_for_tournament s' tu)"
    then have e: "read_object s' (uid e) = Some (ODeck e)" "d_tournament_uid e = tu" "deleted_at e = None"
      using event_decks(1) [OF s'(2)] by auto
    show "\<exists>d \<in> set ?ds. e = fold (edit now) ops d"
    proof (cases "find (\<lambda>d. uid d = uid e) ?ds")
      case None
      then have "e \<in> set ?ds" using e event_decks(1) [OF assms(1)] by (simp add: s'(3))
      then show ?thesis using None unfolding find_None_iff by blast
    next
      case (Some d)
      then have "e = fold (edit now) ops d" using e(1) by (simp add: s'(3))
      then show ?thesis using Some found by blast
    qed
  next
    assume "\<exists>d \<in> set ?ds. e = fold (edit now) ops d"
    then obtain d where d: "d \<in> set ?ds" "e = fold (edit now) ops d" by blast
    then have "find (\<lambda>d. uid d = uid e) ?ds = Some d" by (simp add: found)
    then show "e \<in> set (get_decks_for_tournament s' tu)"
      using d event_decks(1) [OF assms(1)] event_decks(1) [OF s'(2)] by (simp add: s'(3))
  qed
  moreover have "read_object s' w = read_object s w" if "\<forall>d \<in> set ?ds. uid d \<noteq> w" for w
    using that by (simp add: s'(3) find_None_iff [THEN iffD2])
  ultimately show ?thesis using run s'(2) by blast
qed

section \<open>Stamping the decks of a round\<close>

definition round_op :: "int option \<Rightarrow> deck_op \<Rightarrow> bool" where
  "round_op r op \<longleftrightarrow> (\<exists>u. op = SetRound u r)"

lemma fold_round_ops:
  "list_all (round_op r) ops \<Longrightarrow>
   fold (edit now) ops d = (if SetRound (uid d) r \<in> set ops then d\<lparr>d_round := r, modified := now\<rparr> else d)"
proof (induction ops arbitrary: d)
  case (Cons op ops)
  obtain u where "op = SetRound u r" using Cons.prems by (auto simp: round_op_def)
  then show ?case using Cons by (cases "uid d = u") simp_all
qed simp

lemma stamp_ops: "list_all (round_op (Some (int i))) (stamp_pending seated i taken ds)"
  by (induction seated i taken ds rule: stamp_pending.induct) (simp_all add: round_op_def)

lemma stamped_only:
  "SetRound u r \<in> set (stamp_pending seated i taken ds) \<Longrightarrow>
   \<exists>d \<in> set ds. dj_uid d = u \<and> dj_round d = None \<and> dj_user_uid d \<in> set seated \<and> dj_user_uid d \<notin> set taken"
  by (induction seated i taken ds rule: stamp_pending.induct) (auto split: if_splits)

lemma stamped_once:
  "distinct (map dj_uid ds) \<Longrightarrow> d \<in> set ds \<Longrightarrow> e \<in> set ds \<Longrightarrow> dj_user_uid d = dj_user_uid e \<Longrightarrow>
   SetRound (dj_uid d) r \<in> set (stamp_pending seated i taken ds) \<Longrightarrow>
   SetRound (dj_uid e) r' \<in> set (stamp_pending seated i taken ds) \<Longrightarrow> d = e"
proof (induction seated i taken ds rule: stamp_pending.induct)
  case (2 seated i taken x ds)
  have here: "y = x" if "y \<in> set (x # ds)" "dj_uid y = dj_uid x" for y
    using that 2(3) by (auto simp: image_iff)
  have later: "dj_uid x \<noteq> u" if "SetRound u q \<in> set (stamp_pending seated i tk ds)" for u q tk
    using stamped_only [OF that] 2(3) by auto
  have fresh: "dj_user_uid y \<notin> set tk" if "SetRound (dj_uid y) q \<in> set (stamp_pending seated i tk ds)" "y \<in> set ds" for y q tk
  proof -
    from stamped_only [OF that(1)] obtain z where "z \<in> set ds" "dj_uid z = dj_uid y" "dj_user_uid z \<notin> set tk" by blast
    moreover then have "z = y" using that(2) 2(3) by (auto simp: distinct_map dest: inj_onD)
    ultimately show ?thesis by simp
  qed
  show ?case
  proof (cases "dj_round x \<noteq> None \<or> dj_user_uid x \<notin> set seated \<or> dj_user_uid x \<in> set taken")
    case True
    then have ops: "SetRound (dj_uid d) r \<in> set (stamp_pending seated i taken ds)" "SetRound (dj_uid e) r' \<in> set (stamp_pending seated i taken ds)"
      using 2(7,8) by simp_all
    then have "d \<in> set ds" "e \<in> set ds" using later 2(4,5) by auto
    then show ?thesis using 2(1) [OF True _ _ _ 2(6) ops] 2(3) by simp
  next
    case False
    let ?rest = "stamp_pending seated i (dj_user_uid x # taken) ds"
    have d: "d = x \<or> d \<in> set ds \<and> SetRound (dj_uid d) r \<in> set ?rest"
      using False 2(4,7) here by auto
    have e: "e = x \<or> e \<in> set ds \<and> SetRound (dj_uid e) r' \<in> set ?rest"
      using False 2(5,8) here by auto
    from d e show ?thesis
      using 2(2) [OF False _ _ _ 2(6)] 2(3,6) fresh [of d r "dj_user_uid x # taken"] fresh [of e r' "dj_user_uid x # taken"]
      by auto
  qed
qed simp

lemma stamped_all:
  "d \<in> set ds \<Longrightarrow> dj_round d = None \<Longrightarrow> dj_user_uid d \<in> set seated \<Longrightarrow>
   dj_user_uid d \<in> set taken \<or> (\<exists>e \<in> set ds. dj_user_uid e = dj_user_uid d
     \<and> SetRound (dj_uid e) (Some (int i)) \<in> set (stamp_pending seated i taken ds))"
  by (induction seated i taken ds rule: stamp_pending.induct) (auto split: if_splits)

definition one_deck_a_round :: "db \<Rightarrow> uid \<Rightarrow> bool" where
  "one_deck_a_round s tu \<longleftrightarrow> (\<forall>d \<in> set (get_decks_for_tournament s tu). \<forall>e \<in> set (get_decks_for_tournament s tu).
     d_user_uid d = d_user_uid e \<and> d_round d = d_round e \<and> d_round d \<noteq> None \<longrightarrow> uid d = uid e)"

text \<open>The decks the stamps reach\<close>

definition stamped_for :: "tournament \<Rightarrow> deck list \<Rightarrow> nat \<Rightarrow> uid \<Rightarrow> bool" where
  "stamped_for t ds i u \<longleftrightarrow> SetRound u (Some (int i)) \<in> set (stamp_round_decks t (map deck_to_json ds) i)"

lemma deck_to_json_sel [simp]:
  "dj_user_uid (deck_to_json d) = d_user_uid d" "dj_round (deck_to_json d) = d_round d" "dj_uid (deck_to_json d) = uid d"
  "dj_public (deck_to_json d) = d_public d" "dj_winner (deck_to_json d) = d_winner d" "dj_private (deck_to_json d) = d_private d"
  by (simp_all add: deck_to_json_def)

lemma as_usize_Some: "as_usize r = Some i \<longleftrightarrow> r = Some (int i)"
  by (auto simp: as_usize_def split: option.split)

lemma stamped_for_facts:
  assumes ds: "distinct (map uid ds)"
  shows "d \<in> set ds \<Longrightarrow> stamped_for t ds i (uid d) \<Longrightarrow> d_round d = None \<and> d_user_uid d \<in> set (seated_in_round t i)
      \<and> (\<forall>e \<in> set ds. d_user_uid e = d_user_uid d \<longrightarrow> d_round e \<noteq> Some (int i))"
    "d \<in> set ds \<Longrightarrow> e \<in> set ds \<Longrightarrow> d_user_uid d = d_user_uid e \<Longrightarrow> stamped_for t ds i (uid d) \<Longrightarrow> stamped_for t ds i (uid e) \<Longrightarrow> d = e"
    "t_multideck t \<Longrightarrow> d \<in> set ds \<Longrightarrow> d_round d = None \<Longrightarrow> d_user_uid d \<in> set (seated_in_round t i) \<Longrightarrow>
      \<exists>e \<in> set ds. d_user_uid e = d_user_uid d \<and> (d_round e = Some (int i) \<or> stamped_for t ds i (uid e))"
proof -
  define taken where "taken = map dj_user_uid (filter (\<lambda>d. as_usize (dj_round d) = Some i) (map deck_to_json ds))"
  have taken: "u \<in> set taken \<longleftrightarrow> (\<exists>e \<in> set ds. d_user_uid e = u \<and> d_round e = Some (int i))" for u
    by (simp add: taken_def deck_to_json_def as_usize_Some filter_map comp_def image_iff) auto
  have ops: "stamp_round_decks t (map deck_to_json ds) i
      = (if t_multideck t then stamp_pending (seated_in_round t i) i taken (map deck_to_json ds) else [])"
    by (simp add: stamp_round_decks_def taken_def)
  have same: "d = e" if "d \<in> set ds" "e \<in> set ds" "uid d = uid e" for d e
    using that ds by (auto simp: distinct_map dest: inj_onD)
  show "d_round d = None \<and> d_user_uid d \<in> set (seated_in_round t i)
      \<and> (\<forall>e \<in> set ds. d_user_uid e = d_user_uid d \<longrightarrow> d_round e \<noteq> Some (int i))"
    if d: "d \<in> set ds" "stamped_for t ds i (uid d)"
  proof -
    have "SetRound (uid d) (Some (int i)) \<in> set (stamp_pending (seated_in_round t i) i taken (map deck_to_json ds))"
      using d(2) by (simp add: stamped_for_def ops split: if_splits)
    from stamped_only [OF this] obtain e where "e \<in> set ds" "uid e = uid d" "d_round e = None"
      "d_user_uid e \<in> set (seated_in_round t i)" "d_user_uid e \<notin> set taken"
      by (auto simp: deck_to_json_def)
    then show ?thesis using same [OF _ d(1)] taken [of "d_user_uid d"] by auto
  qed
  show "d = e" if "d \<in> set ds" "e \<in> set ds" "d_user_uid d = d_user_uid e" "stamped_for t ds i (uid d)" "stamped_for t ds i (uid e)"
  proof -
    have dist: "distinct (map dj_uid (map deck_to_json ds))" using ds by (simp add: deck_to_json_def comp_def)
    have stamps: "SetRound (dj_uid (deck_to_json x)) (Some (int i)) \<in> set (stamp_pending (seated_in_round t i) i taken (map deck_to_json ds))"
      if "stamped_for t ds i (uid x)" for x
      using that by (simp add: stamped_for_def ops deck_to_json_def split: if_splits)
    have "deck_to_json d = deck_to_json e"
      by (rule stamped_once [OF dist _ _ _ stamps [OF that(4)] stamps [OF that(5)]])
        (use that(1-3) in simp_all)
    then show ?thesis using same [OF that(1,2)] by (simp add: deck_to_json_def)
  qed
  show "\<exists>e \<in> set ds. d_user_uid e = d_user_uid d \<and> (d_round e = Some (int i) \<or> stamped_for t ds i (uid e))"
    if "t_multideck t" "d \<in> set ds" "d_round d = None" "d_user_uid d \<in> set (seated_in_round t i)"
    using stamped_all [of "deck_to_json d" "map deck_to_json ds" "seated_in_round t i" taken i] that taken [of "d_user_uid d"]
    by (auto simp: stamped_for_def ops)
qed

text \<open>When a round starts, the engine's stamps and the server's writes together bind to the round
  one deck of every seated player who has any, and only decks of seated players that were pending:
  the batch never fails, and no player ever has two decks for one round.\<close>

theorem stamping_binds_one_deck:
  assumes "rows_ok s" and "one_deck_a_round s tu"
  shows "\<exists>bds s'. process_deck_ops now mint (stamp_round_decks t (build_decks_json s tu) i) tu t s = (Inr bds, s')
    \<and> rows_ok s' \<and> one_deck_a_round s' tu
    \<and> (\<forall>e \<in> set (get_decks_for_tournament s' tu). \<exists>d \<in> set (get_decks_for_tournament s tu). uid e = uid d
        \<and> (d_round e = d_round d
          \<or> d_round d = None \<and> d_round e = Some (int i) \<and> d_user_uid e \<in> set (seated_in_round t i)))
    \<and> (t_multideck t \<longrightarrow> (\<forall>d \<in> set (get_decks_for_tournament s tu). d_round d = None \<and> d_user_uid d \<in> set (seated_in_round t i)
        \<longrightarrow> (\<exists>e \<in> set (get_decks_for_tournament s' tu). d_user_uid e = d_user_uid d \<and> d_round e = Some (int i))))"
proof -
  let ?ds = "get_decks_for_tournament s tu"
  define ops where "ops = stamp_round_decks t (map deck_to_json ?ds) i"
  have rops: "list_all (round_op (Some (int i))) ops"
    by (auto simp: ops_def stamp_round_decks_def stamp_ops)
  then have "list_all is_edit ops" by (auto simp: list_all_iff round_op_def)
  from edits_event [OF assms(1) this, of now mint tu t] obtain bds s' where
    s': "process_deck_ops now mint ops tu t s = (Inr bds, s')" "rows_ok s'"
      "\<And>e. e \<in> set (get_decks_for_tournament s' tu) \<longleftrightarrow> (\<exists>d \<in> set ?ds. e = fold (edit now) ops d)"
    by blast
  define g where "g = (\<lambda>d :: deck. if stamped_for t ?ds i (uid d) then d\<lparr>d_round := Some (int i), modified := now\<rparr> else d)"
  have fold: "fold (edit now) ops d = g d" for d
    using fold_round_ops [OF rops] by (simp add: g_def stamped_for_def ops_def)
  have g [simp]: "uid (g d) = uid d" "d_user_uid (g d) = d_user_uid d"
    "d_round (g d) = (if stamped_for t ?ds i (uid d) then Some (int i) else d_round d)" for d
    by (simp_all add: g_def)
  have new: "e \<in> set (get_decks_for_tournament s' tu) \<longleftrightarrow> (\<exists>d \<in> set ?ds. e = g d)" for e
    using s'(3) by (simp add: fold)
  then have new_set: "set (get_decks_for_tournament s' tu) = g ` set ?ds" by auto
  note facts = stamped_for_facts [OF event_decks(2) [OF assms(1), of tu], where t = t and i = i]
  have "uid d = uid e" if "d \<in> set ?ds" "e \<in> set ?ds" "d_user_uid d = d_user_uid e"
      "d_round (g d) = d_round (g e)" "d_round (g d) \<noteq> None" for d e
    using assms(2) that facts(1) [of d] facts(1) [of e] facts(2) [of d e]
    unfolding one_deck_a_round_def g(3) by (metis (no_types, lifting) option.distinct(1))
  then have "one_deck_a_round s' tu"
    unfolding one_deck_a_round_def new_set ball_simps by (metis g(1,2))
  moreover have "\<exists>d \<in> set ?ds. uid e = uid d \<and> (d_round e = d_round d
      \<or> d_round d = None \<and> d_round e = Some (int i) \<and> d_user_uid e \<in> set (seated_in_round t i))"
    if "e \<in> set (get_decks_for_tournament s' tu)" for e
  proof -
    from that obtain d where d: "d \<in> set ?ds" "e = g d" by (auto simp: new)
    then show ?thesis using facts(1) [OF d(1)] by (intro bexI [of _ d]) auto
  qed
  moreover have "\<exists>e \<in> set (get_decks_for_tournament s' tu). d_user_uid e = d_user_uid d \<and> d_round e = Some (int i)"
    if "t_multideck t" "d \<in> set ?ds" "d_round d = None" "d_user_uid d \<in> set (seated_in_round t i)" for d
  proof -
    from facts(3) [OF that] obtain e where
      e: "e \<in> set ?ds" "d_user_uid e = d_user_uid d" "d_round e = Some (int i) \<or> stamped_for t ?ds i (uid e)"
      by blast
    then have "d_user_uid (g e) = d_user_uid d \<and> d_round (g e) = Some (int i)" by auto
    then show ?thesis using e(1) new by blast
  qed
  ultimately show ?thesis using s'(1,2) unfolding build_decks_json_def ops_def [symmetric] by blast
qed

section \<open>Publication\<close>

fun settles :: "deck_op \<Rightarrow> bool" where
  "settles (SetRound _ _) = True" | "settles (SetAttribution _ _ _) = True" | "settles (SetPrivate _ _) = True" | "settles _ = False"

lemma settles_edit: "settles op \<Longrightarrow> is_edit op \<and> \<not> deck_touched [op] d"
  by (cases op) (simp_all add: deck_touched_def)

lemma settles_keeps_flags:
  "list_all settles ops \<Longrightarrow> d_public (fold (edit now) ops d) = d_public d \<and> d_winner (fold (edit now) ops d) = d_winner d"
proof (induction ops arbitrary: d)
  case (Cons op ops)
  have "settles op" using Cons.prems by simp
  then have "d_public (edit now op d) = d_public d \<and> d_winner (edit now op d) = d_winner d"
    by (cases op) simp_all
  then show ?case using Cons by simp
qed simp

lemma private_after_edits: "d_private (fold (edit now) ops d) = private_after ops (deck_to_json d)"
proof (induction ops rule: rev_induct)
  case (snoc op ops)
  then show ?case by (cases op) (simp_all add: private_after_def)
qed (simp add: private_after_def)

lemma fold_publications:
  "distinct (map uid ds) \<Longrightarrow> \<forall>e \<in> set ds. \<forall>op. f e = Some op \<longrightarrow> (\<exists>p w. op = SetPublication (uid e) p w) \<Longrightarrow>
   fold (edit now) (List.map_filter f ds) d = (case find (\<lambda>e. uid e = uid d) ds of None \<Rightarrow> d
     | Some e \<Rightarrow> (case f e of None \<Rightarrow> d | Some op \<Rightarrow> edit now op d))"
proof (induction ds arbitrary: d)
  case (Cons e ds)
  have later: "fold (edit now) (List.map_filter f ds) x = x" if "uid x = uid e" for x
  proof -
    have "find (\<lambda>z. uid z = uid x) ds = None" using Cons.prems(1) that by (auto simp: find_None_iff image_iff)
    then show ?thesis using Cons.IH [of x] Cons.prems by simp
  qed
  show ?case
  proof (cases "uid e = uid d")
    case True
    then show ?thesis using later [of d] later [of "edit now (the (f e)) d"]
      by (cases "f e") (simp_all add: map_filter_simps)
  next
    case False
    then have "edit now op d = d" if "f e = Some op" for op using Cons.prems(2) that by fastforce
    then show ?thesis using Cons.IH [of d] Cons.prems False by (cases "f e") (simp_all add: map_filter_simps)
  qed
qed (simp add: map_filter_simps)

text \<open>When an event is or was finished, the recomputation the engine appends to a batch of edits
  settles publication: after the server has applied the batch every deck of the event is public
  exactly when the event's mode says so for its player - a private one only as the winner's - and
  marked as the winning deck exactly when its player won.\<close>

theorem publication_settles:
  assumes "rows_ok s" and "list_all settles ops"
    and "list_all (\<lambda>d. d_user_uid d \<noteq> [] \<and> uid d \<noteq> []) (get_decks_for_tournament s tu)"
  shows "\<exists>bds s'. process_deck_ops now mint (recompute_deck_publication t (build_decks_json s tu) ops) tu t s = (Inr bds, s')
    \<and> rows_ok s' \<and> (\<forall>e \<in> set (get_decks_for_tournament s' tu).
        d_public e = compute_deck_public t (d_user_uid e) (d_private e) \<and> d_winner e = compute_deck_winner t (d_user_uid e))"
proof -
  let ?ds = "get_decks_for_tournament s tu"
  define publication where "publication = deck_publication t ops \<circ> deck_to_json"
  have untouched: "\<not> deck_touched ops x" for x
    using assms(2) settles_edit [of _ x] by (auto simp: deck_touched_def list_ex_iff list_all_iff)
  have "List.map_filter f (map deck_to_json ds) = List.map_filter (f \<circ> deck_to_json) ds" for f :: "deck_json \<Rightarrow> deck_op option" and ds
    by (induction ds) (simp_all add: map_filter_simps split: option.split)
  then have ops: "recompute_deck_publication t (build_decks_json s tu) ops = ops @ List.map_filter publication ?ds"
    by (simp add: recompute_deck_publication_def build_decks_json_def publication_def)
  have pub: "publication d = (let pub = compute_deck_public t (d_user_uid d) (private_after ops (deck_to_json d));
       win = compute_deck_winner t (d_user_uid d)
     in if d_public d \<noteq> pub \<or> d_winner d \<noteq> win then Some (SetPublication (uid d) pub win) else None)" if "d \<in> set ?ds" for d
    using assms(3) that by (simp add: publication_def deck_publication_def untouched list_all_iff Let_def)
  have "\<exists>p w. op = SetPublication (uid d) p w" if "publication d = Some op" for d op
    using that by (auto simp: publication_def deck_publication_def Let_def split: if_splits)
  moreover have "distinct (map uid ?ds)" by (rule event_decks(2) [OF assms(1)])
  ultimately have pubs: "fold (edit now) (List.map_filter (publication) ?ds) d = (case find (\<lambda>e. uid e = uid d) ?ds of None \<Rightarrow> d
     | Some e \<Rightarrow> (case publication e of None \<Rightarrow> d | Some op \<Rightarrow> edit now op d))" for d
    by (intro fold_publications) auto
  have "is_edit op" if "op \<in> set (ops @ List.map_filter (publication) ?ds)" for op
    using that assms(2) settles_edit
    by (auto simp: list_all_iff in_map_filter publication_def deck_publication_def Let_def split: if_splits)
  then have "list_all is_edit (ops @ List.map_filter (publication) ?ds)" by (simp add: list_all_iff)
  from edits_event [OF assms(1) this, of now mint tu t] obtain bds s' where
    s': "process_deck_ops now mint (ops @ List.map_filter (publication) ?ds) tu t s = (Inr bds, s')" "rows_ok s'"
      "\<And>e. e \<in> set (get_decks_for_tournament s' tu)
        \<longleftrightarrow> (\<exists>d \<in> set ?ds. e = fold (edit now) (ops @ List.map_filter (publication) ?ds) d)"
    by blast
  have "d_public e = compute_deck_public t (d_user_uid e) (d_private e) \<and> d_winner e = compute_deck_winner t (d_user_uid e)"
    if e: "e \<in> set (get_decks_for_tournament s' tu)" for e
  proof -
    from e obtain d where d: "d \<in> set ?ds" "e = fold (edit now) (List.map_filter (publication) ?ds) (fold (edit now) ops d)"
      by (auto simp: s'(3))
    define d1 where "d1 = fold (edit now) ops d"
    have d1: "d_public d1 = d_public d" "d_winner d1 = d_winner d" "d_private d1 = private_after ops (deck_to_json d)"
      "uid d1 = uid d" "d_user_uid d1 = d_user_uid d"
      using settles_keeps_flags [OF assms(2)] by (simp_all add: d1_def private_after_edits)
    have "find (\<lambda>e. uid e = uid d) ?ds = Some d"
      using d(1) find_uid [OF event_decks(2) [OF assms(1)]] by blast
    then have "e = (case publication d of None \<Rightarrow> d1 | Some op \<Rightarrow> edit now op d1)"
      using d(2) pubs [of d1] by (simp add: d1_def [symmetric] d1)
    then show ?thesis by (auto simp: pub [OF d(1)] Let_def d1)
  qed
  then show ?thesis using s'(1,2) unfolding ops by blast
qed

section \<open>Deleting an event\<close>

definition saves :: "('x \<Rightarrow> (db, broadcast_data) prog) \<Rightarrow> ('x \<Rightarrow> obj) \<Rightarrow> bool" where
  "saves m f \<longleftrightarrow> (\<forall>x s. \<exists>bd s'. m x s = (Inr bd, s') \<and> read_object s' = (read_object s)(obj_uid (f x) \<mapsto> f x)
     \<and> (rows_ok s \<longrightarrow> rows_ok s') \<and> bd_uid bd = obj_uid (f x))"

lemma for_each_saves:
  assumes "saves m f" and "distinct (map (obj_uid \<circ> f) xs)"
  shows "\<exists>bds s'. for_each m xs s = (Inr bds, s') \<and> (rows_ok s \<longrightarrow> rows_ok s') \<and> map bd_uid bds = map (obj_uid \<circ> f) xs
    \<and> read_object s' = (\<lambda>w. case find (\<lambda>x. obj_uid (f x) = w) xs of None \<Rightarrow> read_object s w | Some x \<Rightarrow> Some (f x))"
  using assms(2)
proof (induction xs arbitrary: s)
  case (Cons x xs)
  obtain bd s1 where s1: "m x s = (Inr bd, s1)" "read_object s1 = (read_object s)(obj_uid (f x) \<mapsto> f x)"
      "rows_ok s \<longrightarrow> rows_ok s1" "bd_uid bd = obj_uid (f x)"
    using assms(1) unfolding saves_def by blast
  obtain bds s2 where s2: "for_each m xs s1 = (Inr bds, s2)" "rows_ok s1 \<longrightarrow> rows_ok s2" "map bd_uid bds = map (obj_uid \<circ> f) xs"
      "read_object s2 = (\<lambda>w. case find (\<lambda>x. obj_uid (f x) = w) xs of None \<Rightarrow> read_object s1 w | Some x \<Rightarrow> Some (f x))"
    using Cons.IH [of s1] Cons.prems by auto
  have "find (\<lambda>y. obj_uid (f y) = obj_uid (f x)) xs = None" using Cons.prems by (auto simp: find_None_iff image_iff)
  then have "read_object s2 = (\<lambda>w. case find (\<lambda>x. obj_uid (f x) = w) (x # xs) of None \<Rightarrow> read_object s w | Some x \<Rightarrow> Some (f x))"
    unfolding s2(4) s1(2) by (intro ext) (auto split: option.split)
  then show ?case using s1(1,3,4) s2(1-3) by (simp add: seq_def)
qed simp

lemma save_event_deck_saves: "saves (\<lambda>d. save_event_deck now t (g d)) (\<lambda>d. ODeck (g d))"
  unfolding saves_def
proof (intro allI)
  fix d s
  show "\<exists>bd s'. save_event_deck now t (g d) s = (Inr bd, s') \<and> read_object s' = (read_object s)(obj_uid (ODeck (g d)) \<mapsto> ODeck (g d))
     \<and> (rows_ok s \<longrightarrow> rows_ok s') \<and> bd_uid bd = obj_uid (ODeck (g d))"
    by (rule save_event_deck_run [of now t "g d" s]) auto
qed

lemma save_sanction_saves:
  "saves (\<lambda>x. atomic (save_object_from_model now (OSanction (g x)))) (\<lambda>x. OSanction (g x))"
  unfolding saves_def
proof (intro allI)
  fix x s
  show "\<exists>bd s'. atomic (save_object_from_model now (OSanction (g x))) s = (Inr bd, s')
     \<and> read_object s' = (read_object s)(obj_uid (OSanction (g x)) \<mapsto> OSanction (g x))
     \<and> (rows_ok s \<longrightarrow> rows_ok s') \<and> bd_uid bd = obj_uid (OSanction (g x))"
    by (rule save_plain [of "OSanction (g x)" now s]) (auto simp: atomic_def)
qed

text \<open>Saving again every object of a list, as \<open>f\<close> makes it\<close>

lemma save_all_again:
  fixes C :: "'a base_object_scheme \<Rightarrow> obj"
  assumes ok: "rows_ok s" and "saves m f" and dec: "\<And>x d. dec x = Some d \<longleftrightarrow> x = C d"
    and uid: "\<And>d. obj_uid (C d) = uid d" "\<And>d. obj_uid (f d) = uid d"
    and dist: "distinct (map uid xs)" and here: "\<forall>x \<in> set xs. read_object s (uid x) = Some (C x)"
  obtains bds s' where "for_each m xs s = (Inr bds, s')" "rows_ok s'" "map bd_uid bds = map uid xs"
    "\<And>w. read_object s' w = map_option (\<lambda>y. case dec y of None \<Rightarrow> y | Some x \<Rightarrow> if x \<in> set xs then f x else y) (read_object s w)"
proof -
  obtain bds s' where s': "for_each m xs s = (Inr bds, s')" "rows_ok s'" "map bd_uid bds = map uid xs"
    "read_object s' = (\<lambda>w. case find (\<lambda>x. uid x = w) xs of None \<Rightarrow> read_object s w | Some x \<Rightarrow> Some (f x))"
    using for_each_saves [OF assms(2), of xs s] dist ok by (auto simp: comp_def uid)
  have "read_object s' w = map_option (\<lambda>y. case dec y of None \<Rightarrow> y | Some x \<Rightarrow> if x \<in> set xs then f x else y) (read_object s w)" for w
  proof (cases "find (\<lambda>x. uid x = w) xs")
    case None
    have "x \<notin> set xs" if "read_object s w = Some (C x)" for x
      using None stored_object(1) [OF ok that] by (auto simp: find_None_iff uid)
    then show ?thesis using None dec by (cases "read_object s w") (auto simp: s'(4) split: option.split)
  next
    case (Some x)
    then have "x \<in> set xs" "uid x = w" using find_uid [OF dist] by auto
    moreover have "dec (C x) = Some x" by (simp add: dec)
    ultimately show ?thesis using here by (auto simp: s'(4) Some)
  qed
  then show thesis using s'(1-3) that by blast
qed

definition buried :: "instant \<Rightarrow> uid \<Rightarrow> obj \<Rightarrow> obj" where
  "buried now u x = (case x of
     OTournament t \<Rightarrow> if uid t = u then OTournament (t\<lparr>deleted_at := Some now, modified := now\<rparr>) else x
   | ODeck d \<Rightarrow> if d_tournament_uid d = u \<and> deleted_at d = None
       then ODeck (d\<lparr>deleted_at := Some now, modified := now\<rparr>) else x
   | OSanction y \<Rightarrow> if s_tournament_uid y = Some u \<and> deleted_at y = None
       then OSanction (y\<lparr>deleted_at := Some now, modified := now\<rparr>) else x
   | _ \<Rightarrow> x)"

lemma save_buried_event:
  assumes "rows_ok s" and "get_tournament_by_uid s u = Some t0"
  obtains bd s' where "save_tournament now (t0\<lparr>deleted_at := Some now, modified := now\<rparr>) s = Inr (bd, s')"
    "read_object s' = (read_object s)(u \<mapsto> OTournament (t0\<lparr>deleted_at := Some now, modified := now\<rparr>))" "rows_ok s'" "bd_uid bd = u"
    "read_object s u = Some (OTournament t0)" "uid t0 = u"
proof -
  let ?t = "t0\<lparr>deleted_at := Some now, modified := now\<rparr>"
  have old: "read_object s u = Some (OTournament t0)"
    using assms(2) by (auto simp: get_tournament_by_uid_def get_object_full_read as_tournament_Some split: Option.bind_splits)
  then have u: "uid t0 = u" using stored_object(1) [OF assms(1)] by fastforce
  have free: "\<not> index_conflict (OTournament ?t) s"
    by (rule object_update_free [OF assms(1), where x = "OTournament t0"]) (use old u in simp_all)
  obtain bd s' where save: "save_object now (OTournament ?t) (obj_deleted_at (OTournament ?t)) s = Inr (bd, s')"
    using save_object_total [of "OTournament ?t" s now "obj_deleted_at (OTournament ?t)"] free by auto
  have "bd_uid bd = uid ?t" by (rule save_object_Inr [OF save]) simp
  then show thesis
    using that [of bd s'] save read_object_saved [OF save] save_object_rows_ok [OF assms(1) save] old u
    by (simp add: save_tournament_def save_object_from_model_def)
qed

text \<open>Deleting an event buries it whole: its row, its live decks and its live sanctions carry the
  tombstone, one broadcast each, and nothing else in the table changes; it never fails, and an
  unknown event changes nothing.\<close>

theorem soft_delete_buries:
  assumes "rows_ok s"
  shows "case soft_delete_tournament now u s of
      (Inl e, _) \<Rightarrow> False
    | (Inr None, s') \<Rightarrow> s' = s \<and> get_tournament_by_uid s u = None
    | (Inr (Some (t, bds)), s') \<Rightarrow> rows_ok s'
        \<and> map_option (\<lambda>t0. t0\<lparr>deleted_at := Some now, modified := now\<rparr>) (get_tournament_by_uid s u) = Some t
        \<and> (\<forall>w. read_object s' w = map_option (buried now u) (read_object s w))
        \<and> distinct (map bd_uid bds) \<and> bd_uid ` set bds
          = {u} \<union> uid ` set (get_decks_for_tournament s u) \<union> uid ` set (get_sanctions_for_tournament s u)"
proof (cases "get_tournament_by_uid s u")
  case None
  then show ?thesis by (simp add: soft_delete_tournament_def transaction_def seq_def)
next
  case (Some t0)
  define t where "t = t0\<lparr>deleted_at := Some now, modified := now\<rparr>"
  define lift where "lift = (\<lambda>x :: sanction. x\<lparr>deleted_at := Some now, modified := now\<rparr>)"
  obtain bd s1 where s1: "save_tournament now t s = Inr (bd, s1)" "read_object s1 = (read_object s)(u \<mapsto> OTournament t)"
    "rows_ok s1" "bd_uid bd = u" and old: "read_object s u = Some (OTournament t0)" and u: "uid t0 = u"
    by (rule save_buried_event [OF assms Some, of now]) (auto simp: t_def)
  let ?ds = "get_decks_for_tournament s1 u"
  have ds: "d \<in> set ?ds \<longleftrightarrow> d \<in> set (get_decks_for_tournament s u)" for d
    using old by (auto simp: event_decks(1) s1 assms)
  obtain dbs s2 where s2: "for_each (\<lambda>d. save_event_deck now t (buried_deck now d)) ?ds s1 = (Inr dbs, s2)" "rows_ok s2"
    "map bd_uid dbs = map uid ?ds" "\<And>w. read_object s2 w = map_option (\<lambda>y. case as_deck y of None \<Rightarrow> y
       | Some d \<Rightarrow> if d \<in> set ?ds then ODeck (buried_deck now d) else y) (read_object s1 w)"
    by (rule save_all_again [OF s1(3) save_event_deck_saves [of now t "buried_deck now"] as_deck_Some _ _ event_decks(2) [OF s1(3), of u]])
      (auto simp: buried_deck_def event_decks(1) [OF s1(3)])
  let ?xs = "get_sanctions_for_tournament s2 u"
  have xs: "x \<in> set ?xs \<longleftrightarrow> x \<in> set (get_sanctions_for_tournament s u)" for x
    using old by (auto simp: event_sanctions(1) s2 s1 assms as_deck_Some split: option.splits)
  obtain sbs s3 where s3: "for_each (\<lambda>x. atomic (save_object_from_model now (OSanction (lift x)))) ?xs s2 = (Inr sbs, s3)" "rows_ok s3"
    "map bd_uid sbs = map uid ?xs" "\<And>w. read_object s3 w = map_option (\<lambda>y. case as_sanction y of None \<Rightarrow> y
       | Some x \<Rightarrow> if x \<in> set ?xs then OSanction (lift x) else y) (read_object s2 w)"
    by (rule save_all_again [OF s2(2) save_sanction_saves [of now lift] as_sanction_Some _ _ event_sanctions(2) [OF s2(2), of u]])
      (auto simp: lift_def event_sanctions(1) [OF s2(2)])
  have read: "read_object s3 w = map_option (buried now u) (read_object s w)" for w
  proof (cases "read_object s w")
    case None
    then show ?thesis using old by (auto simp: s3 s2 s1)
  next
    case (Some x)
    have w: "obj_uid x = w" by (rule stored_object(1) [OF assms Some])
    show ?thesis
      using Some old w by (cases x) (auto simp: s3 s2 s1 buried_def t_def buried_deck_def lift_def ds xs event_decks(1) event_sanctions(1) assms u)
  qed
  have apart: "uid d \<noteq> u \<and> uid x \<noteq> u \<and> uid d \<noteq> uid x" if "d \<in> set ?ds" "x \<in> set ?xs" for d x
    using old that by (auto simp: ds xs event_decks(1) event_sanctions(1) assms)
  have apart': "d \<in> set ?ds \<Longrightarrow> uid d \<noteq> u" "x \<in> set ?xs \<Longrightarrow> uid x \<noteq> u" for d x
    using old by (auto simp: ds xs event_decks(1) event_sanctions(1) assms)
  have bds: "map bd_uid ([bd] @ dbs @ sbs) = u # map uid ?ds @ map uid ?xs" by (simp add: s1(4) s2(3) s3(3))
  have dist: "distinct (map bd_uid ([bd] @ dbs @ sbs))"
    unfolding bds using event_decks(2) [OF s1(3), of u] event_sanctions(2) [OF s2(2), of u] apart apart' by fastforce
  have "set (map bd_uid ([bd] @ dbs @ sbs)) = {u} \<union> uid ` set ?ds \<union> uid ` set ?xs" unfolding bds by auto
  also have "\<dots> = {u} \<union> uid ` set (get_decks_for_tournament s u) \<union> uid ` set (get_sanctions_for_tournament s u)"
    using ds xs by blast
  finally have cover: "bd_uid ` set ([bd] @ dbs @ sbs)
      = {u} \<union> uid ` set (get_decks_for_tournament s u) \<union> uid ` set (get_sanctions_for_tournament s u)" by (simp add: image_Un)
  have run: "soft_delete_tournament now u s = (Inr (Some (t, [bd] @ dbs @ sbs)), s3)"
    using s1(1) s2(1) s3(1)
    by (simp add: soft_delete_tournament_def transaction_def seq_def Some t_def [symmetric] lift_def atomic_def)
  show ?thesis
    unfolding run prod.case sum.case option.case using s3(2) read dist cover Some t_def by auto
qed

section \<open>A batch stays with the event\<close>

definition views_once :: "deck \<Rightarrow> bool" where
  "views_once d \<longleftrightarrow> distinct (map dv_user_uid (d_views d))"

definition own_deck :: "uid \<Rightarrow> obj \<Rightarrow> bool" where
  "own_deck tu x \<longleftrightarrow> (case x of ODeck d \<Rightarrow> d_tournament_uid d = tu \<and> views_once d | _ \<Rightarrow> False)"

definition batch_ok :: "uid set \<Rightarrow> uid \<Rightarrow> db \<Rightarrow> deck list \<Rightarrow> db \<Rightarrow> bool" where
  "batch_ok U tu s0 ds s \<longleftrightarrow> rows_ok s \<and> list_all (\<lambda>d. uid d \<in> U \<and> own_deck tu (ODeck d)) ds
     \<and> (\<forall>w. w \<notin> U \<longrightarrow> map_of (db_objects s) w = map_of (db_objects s0) w)
     \<and> (\<forall>w x. w \<in> U \<longrightarrow> read_object s w = Some x \<longrightarrow> own_deck tu x)"

definition deck_broadcast :: "tournament \<Rightarrow> uid set \<Rightarrow> broadcast_data \<Rightarrow> bool" where
  "deck_broadcast t U bd \<longleftrightarrow> bd_obj_type bd = DECK \<and> bd_uid bd \<in> U \<and> (\<exists>d. uid d = bd_uid bd \<and> bd_full bd = deck_builtins d
     \<and> bd_org_uids bd = Some (if closed_to_organizers t d then [] else t_organizers_uids t))"

text \<open>What every step gives\<close>

definition step_result :: "tournament \<Rightarrow> uid set \<Rightarrow> uid \<Rightarrow> db \<Rightarrow> deck_batch res \<times> db \<Rightarrow> bool" where
  "step_result t U tu s0 r \<longleftrightarrow> (\<exists>ds bds s. r = (Inr (ds, bds), s) \<and> batch_ok U tu s0 ds s \<and> list_all (deck_broadcast t U) bds)"

lemma save_in_batch:
  assumes "batch_ok U tu s0 ds s" and "uid d \<in> U" and "own_deck tu (ODeck d)"
  obtains bd s' where "save_event_deck now t d s = (Inr bd, s')" "batch_ok U tu s0 ds s'" "deck_broadcast t U bd"
proof -
  obtain bd s' where s': "save_event_deck now t d s = (Inr bd, s')" "read_object s' = (read_object s)(uid d \<mapsto> ODeck d)"
    "rows_ok s \<Longrightarrow> rows_ok s'" "bd_uid bd = uid d" "bd_obj_type bd = DECK" "bd_full bd = deck_builtins d"
    "bd_org_uids bd = Some (if closed_to_organizers t d then [] else t_organizers_uids t)"
    "\<And>w. w \<noteq> uid d \<Longrightarrow> map_of (db_objects s') w = map_of (db_objects s) w"
    by (rule save_event_deck_run [of now t d s]) blast
  have rows: "rows_ok s" using assms(1) by (simp add: batch_ok_def)
  have frame: "map_of (db_objects s') w = map_of (db_objects s0) w" if "w \<notin> U" for w
  proof -
    have "w \<noteq> uid d" using that assms(2) by auto
    then show ?thesis using s'(8) assms(1) that by (simp add: batch_ok_def)
  qed
  have "batch_ok U tu s0 ds s'"
    unfolding batch_ok_def using assms(1,3) frame s'(2) s'(3) [OF rows] by (auto simp: batch_ok_def)
  moreover have "deck_broadcast t U bd" using s'(4-7) assms(2) unfolding deck_broadcast_def by metis
  ultimately show thesis using s'(1) that by blast
qed

lemma batch_ok_list: "batch_ok U tu s0 ds s \<Longrightarrow> list_all (\<lambda>d. uid d \<in> U \<and> own_deck tu (ODeck d)) ds' \<Longrightarrow> batch_ok U tu s0 ds' s"
  by (simp add: batch_ok_def)

lemma save_one_result:
  assumes ok: "batch_ok U tu s0 ds s" and d: "uid d \<in> U" "own_deck tu (ODeck d)"
    and ds': "list_all (\<lambda>d. uid d \<in> U \<and> own_deck tu (ODeck d)) ds'"
  shows "step_result t U tu s0 (seq (save_event_deck now t d) (\<lambda>bd. return (ds', [bd])) s)"
proof -
  obtain bd s' where "save_event_deck now t d s = (Inr bd, s')" "batch_ok U tu s0 ds s'" "deck_broadcast t U bd"
    by (rule save_in_batch [OF ok d])
  then show ?thesis using batch_ok_list [OF _ ds'] by (auto simp: step_result_def seq_def)
qed

lemma set_deck_ok:
  "list_all (\<lambda>d. uid d \<in> U \<and> own_deck tu (ODeck d)) ds \<Longrightarrow> uid d \<in> U \<Longrightarrow> own_deck tu (ODeck d) \<Longrightarrow>
   list_all (\<lambda>d. uid d \<in> U \<and> own_deck tu (ODeck d)) (set_deck d ds)"
  by (auto simp: set_deck_def list_all_iff)

lemma found_in: "find p ds = Some d \<Longrightarrow> d \<in> set ds"
  by (metis find_Some_iff nth_mem)

lemma update_target_ok:
  assumes ok: "batch_ok U tu s0 ds s"
    and keep: "\<And>d. uid (f d) = uid d \<and> d_tournament_uid (f d) = d_tournament_uid d \<and> d_views (f d) = d_views d"
  shows "step_result t U tu s0 (update_target now t u f ds s)"
proof (cases "find (\<lambda>d. uid d = u) ds")
  case None
  then show ?thesis using ok by (simp add: update_target_def step_result_def)
next
  case (Some d)
  have ds: "list_all (\<lambda>d. uid d \<in> U \<and> own_deck tu (ODeck d)) ds" using ok by (simp add: batch_ok_def)
  then have "uid d \<in> U \<and> own_deck tu (ODeck d)" using found_in [OF Some] by (simp add: list_all_iff)
  then have d': "uid ((f d)\<lparr>modified := now\<rparr>) \<in> U" "own_deck tu (ODeck ((f d)\<lparr>modified := now\<rparr>))"
    using keep [of d] by (simp_all add: own_deck_def views_once_def)
  show ?thesis unfolding update_target_def Some option.case Let_def
    by (rule save_one_result [OF ok d' set_deck_ok [OF ds d']])
qed

lemma uploaded_own:
  "uid (uploaded now x d) = uid d" "own_deck tu (ODeck (uploaded now x d)) = own_deck tu (ODeck d)"
  by (simp_all add: uploaded_def own_deck_def views_once_def)

lemma upsert_ok:
  assumes ok: "batch_ok U tu s0 ds s" and "mint \<in> U"
  shows "step_result t U tu s0 (upsert_deck now mint t tu player x ds s)"
proof -
  have ds: "list_all (\<lambda>d. uid d \<in> U \<and> own_deck tu (ODeck d)) ds" using ok by (simp add: batch_ok_def)
  show ?thesis
  proof (cases "find (\<lambda>d. d_user_uid d = player \<and> d_round d = dd_round x) ds")
    case None
    have new: "uid (uploaded now x (new_deck mint now tu player)) \<in> U" "own_deck tu (ODeck (uploaded now x (new_deck mint now tu player)))"
      using assms(2) by (simp_all only: uploaded_own) (simp_all add: new_deck_def own_deck_def views_once_def)
    show ?thesis unfolding upsert_deck_def None option.case by (rule save_one_result [OF ok new ds])
  next
    case (Some d)
    have "uid d \<in> U \<and> own_deck tu (ODeck d)" using ds found_in [OF Some] by (simp add: list_all_iff)
    then have d': "uid (uploaded now x d) \<in> U" "own_deck tu (ODeck (uploaded now x d))" by (simp_all add: uploaded_own)
    show ?thesis unfolding upsert_deck_def Some option.case Let_def
      by (rule save_one_result [OF ok d' set_deck_ok [OF ds d']])
  qed
qed

lemma save_many_ok:
  "batch_ok U tu s0 ds s \<Longrightarrow> list_all (\<lambda>d. uid (g d) \<in> U \<and> own_deck tu (ODeck (g d))) es \<Longrightarrow>
   \<exists>bds s'. for_each (\<lambda>d. save_event_deck now t (g d)) es s = (Inr bds, s') \<and> batch_ok U tu s0 ds s' \<and> list_all (deck_broadcast t U) bds"
proof (induction es arbitrary: s)
  case (Cons e es)
  obtain bd s1 where s1: "save_event_deck now t (g e) s = (Inr bd, s1)" "batch_ok U tu s0 ds s1" "deck_broadcast t U bd"
    by (rule save_in_batch [OF Cons.prems(1), of "g e"]) (use Cons.prems(2) in auto)
  obtain bds s2 where "for_each (\<lambda>d. save_event_deck now t (g d)) es s1 = (Inr bds, s2)" "batch_ok U tu s0 ds s2" "list_all (deck_broadcast t U) bds"
    using Cons.IH [OF s1(2)] Cons.prems(2) by auto
  then show ?case using s1 by (simp add: seq_def)
qed simp

lemma delete_ok:
  assumes ok: "batch_ok U tu s0 ds s"
  shows "step_result t U tu s0 (delete_decks now t player i multi ds s)"
proof -
  have ds: "list_all (\<lambda>d. uid d \<in> U \<and> own_deck tu (ODeck d)) ds" using ok by (simp add: batch_ok_def)
  have gone: "uid (buried_deck now d) = uid d" "own_deck tu (ODeck (buried_deck now d)) = own_deck tu (ODeck d)" for d
    by (simp_all add: buried_deck_def own_deck_def views_once_def)
  have "list_all (\<lambda>d. uid (buried_deck now d) \<in> U \<and> own_deck tu (ODeck (buried_deck now d))) (filter (deck_hit player i multi) ds)"
    using ds by (simp add: gone list_all_iff)
  from save_many_ok [OF ok this, of now t] obtain bds s' where
    s': "for_each (\<lambda>d. save_event_deck now t (buried_deck now d)) (filter (deck_hit player i multi) ds) s = (Inr bds, s')" "batch_ok U tu s0 ds s'"
    "list_all (deck_broadcast t U) bds" by blast
  have "list_all (\<lambda>d. uid d \<in> U \<and> own_deck tu (ODeck d)) (map (\<lambda>d. if deck_hit player i multi d then buried_deck now d else d) ds)"
    using ds by (auto simp: gone list_all_iff)
  note left = batch_ok_list [OF s'(2) this]
  have "delete_decks now t player i multi ds s = (Inr (map (\<lambda>d. if deck_hit player i multi d then buried_deck now d else d) ds, bds), s')"
    using s'(1) by (simp add: delete_decks_def seq_def)
  then show ?thesis using left s'(3) by (simp add: step_result_def)
qed

lemma log_view_ok:
  assumes ok: "batch_ok U tu s0 ds s" and U: "\<forall>w d. read_object s0 w = Some (ODeck d) \<and> d_tournament_uid d = tu \<and> deleted_at d = None \<longrightarrow> w \<in> U"
  shows "step_result t U tu s0 (seq (log_view now t tu u viewer r) (\<lambda>bds. return (ds, bds)) s)"
proof -
  have rows: "rows_ok s" and ds: "list_all (\<lambda>d. uid d \<in> U \<and> own_deck tu (ODeck d)) ds" using ok by (simp_all add: batch_ok_def)
  show ?thesis
  proof (cases "find (\<lambda>d. uid d = u) (get_decks_for_tournament s tu)")
    case None
    then show ?thesis using ok by (simp add: log_view_def step_result_def seq_def)
  next
    case (Some d)
    then have d: "read_object s (uid d) = Some (ODeck d)" "d_tournament_uid d = tu" "deleted_at d = None"
      using found_in [OF Some] event_decks(1) [OF rows] by auto
    have "uid d \<in> U"
    proof (rule ccontr)
      assume "uid d \<notin> U"
      then have "read_object s0 (uid d) = Some (ODeck d)" using ok d(1) by (simp add: batch_ok_def read_object_def)
      then show False using U d(2,3) \<open>uid d \<notin> U\<close> by blast
    qed
    then have own: "own_deck tu (ODeck d)" using ok d(1) by (simp add: batch_ok_def)
    show ?thesis
    proof (cases "list_all (\<lambda>v. dv_user_uid v \<noteq> viewer) (d_views d)")
      case True
      define d' where "d' = d\<lparr>d_views := d_views d @ [\<lparr>dv_user_uid = viewer, dv_round = r\<rparr>], modified := now\<rparr>"
      have "uid d' \<in> U" "own_deck tu (ODeck d')"
        using True own \<open>uid d \<in> U\<close> by (auto simp: d'_def own_deck_def views_once_def list_all_iff)
      then obtain bd s' where "save_event_deck now t d' s = (Inr bd, s')" "batch_ok U tu s0 ds s'" "deck_broadcast t U bd"
        by (rule save_in_batch [OF ok])
      then show ?thesis using True by (simp add: log_view_def Some step_result_def seq_def d'_def)
    next
      case False
      then show ?thesis using ok by (simp add: log_view_def Some step_result_def seq_def)
    qed
  qed
qed

lemma deck_op_ok:
  assumes ok: "batch_ok U tu s0 ds s" and "mint \<in> U"
    and U: "\<forall>w d. read_object s0 w = Some (ODeck d) \<and> d_tournament_uid d = tu \<and> deleted_at d = None \<longrightarrow> w \<in> U"
  shows "step_result t U tu s0 (deck_op_step now mint t tu op ds s)"
proof (cases op)
  case (LogView u viewer r)
  then show ?thesis using log_view_ok [OF ok U] by simp
qed (simp_all add: upsert_ok [OF assms(1,2)] delete_ok [OF ok] update_target_ok [OF ok])

lemma deck_loop_ok:
  "batch_ok U tu s0 ds s \<Longrightarrow> \<forall>k. n \<le> k \<and> k < n + length ops \<longrightarrow> mint k \<in> U \<Longrightarrow>
   \<forall>w d. read_object s0 w = Some (ODeck d) \<and> d_tournament_uid d = tu \<and> deleted_at d = None \<longrightarrow> w \<in> U \<Longrightarrow>
   \<exists>bds s'. deck_ops_loop now mint t tu n ops ds s = (Inr bds, s') \<and> (\<exists>ds'. batch_ok U tu s0 ds' s') \<and> list_all (deck_broadcast t U) bds"
proof (induction ops arbitrary: n ds s)
  case (Cons op ops)
  have "mint n \<in> U" using Cons.prems(2) by auto
  from deck_op_ok [OF Cons.prems(1) this Cons.prems(3), of t now op] obtain ds1 bds1 s1 where
    s1: "deck_op_step now (mint n) t tu op ds s = (Inr (ds1, bds1), s1)" "batch_ok U tu s0 ds1 s1" "list_all (deck_broadcast t U) bds1"
    by (auto simp: step_result_def)
  obtain bds2 s2 where s2: "deck_ops_loop now mint t tu (Suc n) ops ds1 s1 = (Inr bds2, s2)" "\<exists>ds'. batch_ok U tu s0 ds' s2"
    "list_all (deck_broadcast t U) bds2"
    using Cons.IH [OF s1(2) _ Cons.prems(3), of "Suc n"] Cons.prems(2) by auto
  then show ?case using s1 by (simp add: seq_def)
qed auto

text \<open>C25: Whatever batch of operations comes back from the engine, applying it never fails and stays
  with the event: only its own decks and newly minted rows change, a view is logged at most once a
  viewer, and each broadcast is of such a deck and names no organizer when the deck is private and
  the event finished.\<close>

theorem deck_batch_stays_with_event:
  fixes mint :: "nat \<Rightarrow> uid"
  defines "U s tu ops \<equiv> uid ` set (get_decks_for_tournament s tu) \<union> mint ` {..<length ops}"
  assumes "rows_ok s" and fresh: "\<forall>n < length ops. mint n \<notin> key_set (db_objects s)"
    and views: "list_all views_once (get_decks_for_tournament s tu)"
  shows "\<exists>bds s'. process_deck_ops now mint ops tu t s = (Inr bds, s') \<and> rows_ok s'
     \<and> (\<forall>w. w \<notin> U s tu ops \<longrightarrow> map_of (db_objects s') w = map_of (db_objects s) w)
     \<and> list_all views_once (get_decks_for_tournament s' tu) \<and> list_all (deck_broadcast t (U s tu ops)) bds"
proof -
  let ?ds = "get_decks_for_tournament s tu" and ?U = "U s tu ops"
  note ev = event_decks(1) [OF assms(2)]
  have own: "own_deck tu x" if w: "w \<in> ?U" and x: "read_object s w = Some x" for w x
  proof -
    have "w \<notin> mint ` {..<length ops}"
      using fresh x by (auto simp: read_object_def key_set_map_of)
    then obtain d where d: "d \<in> set ?ds" "uid d = w" using w by (auto simp: assms(1))
    then have "x = ODeck d" "d_tournament_uid d = tu" using x ev by auto
    then show ?thesis using views d(1) by (simp add: own_deck_def list_all_iff)
  qed
  have start: "batch_ok ?U tu s ?ds s"
    unfolding batch_ok_def using own assms(2) views ev by (auto simp: list_all_iff own_deck_def assms(1))
  have live: "\<forall>w d. read_object s w = Some (ODeck d) \<and> d_tournament_uid d = tu \<and> deleted_at d = None \<longrightarrow> w \<in> ?U"
  proof (intro allI impI)
    fix w d assume d: "read_object s w = Some (ODeck d) \<and> d_tournament_uid d = tu \<and> deleted_at d = None"
    then have "uid d = w" using stored_object(1) [OF assms(2)] by fastforce
    then have "d \<in> set ?ds" using d ev by simp
    then show "w \<in> ?U" using \<open>uid d = w\<close> by (auto simp: assms(1))
  qed
  have minted: "\<forall>k. 0 \<le> k \<and> k < 0 + length ops \<longrightarrow> mint k \<in> ?U" by (simp add: assms(1))
  from deck_loop_ok [OF start minted live, of now t] obtain bds s' ds' where
    s': "deck_ops_loop now mint t tu 0 ops ?ds s = (Inr bds, s')" "batch_ok ?U tu s ds' s'" "list_all (deck_broadcast t ?U) bds"
    by blast
  have run: "process_deck_ops now mint ops tu t s = (Inr bds, s')"
    using s'(1) by (cases ops) (simp_all add: process_deck_ops_def seq_def)
  have rows: "rows_ok s'" and frame: "\<forall>w. w \<notin> ?U \<longrightarrow> map_of (db_objects s') w = map_of (db_objects s) w"
    using s'(2) by (simp_all add: batch_ok_def)
  have "views_once d" if "d \<in> set (get_decks_for_tournament s' tu)" for d
  proof -
    have d: "read_object s' (uid d) = Some (ODeck d)" "d_tournament_uid d = tu" "deleted_at d = None"
      using that event_decks(1) [OF rows] by auto
    show ?thesis
    proof (cases "uid d \<in> ?U")
      case True
      then show ?thesis using s'(2) d(1) by (auto simp: batch_ok_def own_deck_def)
    next
      case False
      then have "read_object s (uid d) = Some (ODeck d)" using frame d(1) by (simp add: read_object_def)
      then show ?thesis using live d False by blast
    qed
  qed
  then show ?thesis using run rows frame s'(3) by (auto simp: list_all_iff)
qed

section \<open>The laws at work\<close>

definition sample_round :: tournament where
  "sample_round = (new_tournament ''t'' (Instant 2026 1 1 0) ''Sample'' ''CODE'')\<lparr>t_multideck := True,
     t_rounds := [[new_table [new_seat ''u'' (new_score 0 0 0)]]]\<rparr>"

definition sample_deck :: deck where
  "sample_deck = new_deck ''d'' (Instant 2026 1 1 0) ''t'' ''u''"

lemma sample_deck_simps: "uid sample_deck = ''d''" "d_tournament_uid sample_deck = ''t''" "deleted_at sample_deck = None"
    "d_user_uid sample_deck = ''u''" "d_round sample_deck = None" "views_once sample_deck" "d_winner sample_deck = False"
  by (simp_all add: sample_deck_def new_deck_def views_once_def)

lemma sample_round_simps: "set (seated_in_round sample_round 0) = {''u''}" "t_multideck sample_round"
    "t_winner sample_round = []"
  by (simp_all add: sample_round_def new_tournament_def seated_in_round_def new_table_def new_seat_def)

lemma sample_deck_table:
  obtains s where "rows_ok s" "set (get_decks_for_tournament s ''t'') = {sample_deck}" "key_set (db_objects s) = {''d''}"
proof -
  obtain bd s where s: "save_object_from_model (Instant 2026 1 1 0) (ODeck sample_deck) empty_db = Inr (bd, s)"
      "read_object s = (read_object empty_db)(''d'' \<mapsto> ODeck sample_deck)" "rows_ok s"
    by (rule save_plain [of "ODeck sample_deck" "Instant 2026 1 1 0" empty_db])
      (use empty_db_ok in \<open>auto simp: db_ok_def sample_deck_simps\<close>)
  then have save: "save_object (Instant 2026 1 1 0) (ODeck sample_deck) None empty_db = Inr (bd, s)"
    by (simp add: save_object_from_model_def sample_deck_simps)
  have "key_set (db_objects s) = {''d''}" by (rule save_object_Inr [OF save]) (simp add: empty_db_def sample_deck_simps)
  moreover have "x \<in> set (get_decks_for_tournament s ''t'') \<longleftrightarrow> x = sample_deck" for x
    by (auto simp: event_decks(1) [OF s(3)] s(2) sample_deck_simps read_object_def empty_db_def split: if_splits)
  then have "set (get_decks_for_tournament s ''t'') = {sample_deck}" by blast
  ultimately show thesis using that [of s] s(3) by blast
qed

theorem stamping_binds_one_deck_witness:
  "\<exists>s bds s'. set (get_decks_for_tournament s ''t'') = {sample_deck}
     \<and> process_deck_ops (Instant 2026 1 2 0) (\<lambda>_. ''m'') (stamp_round_decks sample_round (build_decks_json s ''t'') 0) ''t'' sample_round s
        = (Inr bds, s')
     \<and> (\<exists>e \<in> set (get_decks_for_tournament s' ''t''). d_user_uid e = ''u'' \<and> d_round e = Some 0)"
proof -
  obtain s where s: "rows_ok s" "set (get_decks_for_tournament s ''t'') = {sample_deck}" by (rule sample_deck_table)
  have "one_deck_a_round s ''t''" by (simp add: one_deck_a_round_def s(2))
  from stamping_binds_one_deck [OF s(1) this, where now = "Instant 2026 1 2 0" and mint = "\<lambda>_. ''m''" and t = sample_round and i = 0]
  show ?thesis by (simp add: s(2) sample_deck_simps sample_round_simps) (use s(2) in blast)
qed

theorem publication_settles_witness:
  "\<exists>s bds s'. set (get_decks_for_tournament s ''t'') = {sample_deck}
     \<and> process_deck_ops (Instant 2026 1 2 0) (\<lambda>_. ''m'')
         (recompute_deck_publication sample_round (build_decks_json s ''t'') [SetPrivate ''d'' True]) ''t'' sample_round s = (Inr bds, s')
     \<and> rows_ok s'"
proof -
  obtain s where s: "rows_ok s" "set (get_decks_for_tournament s ''t'') = {sample_deck}" by (rule sample_deck_table)
  have "list_all (\<lambda>d. d_user_uid d \<noteq> [] \<and> uid d \<noteq> []) (get_decks_for_tournament s ''t'')"
    using s(2) by (simp add: list_all_iff sample_deck_simps)
  from publication_settles [OF s(1) _ this, where ops = "[SetPrivate ''d'' True]" and now = "Instant 2026 1 2 0"
      and mint = "\<lambda>_. ''m''" and t = sample_round]
  show ?thesis using s(2) by auto
qed

theorem soft_delete_buries_witness:
  "\<exists>s. set (get_decks_for_tournament s ''t'') = {sample_deck} \<and> snd (soft_delete_tournament (Instant 2026 1 2 0) ''x'' s) = s"
proof -
  obtain s where s: "rows_ok s" "set (get_decks_for_tournament s ''t'') = {sample_deck}" "key_set (db_objects s) = {''d''}"
    by (rule sample_deck_table)
  have "''x'' \<notin> key_set (db_objects s)" using s(3) by simp
  then have "get_tournament_by_uid s ''x'' = None"
    by (simp add: get_tournament_by_uid_def get_object_full_def map_of_None_keys [THEN iffD2])
  then have "snd (soft_delete_tournament (Instant 2026 1 2 0) ''x'' s) = s"
    using soft_delete_buries [OF s(1), where now = "Instant 2026 1 2 0" and u = "''x''"] by (auto split: prod.splits sum.splits option.splits)
  then show ?thesis using s(2) by blast
qed

theorem deck_batch_stays_with_event_witness:
  "\<exists>s bds s'. set (get_decks_for_tournament s ''t'') = {sample_deck}
     \<and> process_deck_ops (Instant 2026 1 2 0) (\<lambda>_. ''m'') [LogView ''d'' ''j'' 0, Delete ''u'' None False] ''t'' sample_round s = (Inr bds, s')
     \<and> rows_ok s'"
proof -
  obtain s where s: "rows_ok s" "set (get_decks_for_tournament s ''t'') = {sample_deck}" "key_set (db_objects s) = {''d''}"
    by (rule sample_deck_table)
  have fresh: "\<forall>n < length [LogView ''d'' ''j'' 0, Delete ''u'' None False]. (\<lambda>_. ''m'') n \<notin> key_set (db_objects s)"
    using s(3) by simp
  have "list_all views_once (get_decks_for_tournament s ''t'')" using s(2) by (simp add: list_all_iff sample_deck_simps)
  from deck_batch_stays_with_event [OF s(1) fresh this, where now = "Instant 2026 1 2 0" and t = sample_round]
  show ?thesis using s(2) by blast
qed

end
