(* ===== verification/Accounts_Laws.thy ===== *)
theory Accounts_Laws
  imports Accounts Decks_Laws
begin

text \<open>
  What account surgery promises: an anonymised member leaves no trace, a merge moves everything that
  is keyed to the account that goes, a detach splits one member into two.
\<close>

section \<open>Linked roles\<close>

lemma top_level_bounds:
  assumes "\<And>r. 0 \<le> lv r \<and> lv r \<le> n"
  shows "0 \<le> top_level lv rs \<and> top_level lv rs \<le> n"
proof -
  have "0 \<le> a \<and> a \<le> n \<Longrightarrow> 0 \<le> fold max (map lv rs) a \<and> fold max (map lv rs) a \<le> n" for a
    using assms by (induction rs arbitrary: a) auto
  then show ?thesis using assms [of IC] by (simp add: top_level_def)
qed

lemma top_level_least: "x \<le> top_level lv rs \<longleftrightarrow> x \<le> 0 \<or> list_ex (\<lambda>r. x \<le> lv r) rs"
proof -
  have "x \<le> fold max (map lv rs) a \<longleftrightarrow> x \<le> a \<or> list_ex (\<lambda>r. x \<le> lv r) rs" for a :: int
    by (induction rs arbitrary: a) (simp_all add: le_max_iff_disj disj_ac)
  then show ?thesis by (simp add: top_level_def)
qed

lemma level_bounds:
  "0 \<le> org_level r \<and> org_level r \<le> 4" "0 \<le> judge_level r \<and> judge_level r \<le> 3" "0 \<le> playtest_level r \<and> playtest_level r \<le> 2"
  "4 \<le> org_level r \<longleftrightarrow> r = IC" "3 \<le> judge_level r \<longleftrightarrow> r = RULEMONGER" "2 \<le> playtest_level r \<longleftrightarrow> r = PTC"
  "1 \<le> org_level r \<longleftrightarrow> r = PRINCE \<or> r = NC \<or> r = IC"
  by (cases r; simp)+

text \<open>The levels pushed to Discord stay within what was registered there, and each top level is
  reached by exactly the role it stands for: the organisation level is at most 4 and is 4 exactly for
  the Inner Circle, the judge level at most 3, exactly for a Rulemonger, the playtest level at most 2;
  level 0 is left exactly to those with no office and no VEKN id.\<close>

theorem linked_role_levels_bounded:
  "let m = build_metadata u in
     0 \<le> rm_organization m \<and> rm_organization m \<le> 4 \<and> 0 \<le> rm_judge m \<and> rm_judge m \<le> 3
   \<and> 0 \<le> rm_playtest m \<and> rm_playtest m \<le> 2
   \<and> (rm_organization m = 4 \<longleftrightarrow> IC \<in> set (u_roles u)) \<and> (rm_judge m = 3 \<longleftrightarrow> RULEMONGER \<in> set (u_roles u))
   \<and> (rm_playtest m = 2 \<longleftrightarrow> PTC \<in> set (u_roles u))
   \<and> (rm_organization m = 0 \<longleftrightarrow> \<not> truthy_str (u_vekn_id u) \<and> set (u_roles u) \<inter> {PRINCE, NC, IC} = {})"
proof -
  let ?rs = "u_roles u"
  have org: "0 \<le> top_level org_level ?rs \<and> top_level org_level ?rs \<le> 4" by (rule top_level_bounds) (rule level_bounds)
  have judge: "0 \<le> top_level judge_level ?rs \<and> top_level judge_level ?rs \<le> 3" by (rule top_level_bounds) (rule level_bounds)
  have play: "0 \<le> top_level playtest_level ?rs \<and> top_level playtest_level ?rs \<le> 2" by (rule top_level_bounds) (rule level_bounds)
  have tops: "4 \<le> top_level org_level ?rs \<longleftrightarrow> IC \<in> set ?rs" "3 \<le> top_level judge_level ?rs \<longleftrightarrow> RULEMONGER \<in> set ?rs"
    "2 \<le> top_level playtest_level ?rs \<longleftrightarrow> PTC \<in> set ?rs" "1 \<le> top_level org_level ?rs \<longleftrightarrow> set ?rs \<inter> {PRINCE, NC, IC} \<noteq> {}"
    by (auto simp: top_level_least level_bounds list_ex_iff)
  have "top_level org_level ?rs = 0 \<longleftrightarrow> set ?rs \<inter> {PRINCE, NC, IC} = {}" using org tops(4) by linarith
  moreover have "top_level org_level ?rs = 4 \<longleftrightarrow> IC \<in> set ?rs" using org tops(1) by linarith
  moreover have "top_level judge_level ?rs = 3 \<longleftrightarrow> RULEMONGER \<in> set ?rs" using judge tops(2) by linarith
  moreover have "top_level playtest_level ?rs = 2 \<longleftrightarrow> PTC \<in> set ?rs" using play tops(3) by linarith
  ultimately show ?thesis using org judge play by (auto simp: build_metadata_def Let_def)
qed

section \<open>Anonymising\<close>

lemma consents_dropped:
  "fold (\<lambda>c s. delete_oauth_consent u (oc_client_id c) (revoke_oauth_tokens_for_user_client u (oc_client_id c) s)) cs s
   = s\<lparr>db_consents := filter (\<lambda>(_, x). \<not> (oc_user_uid x = u \<and> oc_client_id x \<in> oc_client_id ` set cs)) (db_consents s),
       db_tokens := map (\<lambda>x. if ot_user_uid x = u \<and> ot_client_id x \<in> oc_client_id ` set cs then x\<lparr>ot_revoked := True\<rparr> else x) (db_tokens s)\<rparr>"
proof (induction cs arbitrary: s)
  case (Cons c cs)
  have "map (\<lambda>x. if ot_user_uid x = u \<and> ot_client_id x \<in> oc_client_id ` set cs then x\<lparr>ot_revoked := True\<rparr> else x)
      (map (\<lambda>x. if ot_user_uid x = u \<and> ot_client_id x = oc_client_id c then x\<lparr>ot_revoked := True\<rparr> else x) ts)
    = map (\<lambda>x. if ot_user_uid x = u \<and> ot_client_id x \<in> oc_client_id ` set (c # cs) then x\<lparr>ot_revoked := True\<rparr> else x) ts"
    for ts :: "oauth_token list" by auto
  moreover have "filter (\<lambda>(_, x). \<not> (oc_user_uid x = u \<and> oc_client_id x \<in> oc_client_id ` set cs))
      (filter (\<lambda>(_, x). \<not> (oc_user_uid x = u \<and> oc_client_id x = oc_client_id c)) xs)
    = filter (\<lambda>(_, x). \<not> (oc_user_uid x = u \<and> oc_client_id x \<in> oc_client_id ` set (c # cs))) xs"
    for xs :: "(uid \<times> oauth_consent) list" by (auto intro!: filter_cong)
  ultimately show ?case
    unfolding fold_simps comp_def Cons.IH by (simp add: delete_oauth_consent_def revoke_oauth_tokens_for_user_client_def)
qed (simp add: filter_True)

definition cleared :: "uid \<Rightarrow> db \<Rightarrow> db" where
  "cleared u s = clear_owner_columns u (snd (delete_avatar u (delete_transient_token (rc_key u) (drop_consents u (drop_logins u s)))))"

text \<open>What the side tables hold once a member is cleared\<close>

definition no_trace :: "db \<Rightarrow> uid \<Rightarrow> db \<Rightarrow> bool" where
  "no_trace s0 u s \<longleftrightarrow> list_all (\<lambda>(_, a). am_user_uid a \<noteq> u) (db_auth s) \<and> list_all (\<lambda>(_, x). ps_user_uid x \<noteq> u) (db_push s)
     \<and> get_oauth_consents_by_user s u = []
     \<and> list_all (\<lambda>x. if ot_user_uid x = u \<and> ot_client_id x \<in> oc_client_id ` set (get_oauth_consents_by_user s0 u)
          then ot_revoked x else True) (db_tokens s)
     \<and> map_of (db_transient s) (rc_key u) = None \<and> map_of (db_avatars s) u = None
     \<and> get_calendar_token s u = None \<and> get_agenda s u = ([], [])"

lemma consents_by_user: "set (get_oauth_consents_by_user s u) = {c \<in> snd ` set (db_consents s). oc_user_uid c = u}"
  by (simp add: get_oauth_consents_by_user_def)

lemma owner_reads:
  "get_calendar_token s u = Option.bind (owner_of s u) fst"
  "get_agenda s u = (case owner_of s u of None \<Rightarrow> ([], []) | Some (_, h, a) \<Rightarrow> (opt_list h, opt_list a))"
  by (cases "map_of (db_objects s) u"; simp add: get_calendar_token_def get_agenda_def owner_of_def row_owner_def)+

lemma cleared_owner: "owner_of (cleared u s) u = map_option (\<lambda>_. (None, None, None)) (owner_of s u)"
proof -
  have "owner_of (clear_owner_columns u s') u = map_option (\<lambda>_. (None, None, None)) (owner_of s' u)" for s'
    by (cases "map_of (db_objects s') u") (simp_all add: owner_of_def clear_owner_columns_def map_of_update_row row_owner_def)
  moreover have "owner_of (snd (delete_avatar u (delete_transient_token (rc_key u) (drop_consents u (drop_logins u s))))) = owner_of s"
    by (rule ext) (simp add: owner_of_def delete_avatar_def delete_transient_token_def drop_consents_def consents_dropped drop_logins_def)
  ultimately show ?thesis by (simp add: cleared_def)
qed

lemma cleared_rest:
  "db_auth (cleared u s) = filter (\<lambda>(_, a). am_user_uid a \<noteq> u) (db_auth s)"
  "db_push (cleared u s) = filter (\<lambda>(_, x). ps_user_uid x \<noteq> u) (db_push s)"
  "db_transient (cleared u s) = del (rc_key u) (db_transient s)" "db_avatars (cleared u s) = del u (db_avatars s)"
  "db_consents (cleared u s) = filter (\<lambda>(_, x). oc_user_uid x \<noteq> u) (db_consents s)"
  "db_tokens (cleared u s) = map (\<lambda>x. if ot_user_uid x = u \<and> ot_client_id x \<in> oc_client_id ` set (get_oauth_consents_by_user s u)
      then x\<lparr>ot_revoked := True\<rparr> else x) (db_tokens s)"
proof -
  have same: "get_oauth_consents_by_user (drop_logins u s) u = get_oauth_consents_by_user s u"
    by (simp add: get_oauth_consents_by_user_def drop_logins_def)
  show "db_auth (cleared u s) = filter (\<lambda>(_, a). am_user_uid a \<noteq> u) (db_auth s)"
    "db_push (cleared u s) = filter (\<lambda>(_, x). ps_user_uid x \<noteq> u) (db_push s)"
    "db_transient (cleared u s) = del (rc_key u) (db_transient s)" "db_avatars (cleared u s) = del u (db_avatars s)"
    "db_tokens (cleared u s) = map (\<lambda>x. if ot_user_uid x = u \<and> ot_client_id x \<in> oc_client_id ` set (get_oauth_consents_by_user s u)
      then x\<lparr>ot_revoked := True\<rparr> else x) (db_tokens s)"
    by (simp_all add: cleared_def clear_owner_columns_def update_row_def delete_avatar_def delete_transient_token_def
        drop_consents_def consents_dropped same) (simp_all add: drop_logins_def)
  have "db_consents (cleared u s) = filter (\<lambda>(_, x). \<not> (oc_user_uid x = u \<and> oc_client_id x \<in> oc_client_id ` set (get_oauth_consents_by_user s u))) (db_consents s)"
    by (simp add: cleared_def clear_owner_columns_def update_row_def delete_avatar_def delete_transient_token_def
        drop_consents_def consents_dropped same) (simp add: drop_logins_def)
  also have "\<dots> = filter (\<lambda>(_, x). oc_user_uid x \<noteq> u) (db_consents s)"
    by (rule filter_cong) (force simp: consents_by_user)+
  finally show "db_consents (cleared u s) = filter (\<lambda>(_, x). oc_user_uid x \<noteq> u) (db_consents s)" .
qed

lemma cleared_objects: "rows_ok s \<Longrightarrow> rows_ok (cleared u s)" "read_object (cleared u s) = read_object s"
proof -
  let ?s = "snd (delete_avatar u (delete_transient_token (rc_key u) (drop_consents u (drop_logins u s))))"
  have objs: "db_objects ?s = db_objects s"
    by (simp add: delete_avatar_def delete_transient_token_def drop_consents_def consents_dropped drop_logins_def)
  show "read_object (cleared u s) = read_object s"
    by (rule ext) (simp add: read_object_def cleared_def clear_owner_columns_def map_of_update_row objs option.map_comp comp_def)
  assume "rows_ok s"
  then have "rows_ok ?s" unfolding rows_ok_def index_of_def objs .
  then show "rows_ok (cleared u s)"
    unfolding cleared_def clear_owner_columns_def by (rule update_row_ok) (simp_all add: row_ok_def)
qed

lemma revoked_marked:
  "(\<And>x. P (x\<lparr>ot_revoked := True\<rparr>) = P x) \<Longrightarrow>
   list_all (\<lambda>x. if P x then ot_revoked x else True) (map (\<lambda>x. if P x then x\<lparr>ot_revoked := True\<rparr> else x) ts)"
  by (induction ts) simp_all

lemma no_trace_cleared:
  assumes "same_rest (cleared u s0) s" and "owner_of s u = owner_of (cleared u s0) u"
  shows "no_trace s0 u s"
  unfolding no_trace_def
proof (intro conjI)
  note tables = same_rest_tables [OF assms(1)]
  show "list_all (\<lambda>(_, a). am_user_uid a \<noteq> u) (db_auth s)" by (simp add: tables cleared_rest list_all_iff case_prod_beta)
  show "list_all (\<lambda>(_, x). ps_user_uid x \<noteq> u) (db_push s)" by (simp add: tables cleared_rest list_all_iff case_prod_beta)
  have "set (get_oauth_consents_by_user s u) = {}" unfolding consents_by_user tables cleared_rest by auto
  then show "get_oauth_consents_by_user s u = []" by simp
  show "list_all (\<lambda>x. if ot_user_uid x = u \<and> ot_client_id x \<in> oc_client_id ` set (get_oauth_consents_by_user s0 u)
      then ot_revoked x else True) (db_tokens s)"
    unfolding tables cleared_rest by (rule revoked_marked) simp
  show "map_of (db_transient s) (rc_key u) = None" "map_of (db_avatars s) u = None" by (simp_all add: tables cleared_rest)
  show "get_calendar_token s u = None" "get_agenda s u = ([], [])"
    by (cases "owner_of s0 u"; simp add: owner_reads assms(2) cleared_owner opt_list_def)+
qed

section \<open>Scrubbing the copies\<close>

definition scrub_upd :: "instant \<Rightarrow> uid \<Rightarrow> obj \<Rightarrow> obj option" where
  "scrub_upd now u x = (case x of
     OTournament t \<Rightarrow> if fst (scrub [u] t) then Some (OTournament ((snd (scrub [u] t))\<lparr>modified := now\<rparr>)) else None
   | _ \<Rightarrow> None)"

lemma scrub_upd_keeps: "keeps_object (scrub_upd now u)"
  by (auto simp: keeps_object_def scrub_upd_def scrub_def Let_def split: obj.splits if_splits)

text \<open>No copy of the member's name\<close>

definition names_gone :: "uid \<Rightarrow> tournament \<Rightarrow> bool" where
  "names_gone u t \<longleftrightarrow> list_all (\<lambda>p. pl_user_uid p \<noteq> Some u \<or> \<not> truthy_str (pl_display_name p)) (t_players t)
     \<and> list_all (\<lambda>a. an_author_uid a \<noteq> u \<or> an_author_name a = ANONYMIZED_NAME) (t_announcements t)"

lemma scrubbed: "names_gone u (snd (scrub [u] t))" "fst (scrub [u] t) \<or> names_gone u t"
proof -
  have p: "pl_user_uid (scrub_player [u] p) \<noteq> Some u \<or> \<not> truthy_str (pl_display_name (scrub_player [u] p))" for p
    by (auto simp: scrub_player_def)
  have a: "an_author_uid (scrub_announcement [u] a) \<noteq> u \<or> an_author_name (scrub_announcement [u] a) = ANONYMIZED_NAME" for a
    by (auto simp: scrub_announcement_def)
  show all: "names_gone u (snd (scrub [u] t))"
    unfolding names_gone_def scrub_def Let_def using p a by (auto simp: list_all_iff)
  have "snd (scrub [u] t) = t" if "\<not> fst (scrub [u] t)" using that by (simp add: scrub_def Let_def)
  then show "fst (scrub [u] t) \<or> names_gone u t" using all by metis
qed

lemma scrub_marks: "fst (scrub [u] t) \<Longrightarrow> list_ex (\<lambda>p. pl_user_uid p = Some u) (t_players t) \<or> list_ex (\<lambda>a. an_author_uid a = u) (t_announcements t)"
proof (rule ccontr)
  assume "fst (scrub [u] t)" and none: "\<not> (list_ex (\<lambda>p. pl_user_uid p = Some u) (t_players t) \<or> list_ex (\<lambda>a. an_author_uid a = u) (t_announcements t))"
  have "scrub_player [u] p = p" if "p \<in> set (t_players t)" for p
    using none that by (auto simp: scrub_player_def list_ex_iff split: option.split)
  moreover have "scrub_announcement [u] a = a" if "a \<in> set (t_announcements t)" for a
    using none that by (auto simp: scrub_announcement_def list_ex_iff)
  ultimately show False using \<open>fst (scrub [u] t)\<close> by (simp add: scrub_def Let_def map_idI)
qed

lemma scrub_copy_pass:
  assumes ok: "passed_objects (scrub_upd now u) seen s0 s" and "rows_ok s0" and new: "tu \<notin> seen"
  shows "\<exists>out s'. transaction (scrub_copy now u tu) s = (Inr out, s') \<and> passed_objects (scrub_upd now u) (insert tu seen) s0 s'"
proof -
  have here: "read_object s tu = read_object s0 tu" by (rule pass_here [OF ok new])
  have get: "get_tournament_by_uid s tu = Option.bind (read_object s0 tu) as_tournament"
    by (simp add: get_tournament_by_uid_def get_object_full_read here)
  show ?thesis
  proof (cases "Option.bind (read_object s0 tu) (scrub_upd now u)")
    case None
    have "transaction (scrub_copy now u tu) s = (Inr [], s)"
    proof (cases "get_tournament_by_uid s tu")
      case (Some t)
      then have "read_object s0 tu = Some (OTournament t)" by (auto simp: get as_tournament_Some split: Option.bind_splits)
      then have "\<not> fst (scrub [u] t)" using None by (simp add: scrub_upd_def split: if_splits)
      then show ?thesis by (cases "scrub [u] t") (simp add: transaction_def scrub_copy_def seq_def Some)
    qed (simp add: transaction_def scrub_copy_def seq_def)
    then show ?thesis using pass_skip [OF ok None] by blast
  next
    case (Some y)
    then obtain t where t: "read_object s0 tu = Some (OTournament t)" "fst (scrub [u] t)" "y = OTournament ((snd (scrub [u] t))\<lparr>modified := now\<rparr>)"
      by (auto simp: scrub_upd_def split: Option.bind_splits obj.splits if_splits)
    obtain bd s' where "save_object now y None s = Inr (bd, s')" "passed_objects (scrub_upd now u) (insert tu seen) s0 s'"
      by (rule pass_save [OF ok scrub_upd_keeps assms(2) new Some])
    then show ?thesis using t by (cases "scrub [u] t") (simp add: transaction_def scrub_copy_def seq_def get atomic_def)
  qed
qed

lemma scrub_copies_run:
  assumes "rows_ok s"
  obtains bds s' where "scrub_tournament_copies now u s = (Inr bds, s')" "passed_objects (scrub_upd now u) (set (copies_uids s u)) s s'"
    "\<And>w. read_object s' w = map_option (touched (scrub_upd now u)) (read_object s w)"
proof -
  have dist: "distinct (map (\<lambda>w. w) (copies_uids s u))"
    using rows_ok_distinct [OF assms] by (simp add: copies_uids_def distinct_keys_def distinct_map_filter)
  have "\<exists>out s'. for_each (\<lambda>tu. transaction (scrub_copy now u tu)) (copies_uids s u) s = (Inr out, s')
      \<and> passed_objects (scrub_upd now u) ({} \<union> (\<lambda>w. w) ` set (copies_uids s u)) s s'"
    by (rule pass_over [where g = "\<lambda>s. s"]) (use dist passed_objects_start [OF assms] scrub_copy_pass [OF _ assms] in auto)
  then obtain out s' where s': "for_each (\<lambda>tu. transaction (scrub_copy now u tu)) (copies_uids s u) s = (Inr out, s')"
    "passed_objects (scrub_upd now u) (set (copies_uids s u)) s s'" by auto
  have reach: "w \<in> set (copies_uids s u)" if "read_object s w = Some x" "scrub_upd now u x \<noteq> None" for w x
  proof -
    from that(2) obtain t where t: "x = OTournament t" "fst (scrub [u] t)" by (auto simp: scrub_upd_def split: obj.splits if_splits)
    from that(1) t(1) obtain r where "map_of (db_objects s) w = Some r" "row_full r = OTournament t"
      by (auto simp: read_object_def)
    then show ?thesis using scrub_marks [OF t(2)] by (force simp: copies_uids_def dest: map_of_SomeD)
  qed
  show thesis
    by (rule that [OF _ s'(2) passed_all [OF s'(2) reach]]) (simp_all add: scrub_tournament_copies_def seq_def s'(1))
qed

lemma get_user_read: "get_user_by_uid s u = user_at s u"
  by (simp add: get_user_by_uid_def get_object_full_read user_at_def)

lemma no_owner_stored: "owner_columns (OUser v) = (None, None, None) \<Longrightarrow> as_stored (OUser v) = OUser v"
  by (cases v) (simp add: without_owner_columns_def)

definition owner_after :: "user \<Rightarrow> (string option \<times> uid list option \<times> uid list option) option
    \<Rightarrow> string option \<times> uid list option \<times> uid list option" where
  "owner_after v old = (case old of
     None \<Rightarrow> (u_calendar_token v, u_agenda_hidden v, u_agenda_added v)
   | Some (t, h, a) \<Rightarrow> (or_opt (u_calendar_token v) t, or_opt (u_agenda_hidden v) h, or_opt (u_agenda_added v) a))"

lemma user_saved_free:
  assumes "rows_ok s" and free: "\<not> index_conflict (OUser v) s"
  obtains bd s' where "save_user_prog now v s = (Inr bd, s')" "rows_ok s'" "bd_uid bd = uid v" "same_rest s s'"
    "read_object s' = (read_object s)(uid v \<mapsto> as_stored (OUser v))"
    "owner_of s' = (owner_of s)(uid v \<mapsto> owner_after v (owner_of s (uid v)))"
proof -
  obtain bd s' where save: "save_object now (OUser v) (deleted_at v) s = Inr (bd, s')"
    using save_object_total [of "OUser v" s now "deleted_at v"] free by auto
  show thesis
  proof (rule that)
    show "save_user_prog now v s = (Inr bd, s')"
      using save by (simp add: save_user_prog_def save_user_def save_object_from_model_def atomic_def)
    show "bd_uid bd = uid v" by (rule save_object_Inr [OF save]) simp
    show "read_object s' = (read_object s)(uid v \<mapsto> as_stored (OUser v))" using read_object_saved [OF save] by simp
    show "owner_of s' = (owner_of s)(uid v \<mapsto> owner_after v (owner_of s (uid v)))"
      by (rule save_object_Inr [OF save])
        (auto simp: owner_of_def row_owner_def upserted_row_def or_opt_def owner_after_def split: option.split)
  qed (use save_object_rows_ok [OF assms(1) save] same_rest_saved [OF save] in auto)
qed

lemma user_kept_free:
  assumes "rows_ok s" and "read_object s (uid v) = Some (OUser u)" and "u_vekn_id v = u_vekn_id u \<or> \<not> truthy_str (u_vekn_id v)"
  shows "\<not> index_conflict (OUser v) s"
proof (cases "truthy_str (u_vekn_id v)")
  case True
  then show ?thesis using assms by (intro object_update_free [OF assms(1), where x = "OUser u"]) simp_all
qed (simp add: index_conflict_def)

lemma user_saved:
  assumes "rows_ok s" and "read_object s (uid v) = Some (OUser u)" and "u_vekn_id v = u_vekn_id u \<or> \<not> truthy_str (u_vekn_id v)"
  obtains bd s' where "save_user_prog now v s = (Inr bd, s')" "rows_ok s'" "bd_uid bd = uid v" "same_rest s s'"
    "read_object s' = (read_object s)(uid v \<mapsto> as_stored (OUser v))"
    "owner_columns (OUser v) = (None, None, None) \<Longrightarrow> owner_of s' = owner_of s"
proof -
  obtain bd s' where s': "save_user_prog now v s = (Inr bd, s')" "rows_ok s'" "bd_uid bd = uid v" "same_rest s s'"
    "read_object s' = (read_object s)(uid v \<mapsto> as_stored (OUser v))"
    "owner_of s' = (owner_of s)(uid v \<mapsto> owner_after v (owner_of s (uid v)))"
    by (rule user_saved_free [OF assms(1) user_kept_free [OF assms]])
  obtain r where "map_of (db_objects s) (uid v) = Some r" using assms(2) by (auto simp: read_object_def)
  then have "owner_of s' = owner_of s" if "owner_columns (OUser v) = (None, None, None)"
    using that by (auto simp: s'(6) owner_of_def owner_after_def or_opt_def row_owner_def)
  then show thesis using s'(1-5) that by blast
qed

lemma anonymized_simps [simp]:
  "uid (anonymized now by u) = uid u" "u_vekn_id (anonymized now by u) = u_vekn_id u"
  "u_calendar_token (anonymized now by u) = u_calendar_token u" "u_agenda_hidden (anonymized now by u) = u_agenda_hidden u"
  "u_agenda_added (anonymized now by u) = u_agenda_added u"
  by (simp_all add: anonymized_def without_personal_fields_def)


text \<open>An event that was deleted, with the member among its players, comes back to life in its row:
  the scrub saves it without the deletion mark the row had, although the event still carries it.\<close>

definition deleted_event :: tournament where
  "deleted_event = (new_tournament ''t'' (Instant 2026 1 1 0) ''Sample'' ''CODE'')\<lparr>deleted_at := Some (Instant 2026 1 2 0),
     t_players := [(new_player (Some ''u''))\<lparr>pl_display_name := Some ''Ann''\<rparr>]\<rparr>"

theorem scrub_revives_deleted_event:
  "\<exists>bd s. save_object_from_model (Instant 2026 1 2 0) (OTournament deleted_event) empty_db = Inr (bd, s)
     \<and> map_option row_deleted_at (map_of (db_objects s) ''t'') = Some (Some (Instant 2026 1 2 0))
     \<and> map_option row_deleted_at (map_of (db_objects (snd (scrub_tournament_copies (Instant 2026 1 3 0) ''u'' s))) ''t'') = Some None"
proof -
  have fields: "uid deleted_event = ''t''" "deleted_at deleted_event = Some (Instant 2026 1 2 0)" "t_event_code deleted_event = []"
    "t_players deleted_event = [(new_player (Some ''u''))\<lparr>pl_display_name := Some ''Ann''\<rparr>]" "t_announcements deleted_event = []"
    by (simp_all add: deleted_event_def new_tournament_def)
  have "\<not> index_conflict (OTournament deleted_event) empty_db" by (simp add: index_conflict_def empty_db_def)
  then obtain bd s where save: "save_object (Instant 2026 1 2 0) (OTournament deleted_event) (Some (Instant 2026 1 2 0)) empty_db = Inr (bd, s)"
    using save_object_total [of "OTournament deleted_event" empty_db "Instant 2026 1 2 0" "Some (Instant 2026 1 2 0)"] by auto
  obtain q where q: "db_objects s = [(''t'', q)]" "row_full q = OTournament deleted_event" "row_deleted_at q = Some (Instant 2026 1 2 0)"
    by (rule save_object_Inr [OF save]) (simp add: empty_db_def fields)
  obtain t1 where t1: "scrub [''u''] deleted_event = (True, t1)" "uid t1 = ''t''" "t_event_code t1 = []"
    by (simp add: scrub_def Let_def fields scrub_player_def new_player_def)
  define t' where "t' = t1\<lparr>modified := Instant 2026 1 3 0\<rparr>"
  have scrub: "uid t' = ''t''" "t_event_code t' = []" by (simp_all add: t'_def t1)
  have "\<not> index_conflict (OTournament t') s" by (simp add: index_conflict_def scrub)
  then obtain bd' s' where save': "save_object (Instant 2026 1 3 0) (OTournament t') None s = Inr (bd', s')"
    using save_object_total [of "OTournament t'" s "Instant 2026 1 3 0" None] by auto
  have get: "get_tournament_by_uid s ''t'' = Some deleted_event"
    by (simp add: get_tournament_by_uid_def get_object_full_def q)
  have copies: "copies_uids s ''u'' = [''t'']" by (simp add: copies_uids_def q fields new_player_def)
  have "snd (scrub_tournament_copies (Instant 2026 1 3 0) ''u'' s) = s'"
    using save' by (simp add: scrub_tournament_copies_def copies seq_def transaction_def scrub_copy_def get atomic_def t'_def t1)
  moreover have "map_option row_deleted_at (map_of (db_objects s') ''t'') = Some None"
    by (rule save_object_Inr [OF save']) (simp add: scrub)
  ultimately show ?thesis
    using save q by (simp add: save_object_from_model_def fields)
qed

section \<open>The desk\<close>

definition desk_db :: "desk \<Rightarrow> db" where
  "desk_db d = fst (fst d)"

lemma on_desk_run:
  assumes "m (desk_db d) = (r, s')"
  obtains d' where "on_desk m d = (r, d')" "desk_db d' = s'"
  using assms by (cases d) (auto simp: on_desk_def desk_db_def)

lemma on_desk_gets [simp]: "on_desk (gets f) d = (Inr (f (desk_db d)), d)"
  by (cases d) (auto simp: on_desk_def desk_db_def)

lemma member_saved:
  assumes "rows_ok (desk_db d)" and "\<not> index_conflict (OUser v) (desk_db d)"
  obtains bd d' where "save_member now before v d = (Inr bd, d')" "rows_ok (desk_db d')" "same_rest (desk_db d) (desk_db d')" "bd_uid bd = uid v"
    "read_object (desk_db d') = (read_object (desk_db d))(uid v \<mapsto> as_stored (OUser v))"
    "owner_of (desk_db d') = (owner_of (desk_db d))(uid v \<mapsto> owner_after v (owner_of (desk_db d) (uid v)))"
proof -
  obtain s c p where d: "d = ((s, c), p)" by (cases d) auto
  obtain bd s' where s': "save_user_prog now v s = (Inr bd, s')" "rows_ok s'" "bd_uid bd = uid v" "same_rest s s'"
    "read_object s' = (read_object s)(uid v \<mapsto> as_stored (OUser v))"
    "owner_of s' = (owner_of s)(uid v \<mapsto> owner_after v (owner_of s (uid v)))"
    by (rule user_saved_free [of s v now]) (use assms d in \<open>simp_all add: desk_db_def\<close>)
  have "\<exists>c' p'. save_member now before v d = (Inr bd, ((s', c'), p'))"
    using s'(1) by (simp add: d save_member_def on_desk_def seq_def only_if_def resync_member_def push_linked_roles_def)
  then show thesis using s' that by (auto simp: d desk_db_def)
qed

lemma moved_role_token:
  obtains d' where "move_discord_role_token now from to d = (Inr (), d')"
    "db_objects (desk_db d') = db_objects (desk_db d)" "db_auth (desk_db d') = db_auth (desk_db d)" "db_nda (desk_db d') = db_nda (desk_db d)"
proof -
  obtain s c p where d: "d = ((s, c), p)" by (cases d) auto
  show thesis
    by (rule that [of "snd (move_discord_role_token now from to d)"])
      (auto simp: d desk_db_def move_discord_role_token_def on_desk_def seq_def push_linked_roles_def store_transient_token_def
        delete_transient_token_def split: option.split)
qed

lemma same_objects:
  assumes "db_objects s' = db_objects s"
  shows "read_object s' = read_object s" "rows_ok s' = rows_ok s" "owner_of s' = owner_of s" "index_conflict x s' = index_conflict x s"
proof -
  have "index_of s' = index_of s" using assms by (simp add: index_of_def fun_eq_iff)
  then show "rows_ok s' = rows_ok s" using assms by (simp add: rows_ok_def)
qed (use assms in \<open>simp_all add: read_object_def fun_eq_iff owner_of_def index_conflict_def\<close>)

lemma pending_unique_remap:
  assumes "pending_unique rs" and "list_all (\<lambda>r. nr_user_uid r \<noteq> new) rs"
  shows "pending_unique (map (\<lambda>x. if nr_user_uid x = old then x\<lparr>nr_user_uid := new\<rparr> else x) rs)"
proof -
  let ?g = "\<lambda>u. if u = old then new else u" and ?P = "\<lambda>x. nr_status x = NDA_PENDING"
  have eq: "map nr_user_uid (filter ?P (map (\<lambda>x. if nr_user_uid x = old then x\<lparr>nr_user_uid := new\<rparr> else x) rs))
      = map ?g (map nr_user_uid (filter ?P rs))"
    by (induction rs) auto
  have "new \<notin> set (map nr_user_uid (filter ?P rs))" using assms(2) by (auto simp: list_all_iff)
  then have "inj_on ?g (set (map nr_user_uid (filter ?P rs)))" by (auto simp: inj_on_def split: if_splits)
  then show ?thesis using assms(1) unfolding pending_unique_def eq distinct_map [of ?g] by simp
qed

text \<open>Everything kept by the record stays at its uid, everything personal walks away.\<close>

definition split_in_two :: "user \<Rightarrow> user \<Rightarrow> user \<Rightarrow> bool" where
  "split_in_two v personal record' \<longleftrightarrow> u_vekn_id record' = u_vekn_id v \<and> u_roles record' = u_roles v \<and> u_wins record' = u_wins v
     \<and> u_promo_stock record' = u_promo_stock v \<and> u_coopted_by record' = u_coopted_by v
     \<and> u_contact_email record' = None \<and> u_contact_phone record' = None \<and> u_discord_id record' = None \<and> u_avatar_path record' = None
     \<and> u_vekn_id personal = None \<and> u_roles personal = [] \<and> u_wins personal = [] \<and> u_promo_stock personal = []
     \<and> u_coopted_by personal = None \<and> u_contact_email personal = u_contact_email v \<and> u_contact_phone personal = u_contact_phone v
     \<and> u_discord_id personal = u_discord_id v \<and> u_avatar_path personal = u_avatar_path v"


section \<open>The passes of a merge\<close>

text \<open>A pass that saves again, changed, every object of a list\<close>

lemma reassign_run:
  assumes ok: "rows_ok s" and keep: "keeps_object upd" and dist: "distinct (map g xs)"
    and here: "\<And>x. x \<in> set xs \<Longrightarrow> Option.bind (read_object s (g x)) upd = Some (f x)"
    and all: "\<And>w x. read_object s w = Some x \<Longrightarrow> upd x \<noteq> None \<Longrightarrow> w \<in> g ` set xs"
    and step: "\<And>x s bd s'. save_object_from_model now (f x) s = Inr (bd, s') \<Longrightarrow> \<exists>bd'. m x s = (Inr bd', s')"
  obtains bds s' where "for_each m xs s = (Inr bds, s')" "rows_ok s'" "same_rest s s'"
    "\<And>w. read_object s' w = map_option (touched upd) (read_object s w)"
proof -
  have "\<exists>out s'. for_each m xs s = (Inr out, s') \<and> passed_objects upd ({} \<union> g ` set xs) s s'"
  proof (rule pass_over [where g = "\<lambda>s. s"])
    fix x st seen
    assume x: "x \<in> set xs" "g x \<notin> seen" "passed_objects upd seen s st"
    obtain bd s' where "save_object now (f x) (obj_deleted_at (f x)) st = Inr (bd, s')" "passed_objects upd (insert (g x) seen) s s'"
      by (rule pass_save [OF x(3) keep ok x(2) here [OF x(1)]])
    then show "\<exists>out st'. m x st = (Inr out, st') \<and> passed_objects upd (insert (g x) seen) s st'"
      using step [of x st bd s'] by (auto simp: save_object_from_model_def)
  qed (use dist passed_objects_start [OF ok] in auto)
  then obtain out s' where s': "for_each m xs s = (Inr out, s')" "passed_objects upd (g ` set xs) s s'" by auto
  have "read_object s' w = map_option (touched upd) (read_object s w)" for w
    by (rule passed_all [OF s'(2)]) (rule all)
  moreover have "rows_ok s'" "same_rest s s'" using s'(2) by (simp_all add: passed_objects_def)
  ultimately show thesis using s'(1) that by blast
qed

definition sanction_upd :: "uid \<Rightarrow> uid \<Rightarrow> obj \<Rightarrow> obj option" where
  "sanction_upd from to x = (case x of OSanction y \<Rightarrow> if s_user_uid y = from then Some (OSanction (y\<lparr>s_user_uid := to\<rparr>)) else None | _ \<Rightarrow> None)"

definition deck_upd :: "uid \<Rightarrow> uid \<Rightarrow> obj \<Rightarrow> obj option" where
  "deck_upd from to x = (case x of ODeck y \<Rightarrow> if d_user_uid y = from then Some (ODeck (y\<lparr>d_user_uid := to\<rparr>)) else None | _ \<Rightarrow> None)"

definition coopted_upd :: "uid \<Rightarrow> uid \<Rightarrow> obj \<Rightarrow> obj option" where
  "coopted_upd from to x = (case x of OUser y \<Rightarrow> if u_coopted_by y = Some from then Some (OUser (y\<lparr>u_coopted_by := Some to\<rparr>)) else None | _ \<Rightarrow> None)"

lemma reassign_keeps: "keeps_object (sanction_upd from to)" "keeps_object (deck_upd from to)" "keeps_object (coopted_upd from to)"
proof -
  show "keeps_object (sanction_upd from to)" "keeps_object (deck_upd from to)"
    by (auto simp: keeps_object_def sanction_upd_def deck_upd_def split: obj.splits if_splits)
  have "as_stored (OUser (y\<lparr>u_coopted_by := v\<rparr>)) = OUser (y\<lparr>u_coopted_by := v\<rparr>)" if "as_stored (OUser y) = OUser y" for y v
    by (rule no_owner_stored) (use stored_owner [OF that] in simp)
  then show "keeps_object (coopted_upd from to)"
    by (auto simp: keeps_object_def coopted_upd_def split: obj.splits if_splits)
qed

lemma stored_users:
  assumes "rows_ok s"
  shows "d \<in> set (users s) \<longleftrightarrow> read_object s (uid d) = Some (OUser d)" "distinct (map uid (users s))"
  using stored_objects [where dec = as_user and C = OUser, OF assms as_user_Some] by (simp_all add: users_def)

lemma sanctions_reassigned:
  assumes "rows_ok s"
  obtains bds s' where "reassign_sanctions now from to s = (Inr bds, s')" "rows_ok s'" "same_rest s s'"
    "\<And>w. read_object s' w = map_option (touched (sanction_upd from to)) (read_object s w)"
proof -
  have xs: "x \<in> set (get_sanctions_for_user s from) \<longleftrightarrow> read_object s (uid x) = Some (OSanction x) \<and> s_user_uid x = from" for x
    using stored_sanctions(1) [OF assms] by (auto simp: get_sanctions_for_user_def)
  have "distinct (map uid (filter (\<lambda>x. s_user_uid x = from) (sanctions s)))"
    using stored_sanctions(2) [OF assms] by (simp add: distinct_map_filter)
  then have dist: "distinct (map uid (get_sanctions_for_user s from))"
    by (simp add: get_sanctions_for_user_def distinct_map)
  have all: "w \<in> uid ` set (get_sanctions_for_user s from)" if "read_object s w = Some x" "sanction_upd from to x \<noteq> None" for w x
  proof -
    from that(2) obtain y where y: "x = OSanction y" "s_user_uid y = from" by (auto simp: sanction_upd_def split: obj.splits if_splits)
    then have "uid y = w" using stored_object(1) [OF assms that(1)] by simp
    then show ?thesis using that(1) y xs by (auto simp: image_iff)
  qed
  obtain bds s' where "for_each (\<lambda>x. atomic (save_sanction now (x\<lparr>s_user_uid := to\<rparr>))) (get_sanctions_for_user s from) s = (Inr bds, s')"
    "rows_ok s'" "same_rest s s'" "\<And>w. read_object s' w = map_option (touched (sanction_upd from to)) (read_object s w)"
    by (rule reassign_run [where f = "\<lambda>x. OSanction (x\<lparr>s_user_uid := to\<rparr>)" and now = now
          and m = "\<lambda>x. atomic (save_sanction now (x\<lparr>s_user_uid := to\<rparr>))", OF assms reassign_keeps(1) dist _ all])
      (auto simp: xs sanction_upd_def atomic_def save_sanction_def)
  then show thesis using that by (simp add: reassign_sanctions_def seq_def)
qed

lemma decks_reassigned:
  assumes "rows_ok s"
  obtains bds s' where "reassign_decks now from to s = (Inr bds, s')" "rows_ok s'" "same_rest s s'"
    "\<And>w. read_object s' w = map_option (touched (deck_upd from to)) (read_object s w)"
proof -
  let ?xs = "map (\<lambda>d. (d, deck_event s d)) (filter (\<lambda>d. d_user_uid d = from) (decks s))"
  let ?m = "\<lambda>(d, orgs, st). atomic (save_deck now st orgs (d\<lparr>d_user_uid := to\<rparr>))"
  have xs: "x \<in> set ?xs \<longleftrightarrow> read_object s (uid (fst x)) = Some (ODeck (fst x)) \<and> d_user_uid (fst x) = from \<and> snd x = deck_event s (fst x)" for x
    using stored_decks(1) [OF assms] by (cases x) auto
  have dist: "distinct (map (\<lambda>x. uid (fst x)) ?xs)"
    using stored_decks(2) [OF assms] by (simp add: comp_def distinct_map_filter)
  have all: "w \<in> (\<lambda>x. uid (fst x)) ` set ?xs" if "read_object s w = Some x" "deck_upd from to x \<noteq> None" for w x
  proof -
    from that(2) obtain y where y: "x = ODeck y" "d_user_uid y = from" by (auto simp: deck_upd_def split: obj.splits if_splits)
    then have "uid y = w" using stored_object(1) [OF assms that(1)] by simp
    then show ?thesis using that(1) y stored_decks(1) [OF assms, of y] by (auto simp: image_iff)
  qed
  have here: "Option.bind (read_object s (uid (fst x))) (deck_upd from to) = Some (ODeck ((fst x)\<lparr>d_user_uid := to\<rparr>))"
    if "x \<in> set ?xs" for x
    using that unfolding xs by (simp add: deck_upd_def)
  have step: "\<exists>bd'. ?m x s1 = (Inr bd', s2)"
    if "save_object_from_model now (ODeck ((fst x)\<lparr>d_user_uid := to\<rparr>)) s1 = Inr (bd, s2)" for x :: "deck \<times> uid list \<times> tournament_state option" and s1 bd s2
    using that by (cases x) (auto simp: atomic_def save_deck_def)
  show thesis
  proof (rule reassign_run [where f = "\<lambda>x. ODeck ((fst x)\<lparr>d_user_uid := to\<rparr>)" and now = now and m = ?m,
        OF assms reassign_keeps(2) dist here all step])
    fix bds s' assume "for_each ?m ?xs s = (Inr bds, s')" "rows_ok s'" "same_rest s s'"
      "\<And>w. read_object s' w = map_option (touched (deck_upd from to)) (read_object s w)"
    then show thesis by (intro that) (simp_all add: reassign_decks_def seq_def)
  qed
qed

lemma coopted_reassigned:
  assumes "rows_ok s"
  obtains bds s' where "reassign_coopted_by_references now from to s = (Inr bds, s')" "rows_ok s'" "same_rest s s'"
    "\<And>w. read_object s' w = map_option (touched (coopted_upd from to)) (read_object s w)"
proof -
  let ?xs = "filter (\<lambda>u. u_coopted_by u = Some from) (users s)"
  have xs: "x \<in> set ?xs \<longleftrightarrow> read_object s (uid x) = Some (OUser x) \<and> u_coopted_by x = Some from" for x
    using stored_users(1) [OF assms] by auto
  have dist: "distinct (map uid ?xs)" using stored_users(2) [OF assms] by (simp add: distinct_map_filter)
  have all: "w \<in> uid ` set ?xs" if "read_object s w = Some x" "coopted_upd from to x \<noteq> None" for w x
  proof -
    from that(2) obtain y where y: "x = OUser y" "u_coopted_by y = Some from" by (auto simp: coopted_upd_def split: obj.splits if_splits)
    then have "uid y = w" using stored_object(1) [OF assms that(1)] by simp
    then show ?thesis using that(1) y stored_users(1) [OF assms, of y] by (auto simp: image_iff)
  qed
  obtain bds s' where "for_each (\<lambda>u. save_user_prog now (u\<lparr>u_coopted_by := Some to\<rparr>)) ?xs s = (Inr bds, s')"
    "rows_ok s'" "same_rest s s'" "\<And>w. read_object s' w = map_option (touched (coopted_upd from to)) (read_object s w)"
    by (rule reassign_run [where f = "\<lambda>x. OUser (x\<lparr>u_coopted_by := Some to\<rparr>)" and now = now
          and m = "\<lambda>u. save_user_prog now (u\<lparr>u_coopted_by := Some to\<rparr>)", OF assms reassign_keeps(3) dist _ all])
      (auto simp: xs coopted_upd_def save_user_prog_def atomic_def save_user_def simp del: set_filter)
  then show thesis using that by (simp add: reassign_coopted_by_references_def seq_def)
qed

lemma wins_of_one:
  assumes "rows_ok s" and "read_object s k = Some (OUser v)"
  obtains out s' v' where "recompute_wins now (Some [k]) s = (Inr out, s')" "rows_ok s'" "same_rest s s'"
    "read_object s' = (read_object s)(k \<mapsto> OUser v')" "v' = v\<lparr>u_wins := u_wins v', modified := modified v'\<rparr>"
proof -
  define wins where "wins = get_all_tournament_wins s (Some [k])"
  define new where "new = sort (opt_list (map_of wins k))"
  have found: "map_of (get_users_by_uids s [k]) k = Some v"
    using found_users(3) [OF assms(1), of "[k]" k] assms(2) by (simp add: user_at_read)
  have k: "uid v = k" using stored_object(1) [OF assms] by simp
  show thesis
  proof (cases "new = u_wins v")
    case True
    then have "recompute_wins now (Some [k]) s = (Inr [], s)"
      by (simp add: recompute_wins_def seq_def store_wins_def found wins_def [symmetric] new_def [symmetric] map_filter_simps)
    then show ?thesis using assms that [of "[]" s v] by (simp add: fun_upd_idem)
  next
    case False
    define v' where "v' = v\<lparr>u_wins := new, modified := now\<rparr>"
    have cols: "owner_columns (OUser v') = (None, None, None)"
      using stored_owner [OF stored_object(2) [OF assms]] by (simp add: v'_def)
    obtain bd s' where s': "save_user_prog now v' s = (Inr bd, s')" "rows_ok s'" "same_rest s s'"
      "read_object s' = (read_object s)(uid v' \<mapsto> as_stored (OUser v'))"
      by (rule user_saved [OF assms(1), of v' v now]) (use assms(2) k in \<open>auto simp: v'_def\<close>)
    have "recompute_wins now (Some [k]) s = (Inr [(v', bd)], s')"
      using s'(1) False by (simp add: recompute_wins_def seq_def store_wins_def found wins_def [symmetric] new_def [symmetric]
          map_filter_simps v'_def Let_def)
    moreover have "read_object s' = (read_object s)(k \<mapsto> OUser v')"
      using s'(4) no_owner_stored [OF cols] k by (simp add: v'_def)
    ultimately show ?thesis using s'(2,3) that [of "[(v', bd)]" s' v'] by (simp add: v'_def)
  qed
qed

section \<open>Merging\<close>

definition reassigned :: "uid \<Rightarrow> uid \<Rightarrow> obj \<Rightarrow> obj" where
  "reassigned from to x = (case x of
     OSanction y \<Rightarrow> OSanction (y\<lparr>s_user_uid := if s_user_uid y = from then to else s_user_uid y\<rparr>)
   | ODeck y \<Rightarrow> ODeck (y\<lparr>d_user_uid := if d_user_uid y = from then to else d_user_uid y\<rparr>)
   | OUser y \<Rightarrow> OUser (y\<lparr>u_coopted_by := if u_coopted_by y = Some from then Some to else u_coopted_by y\<rparr>)
   | _ \<Rightarrow> x)"

lemma reassigned_passes:
  "touched (coopted_upd from to) (touched (deck_upd from to) (touched (sanction_upd from to) x)) = reassigned from to x"
  by (cases x) (simp_all add: touched_def coopted_upd_def deck_upd_def sanction_upd_def reassigned_def)

text \<open>The survivor as it is saved\<close>

definition survivor :: "db \<Rightarrow> user \<Rightarrow> user \<Rightarrow> user" where
  "survivor s k g = merged_user k g (merged_token s (uid k) (uid g)) (merged_agenda s (uid k) (uid g))"

definition moved_nda :: "uid \<Rightarrow> uid \<Rightarrow> nda_record list \<Rightarrow> nda_record list" where
  "moved_nda from to = map (\<lambda>x. if nr_user_uid x = from then x\<lparr>nr_user_uid := to\<rparr> else x)"

text \<open>What runs before the NDA is moved\<close>

lemma merge_prefix:
  assumes ok: "rows_ok (desk_db d)" and k: "read_object (desk_db d) keep = Some (OUser k)" and "uid m = keep"
    and "u_vekn_id m = u_vekn_id k \<or> \<not> truthy_str (u_vekn_id m)"
  obtains bd d1 d2 d3 n where "save_member now k m d = (Inr bd, d1)" "move_discord_role_token now gone keep d1 = (Inr (), d2)"
    "on_desk (\<lambda>s. case reassign_auth_methods gone keep s of (n, s') \<Rightarrow> (Inr n, s')) d2 = (Inr n, d3)"
    "rows_ok (desk_db d3)" "read_object (desk_db d3) = (read_object (desk_db d))(keep \<mapsto> as_stored (OUser m))"
    "db_auth (desk_db d3) = db_auth (snd (reassign_auth_methods gone keep (desk_db d)))" "db_nda (desk_db d3) = db_nda (desk_db d)"
proof -
  have free: "\<not> index_conflict (OUser m) (desk_db d)"
    by (rule user_kept_free [OF ok, of m k]) (use k assms(3,4) in simp_all)
  obtain bd d1 where d1: "save_member now k m d = (Inr bd, d1)" "rows_ok (desk_db d1)" "same_rest (desk_db d) (desk_db d1)"
    "read_object (desk_db d1) = (read_object (desk_db d))(keep \<mapsto> as_stored (OUser m))"
    by (rule member_saved [OF ok free, of now k]) (use assms(3) in auto)
  obtain d2 where d2: "move_discord_role_token now gone keep d1 = (Inr (), d2)" "db_objects (desk_db d2) = db_objects (desk_db d1)"
    "db_auth (desk_db d2) = db_auth (desk_db d1)" "db_nda (desk_db d2) = db_nda (desk_db d1)"
    by (rule moved_role_token)
  obtain n d3 where d3: "on_desk (\<lambda>s. case reassign_auth_methods gone keep s of (n, s') \<Rightarrow> (Inr n, s')) d2 = (Inr n, d3)"
    "desk_db d3 = snd (reassign_auth_methods gone keep (desk_db d2))"
    by (rule on_desk_run [of "\<lambda>s. case reassign_auth_methods gone keep s of (n, s') \<Rightarrow> (Inr n, s')" d2
          "Inr (fst (reassign_auth_methods gone keep (desk_db d2)))" "snd (reassign_auth_methods gone keep (desk_db d2))"])
      (auto simp: case_prod_beta)
  have objs: "db_objects (desk_db d3) = db_objects (desk_db d1)" by (simp add: d3(2) reassign_auth_methods_def d2)
  show thesis
    by (rule that [OF d1(1) d2(1) d3(1)])
      (use d1(2,4) same_objects(1,2) [OF objs] same_rest_tables(1,2) [OF d1(3)] in \<open>simp_all add: d3(2) reassign_auth_methods_def d2\<close>)
qed

text \<open>What runs after the NDA is moved\<close>

lemma merge_passes:
  assumes ok: "rows_ok s" and "keep \<noteq> gone" and k: "read_object s keep = Some (OUser k)"
    and g: "read_object s gone = Some (OUser g)" and "\<not> truthy_str (u_vekn_id g)"
  obtains b1 s1 b2 s2 out s3 b4 s4 del s5 k' w where
    "reassign_sanctions now gone keep s = (Inr b1, s1)" "reassign_decks now gone keep s1 = (Inr b2, s2)"
    "recompute_wins now (Some [keep]) s2 = (Inr out, s3)" "reassign_coopted_by_references now gone keep s3 = (Inr b4, s4)"
    "soft_delete_user now gone s4 = Inr (Some del, s5)" "rows_ok s5" "same_rest s s5"
    "\<And>x. x \<noteq> keep \<Longrightarrow> x \<noteq> gone \<Longrightarrow> read_object s5 x = map_option (reassigned gone keep) (read_object s x)"
    "read_object s5 keep = Some (reassigned gone keep (OUser k'))" "k' = k\<lparr>u_wins := u_wins k', modified := modified k'\<rparr>"
    "read_object s5 gone = Some (OUser w)" "deleted_at w = Some now"
proof -
  obtain b1 s1 where s1: "reassign_sanctions now gone keep s = (Inr b1, s1)" "rows_ok s1" "same_rest s s1"
    "\<And>w. read_object s1 w = map_option (touched (sanction_upd gone keep)) (read_object s w)"
    by (rule sanctions_reassigned [OF ok, of now gone keep]) blast
  obtain b2 s2 where s2: "reassign_decks now gone keep s1 = (Inr b2, s2)" "rows_ok s2" "same_rest s1 s2"
    "\<And>w. read_object s2 w = map_option (touched (deck_upd gone keep)) (read_object s1 w)"
    by (rule decks_reassigned [OF s1(2), of now gone keep]) blast
  have users2: "read_object s2 keep = Some (OUser k)" "read_object s2 gone = Some (OUser g)"
    by (simp_all add: s2(4) s1(4) k g touched_def sanction_upd_def deck_upd_def)
  obtain out s3 k' where s3: "recompute_wins now (Some [keep]) s2 = (Inr out, s3)" "rows_ok s3" "same_rest s2 s3"
    "read_object s3 = (read_object s2)(keep \<mapsto> OUser k')" "k' = k\<lparr>u_wins := u_wins k', modified := modified k'\<rparr>"
    by (rule wins_of_one [OF s2(2) users2(1), of now])
  obtain b4 s4 where s4: "reassign_coopted_by_references now gone keep s3 = (Inr b4, s4)" "rows_ok s4" "same_rest s3 s4"
    "\<And>w. read_object s4 w = map_option (touched (coopted_upd gone keep)) (read_object s3 w)"
    by (rule coopted_reassigned [OF s3(2), of now gone keep]) blast
  define g' where "g' = (if u_coopted_by g = Some gone then g\<lparr>u_coopted_by := Some keep\<rparr> else g)"
  have g4: "read_object s4 gone = Some (OUser g')" using assms(2)
    by (simp add: s4(4) s3(4) users2 touched_def coopted_upd_def g'_def)
  have vid: "\<not> truthy_str (u_vekn_id g')" using assms(5) by (simp add: g'_def)
  define w where "w = g'\<lparr>deleted_at := Some now, modified := now\<rparr>"
  have uid: "uid g' = gone" using stored_object(1) [OF s4(2) g4] by simp
  have cols: "owner_columns (OUser w) = (None, None, None)"
    using stored_owner [OF stored_object(2) [OF s4(2) g4]] by (simp add: w_def)
  obtain bd s5 where s5: "save_user_prog now w s4 = (Inr bd, s5)" "rows_ok s5" "same_rest s4 s5"
    "read_object s5 = (read_object s4)(uid w \<mapsto> as_stored (OUser w))"
    by (rule user_saved [OF s4(2), of w g' now]) (use g4 uid in \<open>auto simp: w_def\<close>)
  have "save_user now w s4 = Inr (bd, s5)" using s5(1) by (simp add: save_user_prog_def atomic_def split: sum.splits prod.splits)
  then have del: "soft_delete_user now gone s4 = Inr (Some (w, bd), s5)"
    using vid user_at_read [THEN iffD2, OF g4] by (simp add: soft_delete_user_def get_user_read bind_res_def Let_def w_def)
  have read5: "read_object s5 = (read_object s4)(gone \<mapsto> OUser w)"
    using s5(4) no_owner_stored [OF cols] uid by (simp add: w_def)
  show thesis
  proof (rule that [OF s1(1) s2(1) s3(1) s4(1) del s5(2)])
    show "same_rest s s5" using s1(3) s2(3) s3(3) s4(3) s5(3) same_rest_trans by blast
    show "read_object s5 x = map_option (reassigned gone keep) (read_object s x)" if "x \<noteq> keep" "x \<noteq> gone" for x
      using that by (cases "read_object s x") (simp_all add: read5 s4(4) s3(4) s2(4) s1(4) reassigned_passes)
    have "coopted_upd gone keep (OUser k') = (if u_coopted_by k' = Some gone then Some (OUser (k'\<lparr>u_coopted_by := Some keep\<rparr>)) else None)"
      by (simp add: coopted_upd_def)
    then show "read_object s5 keep = Some (reassigned gone keep (OUser k'))" using assms(2)
      by (simp add: read5 s4(4) s3(4) touched_def reassigned_def)
    show "k' = k\<lparr>u_wins := u_wins k', modified := modified k'\<rparr>" by (rule s3(5))
    show "read_object s5 gone = Some (OUser w)" "deleted_at w = Some now" by (simp_all add: read5) (simp add: w_def)
  qed
qed


section \<open>Two open requests\<close>

text \<open>Nothing here runs in one transaction, so a merge of two accounts that both have an NDA request
  open stops in the middle: the survivor is saved and has the logins, the other account stays.\<close>

theorem merge_stops_at_second_request:
  assumes "rows_ok (desk_db d)" and "keep \<noteq> gone"
    and "get_user_by_uid (desk_db d) keep = Some k" and "get_user_by_uid (desk_db d) gone = Some g"
    and "\<not> truthy_str (u_vekn_id g)" and "u_anonymized_at k = None"
    and "\<not> pending_unique (moved_nda gone keep (db_nda (desk_db d)))"
  shows "case merge_users now keep gone d of
      (Inl e, d') \<Rightarrow> e = UniqueViolation ''idx_nda_records_pending''
        \<and> read_object (desk_db d') keep = Some (OUser (without_owner_columns (survivor (desk_db d) k g)))
        \<and> read_object (desk_db d') gone = Some (OUser g) \<and> db_nda (desk_db d') = db_nda (desk_db d)
        \<and> db_auth (desk_db d') = db_auth (snd (reassign_auth_methods gone keep (desk_db d)))
    | (Inr _, _) \<Rightarrow> False"
proof -
  let ?s = "desk_db d"
  have k: "read_object ?s keep = Some (OUser k)" and g: "read_object ?s gone = Some (OUser g)"
    using assms(3,4) by (simp_all add: get_user_read user_at_read)
  have uids: "uid k = keep" "uid g = gone" using stored_object(1) [OF assms(1) k] stored_object(1) [OF assms(1) g] by simp_all
  define m where "m = survivor ?s k g"
  have m: "uid m = keep" "u_vekn_id m = u_vekn_id k \<or> \<not> truthy_str (u_vekn_id m)"
    using uids assms(5) by (auto simp: m_def survivor_def merged_user_def or_str_def)
  obtain bd d1 d2 d3 n where pre: "save_member now k m d = (Inr bd, d1)" "move_discord_role_token now gone keep d1 = (Inr (), d2)"
    "on_desk (\<lambda>s. case reassign_auth_methods gone keep s of (n, s') \<Rightarrow> (Inr n, s')) d2 = (Inr n, d3)"
    "rows_ok (desk_db d3)" "read_object (desk_db d3) = (read_object ?s)(keep \<mapsto> as_stored (OUser m))"
    "db_auth (desk_db d3) = db_auth (snd (reassign_auth_methods gone keep ?s))" "db_nda (desk_db d3) = db_nda ?s"
    by (rule merge_prefix [OF assms(1) k m, of now gone])
  have "remap_nda_user gone keep (desk_db d3) = Inl (UniqueViolation ''idx_nda_records_pending'')"
    using assms(7) by (simp add: remap_nda_user_def pre(7) moved_nda_def Let_def)
  then obtain d4 where d4: "on_desk (atomic (remap_nda_user gone keep)) d3 = (Inl (UniqueViolation ''idx_nda_records_pending''), d4)"
    "desk_db d4 = desk_db d3"
    using on_desk_run [of "atomic (remap_nda_user gone keep)" d3 "Inl (UniqueViolation ''idx_nda_records_pending'')" "desk_db d3"]
    by (auto simp: atomic_def)
  have run: "merge_users now keep gone d = (Inl (UniqueViolation ''idx_nda_records_pending''), d4)"
    using pre(1-3) d4(1) assms(2-6) by (simp add: merge_users_def merge_cascade_def seq_def m_def survivor_def uids)
  show ?thesis unfolding run prod.case sum.case
    using assms(2) g by (simp add: d4(2) pre(5-7) m_def)
qed

section \<open>Sample members\<close>

definition sample_keep :: user where
  "sample_keep = (new_user ''k'' (Instant 2026 1 1 0) ''Ann'')\<lparr>u_vekn_id := Some ''1000001''\<rparr>"

definition sample_gone :: user where
  "sample_gone = new_user ''g'' (Instant 2026 1 1 0) ''Annie''"

lemma sample_members:
  obtains d where "rows_ok (desk_db d)" "get_user_by_uid (desk_db d) ''k'' = Some sample_keep"
    "get_user_by_uid (desk_db d) ''g'' = Some sample_gone" "db_nda (desk_db d) = []" "key_set (db_objects (desk_db d)) = {''k'', ''g''}"
proof -
  have cols: "owner_columns (OUser sample_keep) = (None, None, None)" "owner_columns (OUser sample_gone) = (None, None, None)"
    by (simp_all add: sample_keep_def sample_gone_def new_user_def)
  have ids: "uid sample_keep = ''k''" "uid sample_gone = ''g''" "\<not> truthy_str (u_vekn_id sample_gone)"
    by (simp_all add: sample_keep_def sample_gone_def new_user_def truthy_str_def)
  have empty: "rows_ok empty_db" using empty_db_ok by (simp add: db_ok_def)
  obtain b1 s1 where s1: "save_user_prog (Instant 2026 1 1 0) sample_keep empty_db = (Inr b1, s1)" "rows_ok s1" "same_rest empty_db s1"
    "read_object s1 = (read_object empty_db)(uid sample_keep \<mapsto> as_stored (OUser sample_keep))"
    by (rule user_saved_free [OF empty, of sample_keep "Instant 2026 1 1 0"]) (auto simp: index_conflict_def empty_db_def)
  obtain b2 s2 where s2: "save_user_prog (Instant 2026 1 1 0) sample_gone s1 = (Inr b2, s2)" "rows_ok s2" "same_rest s1 s2"
    "read_object s2 = (read_object s1)(uid sample_gone \<mapsto> as_stored (OUser sample_gone))"
    by (rule user_saved_free [OF s1(2), of sample_gone "Instant 2026 1 1 0"]) (use ids in \<open>auto simp: index_conflict_def\<close>)
  have read: "read_object s2 = Map.empty(''k'' \<mapsto> OUser sample_keep, ''g'' \<mapsto> OUser sample_gone)"
    unfolding s2(4) s1(4) ids no_owner_stored [OF cols(1)] no_owner_stored [OF cols(2)]
    by (simp add: fun_eq_iff read_object_def empty_db_def)
  have keys: "w \<in> key_set (db_objects s2) \<longleftrightarrow> read_object s2 w \<noteq> None" for w
    by (simp add: read_object_def map_of_eq_None_iff key_set_def)
  show thesis
    by (rule that [of "((s2, sample_sse), [])"])
      (use s2(2) same_rest_tables(2) [OF s1(3)] same_rest_tables(2) [OF s2(3)] in
        \<open>auto simp: desk_db_def get_user_read user_at_read read keys empty_db_def split: if_splits\<close>)
qed




end
