(* ===== verification/Jwt.thy ===== *)
theory Jwt
  imports Geonames "HOL-Library.Word"
begin

unbundle bit_operations_syntax

text \<open>
  The token protocol (\<open>backend/src/jwt_config.py\<close>) with the parts of Python's standard library it
  and the PKCE check rest on: SHA-256 (\<open>hashlib\<close>) and URL-safe base64 (\<open>base64\<close>).  The Ed25519 keys
  and PyJWT are a record of functions.
\<close>

section \<open>Bytes\<close>

type_synonym bytes = "8 word list"

definition latin_bytes :: "string \<Rightarrow> bytes" where
  "latin_bytes s = map (\<lambda>c. word_of_nat (of_char c)) s"

text \<open>\<open>str.encode("ascii")\<close>\<close>

definition ascii_encode :: "string \<Rightarrow> bytes res" where
  "ascii_encode s = (if list_all (\<lambda>c. (of_char c :: nat) < 128) s then Inr (latin_bytes s) else Inl UnicodeEncodeError)"

section \<open>URL-safe base64\<close>

definition b64_alphabet :: string where
  "b64_alphabet = ''ABCDEFGHIJKLMNOPQRSTUVWXYZabcdefghijklmnopqrstuvwxyz0123456789-_''"

definition b64_char :: "8 word \<Rightarrow> char" where
  "b64_char w = b64_alphabet ! unat w"

fun urlsafe_b64encode :: "bytes \<Rightarrow> string" where
  "urlsafe_b64encode [] = []"
| "urlsafe_b64encode [a] = [b64_char (drop_bit 2 a), b64_char (push_bit 4 (a AND 3)), CHR ''='', CHR ''='']"
| "urlsafe_b64encode [a, b] =
     [b64_char (drop_bit 2 a), b64_char (push_bit 4 (a AND 3) OR drop_bit 4 b), b64_char (push_bit 2 (b AND 15)), CHR ''='']"
| "urlsafe_b64encode (a # b # c # xs) =
     b64_char (drop_bit 2 a) # b64_char (push_bit 4 (a AND 3) OR drop_bit 4 b)
       # b64_char (push_bit 2 (b AND 15) OR drop_bit 6 c) # b64_char (c AND 63) # urlsafe_b64encode xs"

definition b64url :: "bytes \<Rightarrow> string" where
  "b64url raw = rev (dropWhile (\<lambda>c. c = CHR ''='') (rev (urlsafe_b64encode raw)))"

text \<open>The value of a character of either alphabet; \<open>None\<close> is not in it\<close>

definition b64_value :: "char \<Rightarrow> 8 word option" where
  "b64_value c = (let n = (of_char c :: nat) in
     if 65 \<le> n \<and> n \<le> 90 then Some (word_of_nat (n - 65))
     else if 97 \<le> n \<and> n \<le> 122 then Some (word_of_nat (n - 71))
     else if 48 \<le> n \<and> n \<le> 57 then Some (word_of_nat (n + 4))
     else if c = CHR ''-'' \<or> c = CHR ''+'' then Some 62
     else if c = CHR ''_'' \<or> c = CHR ''/'' then Some 63 else None)"

text \<open>
  The decoder reads characters that are not of the alphabet over; \<open>q\<close> counts the characters of the
  group, \<open>l\<close> holds the bits left, \<open>p\<close> the padding seen.
\<close>

fun b64_decode :: "nat \<Rightarrow> 8 word \<Rightarrow> nat \<Rightarrow> string \<Rightarrow> bytes res" where
  "b64_decode q l p [] = (if q = 0 then Inr [] else Inl (ValueError ''binascii.Error''))"
| "b64_decode q l p (c # cs) =
     (if c = CHR ''='' then
        (if 2 \<le> q \<and> 4 \<le> q + Suc p then Inr []
         else b64_decode q l (if 2 \<le> q then Suc p else p) cs)
      else case b64_value c of
        None \<Rightarrow> b64_decode q l p cs
      | Some v \<Rightarrow>
          if q = 0 then b64_decode 1 v 0 cs
          else if q = 1 then bind_res (b64_decode 2 (v AND 15) 0 cs) (\<lambda>r. Inr ((push_bit 2 l OR drop_bit 4 v) # r))
          else if q = 2 then bind_res (b64_decode 3 (v AND 3) 0 cs) (\<lambda>r. Inr ((push_bit 4 l OR drop_bit 2 v) # r))
          else bind_res (b64_decode 0 0 0 cs) (\<lambda>r. Inr ((push_bit 6 l OR v) # r)))"

definition unb64url :: "string \<Rightarrow> bytes res" where
  "unb64url v = b64_decode 0 0 0 (v @ replicate (nat ((- int (length v)) mod 4)) (CHR ''=''))"

section \<open>SHA-256\<close>

type_synonym sha_state = "32 word list"

text \<open>The fractional bits of the roots of the first primes: cube roots, and square roots to start from\<close>

definition sha_k :: "32 word list" where
  "sha_k = [1116352408, 1899447441, 3049323471, 3921009573, 961987163, 1508970993, 2453635748, 2870763221,
     3624381080, 310598401, 607225278, 1426881987, 1925078388, 2162078206, 2614888103, 3248222580,
     3835390401, 4022224774, 264347078, 604807628, 770255983, 1249150122, 1555081692, 1996064986,
     2554220882, 2821834349, 2952996808, 3210313671, 3336571891, 3584528711, 113926993, 338241895,
     666307205, 773529912, 1294757372, 1396182291, 1695183700, 1986661051, 2177026350, 2456956037,
     2730485921, 2820302411, 3259730800, 3345764771, 3516065817, 3600352804, 4094571909, 275423344,
     430227734, 506948616, 659060556, 883997877, 958139571, 1322822218, 1537002063, 1747873779,
     1955562222, 2024104815, 2227730452, 2361852424, 2428436474, 2756734187, 3204031479, 3329325298]"

definition sha_h0 :: sha_state where
  "sha_h0 = [1779033703, 3144134277, 1013904242, 2773480762, 1359893119, 2600822924, 528734635, 1541459225]"

definition big_word :: "bytes \<Rightarrow> 32 word" where
  "big_word bs = fold (\<lambda>b w. push_bit 8 w OR ucast b) bs 0"

definition word_bytes :: "32 word \<Rightarrow> bytes" where
  "word_bytes w = [ucast (drop_bit 24 w), ucast (drop_bit 16 w), ucast (drop_bit 8 w), ucast w]"

definition long_bytes :: "64 word \<Rightarrow> bytes" where
  "long_bytes w = word_bytes (ucast (drop_bit 32 w)) @ word_bytes (ucast w)"

definition sha_pad :: "bytes \<Rightarrow> bytes" where
  "sha_pad m = m @ [0x80] @ replicate (nat ((55 - int (length m)) mod 64)) 0
     @ long_bytes (word_of_nat (8 * length m))"

fun groups_of :: "nat \<Rightarrow> nat \<Rightarrow> 'a list \<Rightarrow> 'a list list" where
  "groups_of 0 n xs = []"
| "groups_of (Suc k) n xs = take n xs # groups_of k n (drop n xs)"

fun sha_schedule :: "nat \<Rightarrow> 32 word list \<Rightarrow> 32 word list" where
  "sha_schedule 0 ws = ws"
| "sha_schedule (Suc n) ws =
     (let t = length ws; a = ws ! (t - 15); b = ws ! (t - 2);
          s0 = word_rotr 7 a XOR word_rotr 18 a XOR drop_bit 3 a;
          s1 = word_rotr 17 b XOR word_rotr 19 b XOR drop_bit 10 b
      in sha_schedule n (ws @ [ws ! (t - 16) + s0 + ws ! (t - 7) + s1]))"

fun sha_round :: "32 word \<times> 32 word \<Rightarrow> sha_state \<Rightarrow> sha_state" where
  "sha_round (k, w) [a, b, c, d, e, f, g, h] =
     (let s1 = word_rotr 6 e XOR word_rotr 11 e XOR word_rotr 25 e;
          t1 = h + s1 + ((e AND f) XOR (NOT e AND g)) + k + w;
          s0 = word_rotr 2 a XOR word_rotr 13 a XOR word_rotr 22 a;
          t2 = s0 + ((a AND b) XOR (a AND c) XOR (b AND c))
      in [t1 + t2, a, b, c, d + t1, e, f, g])"
| "sha_round kw s = s"

definition sha_block :: "bytes \<Rightarrow> sha_state \<Rightarrow> sha_state" where
  "sha_block blk s = map2 (+) s (fold sha_round (zip sha_k (sha_schedule 48 (map big_word (groups_of 16 4 blk)))) s)"

definition sha256 :: "bytes \<Rightarrow> bytes" where
  "sha256 m = (let p = sha_pad m
     in concat (map word_bytes (fold sha_block (groups_of (length p div 64) 64 p) sha_h0)))"

section \<open>Keys\<close>

text \<open>The environment of the process; an unset variable reads as the empty string.\<close>

record process_env =
  env_ENVIRONMENT :: "string option"
  env_JWT_PRIVATE_KEY :: string
  env_JWT_PUBLIC_KEYS :: string

text \<open>What a token carries; \<open>payload.get\<close> of an absent claim is \<open>None\<close>.\<close>

record claims =
  cl_sub :: "string option"
  cl_type :: "string option"
  cl_scope :: "string option"
  cl_client_id :: "string option"
  cl_jti :: "string option"
  cl_tournament :: "string option"
  cl_iat :: "instant option"
  cl_exp :: "instant option"

datatype verdict = Valid claims | Expired | Invalid

text \<open>
  The third-party libraries: the public half of a private key (raw bytes both), \<open>jwt.encode\<close> (claims,
  audiences, key, \<open>kid\<close>), the \<open>kid\<close> of \<open>jwt.get_unverified_header\<close> (\<open>Inl\<close> when the token is no
  JWT), and \<open>jwt.decode\<close> (token, key, audience, the clock when the expiry is verified).
\<close>

record jwt_library =
  jl_public :: "bytes \<Rightarrow> bytes"
  jl_encode :: "claims \<Rightarrow> string list \<Rightarrow> bytes \<Rightarrow> string \<Rightarrow> string"
  jl_header_kid :: "string \<Rightarrow> (string option) res"
  jl_decode :: "string \<Rightarrow> bytes \<Rightarrow> string \<Rightarrow> instant option \<Rightarrow> verdict"

definition AUDIENCE_APP :: string where "AUDIENCE_APP = ''archon''"
definition AUDIENCE_API :: string where "AUDIENCE_API = ''archon-api''"

definition DEV_SEED :: bytes where
  "DEV_SEED = latin_bytes ''archon-development-signing-seed.''"

definition kid :: "bytes \<Rightarrow> string" where
  "kid raw = take 16 (b64url (sha256 raw))"

text \<open>\<open>from_private_bytes\<close> and \<open>from_public_bytes\<close>: an Ed25519 key is 32 bytes.\<close>

definition key_bytes :: "bytes \<Rightarrow> bytes res" where
  "key_bytes raw = (if length raw = 32 then Inr raw else Inl (ValueError ''An Ed25519 key is 32 bytes long''))"

definition configured_private :: "process_env \<Rightarrow> (bytes option) res" where
  "configured_private env = (if env_JWT_PRIVATE_KEY env = [] then Inr None
     else bind_res (unb64url (env_JWT_PRIVATE_KEY env)) (\<lambda>raw. bind_res (key_bytes raw) (\<lambda>k. Inr (Some k))))"

definition signing_key :: "jwt_library \<Rightarrow> process_env \<Rightarrow> (bytes \<times> string) res" where
  "signing_key lib env = bind_res (configured_private env) (\<lambda>private.
     let key = (case private of Some k \<Rightarrow> k | None \<Rightarrow> DEV_SEED) in Inr (key, kid (jl_public lib key)))"

text \<open>\<open>replace(",", " ").split()\<close>\<close>

definition split_keys :: "string \<Rightarrow> string list" where
  "split_keys v = words [] (map (\<lambda>c. if c = CHR '','' then CHR '' '' else c) v)"

fun add_public_keys :: "string list \<Rightarrow> (string \<times> bytes) list \<Rightarrow> ((string \<times> bytes) list) res" where
  "add_public_keys [] ks = Inr ks"
| "add_public_keys (v # vs) ks =
     bind_res (unb64url v) (\<lambda>raw. bind_res (key_bytes raw) (\<lambda>public. add_public_keys vs (put (kid public) public ks)))"

definition verification_keys :: "jwt_library \<Rightarrow> process_env \<Rightarrow> ((string \<times> bytes) list) res" where
  "verification_keys lib env =
     bind_res (configured_private env) (\<lambda>private.
     let own = (case private of None \<Rightarrow> [] | Some k \<Rightarrow> put (kid (jl_public lib k)) (jl_public lib k) [])
     in bind_res (add_public_keys (split_keys (env_JWT_PUBLIC_KEYS env)) own) (\<lambda>ks.
        Inr (if ks = [] then put (kid (jl_public lib DEV_SEED)) (jl_public lib DEV_SEED) [] else ks)))"

definition assert_production_keys :: "jwt_library \<Rightarrow> process_env \<Rightarrow> bool \<Rightarrow> unit res" where
  "assert_production_keys lib env signing =
     (if env_ENVIRONMENT env = None \<or> env_ENVIRONMENT env = Some ''development'' then Inr ()
      else bind_res (verification_keys lib env) (\<lambda>ks.
        if kid (jl_public lib DEV_SEED) \<in> key_set ks
        then Inl (RuntimeError ''Refusing to boot on the development signing key.'')
        else bind_res (configured_private env) (\<lambda>private.
          if signing \<and> private = None then Inl (RuntimeError ''The app mints tokens: set JWT_PRIVATE_KEY.'')
          else if \<not> signing \<and> private \<noteq> None
            then Inl (RuntimeError ''This process only verifies tokens: it must not hold JWT_PRIVATE_KEY.'')
          else Inr ())))"

definition sign :: "jwt_library \<Rightarrow> process_env \<Rightarrow> claims \<Rightarrow> string list \<Rightarrow> string res" where
  "sign lib env payload audience = bind_res (signing_key lib env) (\<lambda>(key, k). Inr (jl_encode lib payload audience key k))"

definition decode :: "jwt_library \<Rightarrow> process_env \<Rightarrow> instant \<Rightarrow> string \<Rightarrow> string \<Rightarrow> bool \<Rightarrow> verdict res" where
  "decode lib env now token audience verify_exp = bind_res (verification_keys lib env) (\<lambda>ks.
     case jl_header_kid lib token of
       Inl _ \<Rightarrow> Inr Invalid
     | Inr k \<Rightarrow> (case Option.bind k (map_of ks) of
         None \<Rightarrow> Inr Invalid
       | Some key \<Rightarrow> Inr (jl_decode lib token key audience (if verify_exp then Some now else None))))"

end
