(* ===== verification/Programs.thy ===== *)
theory Programs
  imports Prelude
begin

text \<open>
  Route handlers as programs: the guards every handler is made of, and a weakest-precondition
  calculus over them.  \<open>wp m Q E s\<close> runs \<open>m\<close> from \<open>s\<close>: \<open>Q\<close> holds of what it returns and \<open>E\<close> of
  what it raises, each with the state left.
\<close>

section \<open>Guards\<close>

definition lift_res :: "'a res \<Rightarrow> ('s, 'a) prog" where
  "lift_res r s = (r, s)"

definition refuse :: "nat \<Rightarrow> string \<Rightarrow> ('s, 'a) prog" where
  "refuse n d = raise (HTTPException n d)"

definition check :: "bool \<Rightarrow> nat \<Rightarrow> string \<Rightarrow> ('s, unit) prog" where
  "check b n d = (if b then return () else refuse n d)"

section \<open>Weakest preconditions\<close>

definition wp :: "('s, 'a) prog \<Rightarrow> ('a \<Rightarrow> 's \<Rightarrow> bool) \<Rightarrow> (error \<Rightarrow> 's \<Rightarrow> bool) \<Rightarrow> 's \<Rightarrow> bool" where
  "wp m Q E s = (case m s of (Inl e, s') \<Rightarrow> E e s' | (Inr x, s') \<Rightarrow> Q x s')"

named_theorems wp_simps "the weakest preconditions of the building blocks"

lemma wp_blocks [wp_simps]:
  "wp (return x) Q E s = Q x s"
  "wp (raise e) Q E s = E e s"
  "wp (refuse n d) Q E s = E (HTTPException n d) s"
  "wp (gets f) Q E s = Q (f s) s"
  "wp (lift_res r) Q E s = (case r of Inl e \<Rightarrow> E e s | Inr x \<Rightarrow> Q x s)"
  by (simp_all add: wp_def refuse_def lift_res_def split: sum.split)

lemma wp_unit_blocks [wp_simps]:
  "wp (modify g) Q E s = Q () (g s)"
  "wp (check b n d) Q E s = (if b then Q () s else E (HTTPException n d) s)"
  by (simp_all add: wp_def check_def refuse_def)

lemma wp_seq [wp_simps]: "wp (seq m f) Q E s = wp m (\<lambda>x. wp (f x) Q E) E s"
  by (auto simp: wp_def seq_def split: prod.splits sum.splits)

lemma wp_if [wp_simps]: "wp (if b then m else n) Q E s = (if b then wp m Q E s else wp n Q E s)"
  by simp

lemma wp_case_option [wp_simps]:
  "wp (case y of None \<Rightarrow> m | Some x \<Rightarrow> f x) Q E s = (case y of None \<Rightarrow> wp m Q E s | Some x \<Rightarrow> wp (f x) Q E s)"
  by (cases y) simp_all

lemma wp_case_prod [wp_simps]: "wp (case y of (a, b) \<Rightarrow> f a b) Q E s = (case y of (a, b) \<Rightarrow> wp (f a b) Q E s)"
  by (cases y) simp

lemma wp_case_sum [wp_simps]:
  "wp (case y of Inl a \<Rightarrow> f a | Inr b \<Rightarrow> g b) Q E s = (case y of Inl a \<Rightarrow> wp (f a) Q E s | Inr b \<Rightarrow> wp (g b) Q E s)"
  by (cases y) simp_all

lemma wp_let [wp_simps]: "wp (let x = y in f x) Q E s = (let x = y in wp (f x) Q E s)"
  by simp

lemma wp_atomic [wp_simps]:
  "wp (atomic f) Q E s = (case f s of Inl e \<Rightarrow> E e s | Inr (x, s') \<Rightarrow> Q x s')"
  by (auto simp: wp_def atomic_def split: sum.splits)

lemma wp_mono:
  assumes "wp m Q E s" and "\<And>x s'. Q x s' \<Longrightarrow> Q' x s'" and "\<And>e s'. E e s' \<Longrightarrow> E' e s'"
  shows "wp m Q' E' s"
  using assms by (auto simp: wp_def split: prod.splits sum.splits)

lemma wp_result: "wp m Q E s \<Longrightarrow> m s = (Inr x, s') \<Longrightarrow> Q x s'" "wp m Q E s \<Longrightarrow> m s = (Inl e, s') \<Longrightarrow> E e s'"
  by (simp_all add: wp_def)

lemma wp_state: "wp m (\<lambda>_. P) (\<lambda>_. P) s \<longleftrightarrow> P (snd (m s))"
  by (auto simp: wp_def split: prod.splits sum.splits)

section \<open>Programs that only read\<close>

definition reads :: "('s, 'a) prog \<Rightarrow> bool" where
  "reads m \<longleftrightarrow> (\<forall>s. snd (m s) = s)"

lemma reads_wp: "reads m \<Longrightarrow> wp m Q E s = (case fst (m s) of Inl e \<Rightarrow> E e s | Inr x \<Rightarrow> Q x s)"
  by (auto simp: reads_def wp_def split: prod.splits sum.splits) (metis snd_conv)+

lemma reads_any: "reads m \<Longrightarrow> (\<And>x. Q x s) \<Longrightarrow> (\<And>e. E e s) \<Longrightarrow> wp m Q E s"
  by (simp add: reads_wp split: sum.split)

lemma reads_blocks [intro, simp]:
  "reads (return x)" "reads (raise e)" "reads (refuse n d)" "reads (gets f)" "reads (lift_res r)" "reads (check b n d)"
  by (simp_all add: reads_def refuse_def lift_res_def check_def)

lemma reads_seq [intro]:
  assumes "reads m" and "\<And>x. reads (f x)"
  shows "reads (seq m f)"
proof -
  have "snd (seq m f s) = s" for s
  proof (cases "m s")
    case (Pair r s')
    then have "s' = s" using assms(1) by (metis reads_def snd_conv)
    then show ?thesis using assms(2) Pair by (cases r) (simp_all add: seq_def reads_def)
  qed
  then show ?thesis by (simp add: reads_def)
qed

lemma reads_if [intro]: "reads m \<Longrightarrow> reads n \<Longrightarrow> reads (if b then m else n)"
  by simp

lemma reads_case_option [intro]: "reads m \<Longrightarrow> (\<And>x. reads (f x)) \<Longrightarrow> reads (case y of None \<Rightarrow> m | Some x \<Rightarrow> f x)"
  by (cases y) simp_all

lemma reads_case_prod [intro]: "(\<And>a b. reads (f a b)) \<Longrightarrow> reads (case y of (a, b) \<Rightarrow> f a b)"
  by (cases y) simp

lemma reads_case_sum [intro]: "(\<And>a. reads (f a)) \<Longrightarrow> (\<And>b. reads (g b)) \<Longrightarrow> reads (case y of Inl a \<Rightarrow> f a | Inr b \<Rightarrow> g b)"
  by (cases y) simp_all

lemma reads_let: "(\<And>x. reads (f x)) \<Longrightarrow> reads (let x = y in f x)"
  by simp

lemmas reads_rules = reads_blocks reads_seq reads_if reads_case_option reads_case_prod reads_case_sum reads_let

end
