(* ===== verification/OAuth.thy ===== *)
theory OAuth
  imports Queries Jwt Programs
begin

text \<open>
  The OAuth 2.0 authorisation server: \<open>backend/src/routes/oauth.py\<close> over the tables of
  \<open>backend/src/db_oauth.py\<close>, and the resolution of a bearer token in \<open>backend/src/middleware/auth.py\<close>.
  Random values (\<open>uuid7\<close>, \<open>secrets\<close>) are arguments; the body of a request arrives parsed.
\<close>

section \<open>Tables\<close>

record oauth_client = base_object +
  ocl_name :: string
  ocl_client_id :: string
  ocl_client_secret_hash :: string
  ocl_redirect_uris :: "string list"
  ocl_scopes :: "oauth_scope list"
  ocl_created_by_uid :: uid
  ocl_active :: bool
  ocl_email_purpose :: "string option"

record oauth_authorization_code = base_object +
  oac_code :: string
  oac_client_id :: string
  oac_user_uid :: uid
  oac_redirect_uri :: string
  oac_scopes :: "oauth_scope list"
  oac_tournament_uid :: "uid option"
  oac_code_challenge :: string
  oac_expires_at :: instant
  oac_used :: bool

text \<open>The server: the tables of the rest of the application and the two tables only OAuth uses\<close>

record auth_server =
  as_db :: db
  as_clients :: "oauth_client list"
  as_codes :: "oauth_authorization_code list"

definition insert_oauth_client :: "oauth_client \<Rightarrow> auth_server \<Rightarrow> (unit \<times> auth_server) res" where
  "insert_oauth_client c s =
     (if list_ex (\<lambda>x. uid x = uid c) (as_clients s) then Inl (UniqueViolation ''oauth_clients_pkey'')
      else if list_ex (\<lambda>x. ocl_client_id x = ocl_client_id c) (as_clients s)
        then Inl (UniqueViolation ''idx_oauth_clients_client_id'')
      else Inr ((), s\<lparr>as_clients := as_clients s @ [c]\<rparr>))"

text \<open>Every caller keeps the uid and the \<open>client_id\<close>, so the indexes are not at stake.\<close>

definition update_oauth_client :: "oauth_client \<Rightarrow> auth_server \<Rightarrow> auth_server" where
  "update_oauth_client c s = s\<lparr>as_clients := map (\<lambda>x. if uid x = uid c then c else x) (as_clients s)\<rparr>"

definition get_oauth_client_by_client_id :: "auth_server \<Rightarrow> string \<Rightarrow> oauth_client option" where
  "get_oauth_client_by_client_id s c = find (\<lambda>x. ocl_client_id x = c) (as_clients s)"

definition get_oauth_clients_by_owner :: "auth_server \<Rightarrow> uid \<Rightarrow> oauth_client list" where
  "get_oauth_clients_by_owner s u = rev (sort_key modified (filter (\<lambda>x. ocl_created_by_uid x = u) (as_clients s)))"

definition insert_oauth_code :: "oauth_authorization_code \<Rightarrow> auth_server \<Rightarrow> auth_server" where
  "insert_oauth_code c s = s\<lparr>as_codes := as_codes s @ [c]\<rparr>"

definition get_oauth_code :: "auth_server \<Rightarrow> string \<Rightarrow> oauth_authorization_code option" where
  "get_oauth_code s c = find (\<lambda>x. oac_code x = c) (as_codes s)"

definition update_oauth_code :: "oauth_authorization_code \<Rightarrow> auth_server \<Rightarrow> auth_server" where
  "update_oauth_code c s = s\<lparr>as_codes := map (\<lambda>x. if uid x = uid c then c else x) (as_codes s)\<rparr>"

text \<open>The other tables are those of the database; \<open>on_tables\<close> changes them.\<close>

definition on_tables :: "(db \<Rightarrow> db) \<Rightarrow> auth_server \<Rightarrow> auth_server" where
  "on_tables f s = s\<lparr>as_db := f (as_db s)\<rparr>"

definition insert_oauth_token :: "oauth_token \<Rightarrow> db \<Rightarrow> db" where
  "insert_oauth_token t s = s\<lparr>db_tokens := db_tokens s @ [t]\<rparr>"

definition get_oauth_token_by_jti :: "db \<Rightarrow> string \<Rightarrow> oauth_token option" where
  "get_oauth_token_by_jti s j = find (\<lambda>x. ot_token_jti x = j) (db_tokens s)"

definition update_oauth_token :: "oauth_token \<Rightarrow> db \<Rightarrow> db" where
  "update_oauth_token t s = s\<lparr>db_tokens := map (\<lambda>x. if uid x = uid t then t else x) (db_tokens s)\<rparr>"

definition in_chain :: "uid \<Rightarrow> oauth_token \<Rightarrow> bool" where
  "in_chain p x \<longleftrightarrow> ot_parent_token_uid x = Some p \<or> uid x = p"

definition revoke_oauth_token_chain :: "uid \<Rightarrow> db \<Rightarrow> db" where
  "revoke_oauth_token_chain p s =
     s\<lparr>db_tokens := map (\<lambda>x. if in_chain p x then x\<lparr>ot_revoked := True\<rparr> else x) (db_tokens s)\<rparr>"

definition get_oauth_consent :: "db \<Rightarrow> uid \<Rightarrow> string \<Rightarrow> uid option \<Rightarrow> oauth_consent option" where
  "get_oauth_consent s u c t =
     find (\<lambda>x. oc_user_uid x = u \<and> oc_client_id x = c \<and> oc_tournament_uid x = t) (map snd (db_consents s))"

text \<open>A row is updated by the uid its document holds, which need not be the uid of the row.\<close>

definition upsert_oauth_consent :: "oauth_consent \<Rightarrow> db \<Rightarrow> db" where
  "upsert_oauth_consent c s = (case get_oauth_consent s (oc_user_uid c) (oc_client_id c) (oc_tournament_uid c) of
     Some existing \<Rightarrow> s\<lparr>db_consents := map (\<lambda>(k, x). (k, if k = uid existing then c else x)) (db_consents s)\<rparr>
   | None \<Rightarrow> s\<lparr>db_consents := db_consents s @ [(uid c, c)]\<rparr>)"

definition holds_any :: "oauth_scope list \<Rightarrow> oauth_scope list \<Rightarrow> bool" where
  "holds_any scopes xs \<longleftrightarrow> list_ex (\<lambda>s. s \<in> set scopes) xs"

definition revoke_oauth_tokens_with_scopes :: "string \<Rightarrow> oauth_scope list \<Rightarrow> db \<Rightarrow> db" where
  "revoke_oauth_tokens_with_scopes c scopes s =
     s\<lparr>db_tokens := map (\<lambda>x. if ot_client_id x = c \<and> holds_any scopes (ot_scopes x) then x\<lparr>ot_revoked := True\<rparr> else x) (db_tokens s)\<rparr>"

definition strip_oauth_consent_scopes :: "string \<Rightarrow> oauth_scope list \<Rightarrow> db \<Rightarrow> db" where
  "strip_oauth_consent_scopes c scopes s =
     (let stripped = map (\<lambda>(k, x). (k, if oc_client_id x = c \<and> holds_any scopes (oc_scopes x)
            then x\<lparr>oc_scopes := filter (\<lambda>y. y \<notin> set scopes) (oc_scopes x)\<rparr> else x)) (db_consents s)
      in s\<lparr>db_consents := filter (\<lambda>(_, x). \<not> (oc_client_id x = c
           \<and> (oc_scopes x = [] \<or> oc_tournament_uid x \<noteq> None \<and> EVENT_RUN \<notin> set (oc_scopes x)))) stripped\<rparr>)"

definition cleanup_expired_oauth_codes :: "instant \<Rightarrow> auth_server \<Rightarrow> auth_server" where
  "cleanup_expired_oauth_codes now s = s\<lparr>as_codes := filter (\<lambda>x. \<not> oac_expires_at x < now) (as_codes s)\<rparr>"

definition cleanup_expired_oauth_tokens :: "instant \<Rightarrow> db \<Rightarrow> db" where
  "cleanup_expired_oauth_tokens now s =
     s\<lparr>db_tokens := filter (\<lambda>x. \<not> plus_days 7 (ot_expires_at x) < now) (db_tokens s)\<rparr>"

section \<open>The middleware\<close>

record http_request =
  rq_authorization :: "string option"
  rq_method :: string
  rq_path :: string
  rq_tournament_param :: "string option"

text \<open>What the middleware leaves on \<open>request.state\<close>; all absent for a first-party session\<close>

record request_state =
  rs_scopes :: "string list option"
  rs_client_id :: "string option"
  rs_tournament :: "uid option"

record auth_config =
  ac_jwt :: jwt_library
  ac_env :: process_env
  ac_verify :: "string \<Rightarrow> string \<Rightarrow> bool"
  ac_hash :: "string \<Rightarrow> string"

definition OAUTH_BARRED_SUBPATHS :: "string list" where
  "OAUTH_BARRED_SUBPATHS = [''organizers'', ''push-vekn'', ''go-offline'', ''go-online'', ''force-takeover'',
     ''force-unlock'', ''sync-offline'', ''qr-checkin'', ''archon-import'']"

definition strip_slashes :: "string \<Rightarrow> string" where
  "strip_slashes s = rev (dropWhile (\<lambda>c. c = CHR ''/'') (rev (dropWhile (\<lambda>c. c = CHR ''/'') s)))"

fun split_slashes :: "string \<Rightarrow> string \<Rightarrow> string list" where
  "split_slashes w [] = [w]"
| "split_slashes w (c # cs) = (if c = CHR ''/'' then w # split_slashes [] cs else split_slashes (w @ [c]) cs)"

definition oauth_allows :: "http_request \<Rightarrow> uid \<Rightarrow> bool" where
  "oauth_allows rq t =
     (let path = rq_path rq
      in if starts_with path ''/oauth/'' then True
         else if path = ''/sanctions'' then rq_method rq = ''POST''
         else if path = ''/sanctions/reference'' then rq_method rq = ''GET''
         else if path = ''/stream'' then rq_tournament_param rq = Some t
         else let segments = split_slashes [] (strip_slashes path)
              in if take 3 segments \<noteq> [''api'', ''tournaments'', t] then False
                 else if rq_method rq = ''DELETE'' \<and> length segments = 3 then False
                 else length segments < 4 \<or> segments ! 3 \<notin> set OAUTH_BARRED_SUBPATHS)"

definition oauth_gate :: "http_request \<Rightarrow> string list \<Rightarrow> uid option \<Rightarrow> (auth_server, unit) prog" where
  "oauth_gate rq scopes tournament =
     (case tournament of
        Some t \<Rightarrow> if ''event:run'' \<in> set scopes \<and> t \<noteq> []
          then check (oauth_allows rq t) 403 ''This token acts only on the tournament it was granted for''
          else check (starts_with (rq_path rq) ''/oauth/'') 403 ''This token names no event: it reaches the OAuth endpoints only''
      | None \<Rightarrow> check (starts_with (rq_path rq) ''/oauth/'') 403 ''This token names no event: it reaches the OAuth endpoints only'')"

definition bearer_claims ::
    "auth_config \<Rightarrow> instant \<Rightarrow> http_request \<Rightarrow> claims \<Rightarrow> (auth_server, uid \<times> request_state) prog" where
  "bearer_claims cfg now rq c =
     (if cl_type c = Some ''access'' then
        (if \<not> truthy_str (cl_sub c) then refuse 401 ''Invalid token payload''
         else return (str_default (cl_sub c), \<lparr>rs_scopes = None, rs_client_id = None, rs_tournament = None\<rparr>))
      else if cl_type c = Some ''oauth_access'' then
        (if \<not> truthy_str (cl_sub c) \<or> \<not> truthy_str (cl_jti c) \<or> \<not> truthy_str (cl_client_id c)
         then refuse 401 ''Invalid OAuth token payload''
         else seq (gets (\<lambda>s. get_oauth_token_by_jti (as_db s) (str_default (cl_jti c)))) (\<lambda>found.
           if (case found of None \<Rightarrow> True | Some r \<Rightarrow> ot_revoked r) then refuse 401 ''Token has been revoked''
           else let scopes = words [] (str_default (cl_scope c))
                in seq (oauth_gate rq scopes (cl_tournament c)) (\<lambda>_.
                   return (str_default (cl_sub c),
                     \<lparr>rs_scopes = Some scopes, rs_client_id = cl_client_id c, rs_tournament = cl_tournament c\<rparr>))))
      else refuse 401 ''Invalid token type'')"

definition get_current_user ::
    "auth_config \<Rightarrow> instant \<Rightarrow> http_request \<Rightarrow> (auth_server, user \<times> request_state) prog" where
  "get_current_user cfg now rq =
     (case rq_authorization rq of
        None \<Rightarrow> refuse 401 ''Missing or invalid authorization header''
      | Some h \<Rightarrow>
          if \<not> starts_with h ''Bearer '' then refuse 401 ''Missing or invalid authorization header''
          else seq (lift_res (decode (ac_jwt cfg) (ac_env cfg) now (drop 7 h) AUDIENCE_APP True)) (\<lambda>v. case v of
             Expired \<Rightarrow> refuse 401 ''Token expired''
           | Invalid \<Rightarrow> refuse 401 ''Invalid token''
           | Valid c \<Rightarrow> seq (bearer_claims cfg now rq c) (\<lambda>(u, st).
               seq (gets (\<lambda>s. get_user_by_uid (as_db s) u)) (\<lambda>found. case found of
                  None \<Rightarrow> refuse 401 ''User not found''
                | Some usr \<Rightarrow> if is_active_account (Some usr) then return (usr, st) else refuse 401 ''User not found''))))"

definition get_optional_user :: "auth_config \<Rightarrow> instant \<Rightarrow> http_request \<Rightarrow> (auth_server, user option) prog" where
  "get_optional_user cfg now rq s =
     (if \<not> starts_with (str_default (rq_authorization rq)) ''Bearer '' then (Inr None, s)
      else case get_current_user cfg now rq s of
        (Inr (usr, _), s') \<Rightarrow> (Inr (Some usr), s')
      | (Inl (HTTPException n d), s') \<Rightarrow> (Inr None, s')
      | (Inl e, s') \<Rightarrow> (Inl e, s'))"

definition require_first_party :: "request_state \<Rightarrow> string \<Rightarrow> (auth_server, unit) prog" where
  "require_first_party st detail = check (rs_scopes st = None) 403 detail"

section \<open>Helpers of the routes\<close>

definition plus_micros :: "int \<Rightarrow> instant \<Rightarrow> instant" where
  "plus_micros n t = (let m = i_time t + n
     in plus_days (nat (m div 86400000000)) (Instant (i_year t) (i_month t) (i_day t) (m mod 86400000000)))"

definition ACCESS_TOKEN_LIFETIME :: int where "ACCESS_TOKEN_LIFETIME = 3600000000"
definition CLIENT_TOKEN_LIFETIME :: int where "CLIENT_TOKEN_LIFETIME = 3600000000"
definition REFRESH_TOKEN_LIFETIME :: int where "REFRESH_TOKEN_LIFETIME = 30 * 86400000000"
definition AUTH_CODE_LIFETIME :: int where "AUTH_CODE_LIFETIME = 60000000"

definition verify_pkce :: "string \<Rightarrow> string \<Rightarrow> bool res" where
  "verify_pkce code_verifier code_challenge =
     bind_res (ascii_encode code_verifier) (\<lambda>raw. Inr (b64url (sha256 raw) = code_challenge))"

definition no_claims :: claims where
  "no_claims = \<lparr>cl_sub = None, cl_type = None, cl_scope = None, cl_client_id = None, cl_jti = None,
     cl_tournament = None, cl_iat = None, cl_exp = None\<rparr>"

definition scope_string :: "oauth_scope list \<Rightarrow> string" where
  "scope_string scopes = join '' '' (map oauth_scope_value scopes)"

definition oauth_claims ::
    "instant \<Rightarrow> uid \<Rightarrow> string \<Rightarrow> oauth_scope list \<Rightarrow> string \<Rightarrow> string \<Rightarrow> int \<Rightarrow> uid option \<Rightarrow> claims" where
  "oauth_claims now u token_type scopes client jti lifetime tournament =
     \<lparr>cl_sub = Some u, cl_type = Some (''oauth_'' @ token_type), cl_scope = Some (scope_string scopes),
      cl_client_id = Some client, cl_jti = Some jti, cl_tournament = (if truthy_str tournament then tournament else None),
      cl_iat = Some now, cl_exp = Some (plus_micros lifetime now)\<rparr>"

definition create_oauth_jwt ::
    "auth_config \<Rightarrow> instant \<Rightarrow> uid \<Rightarrow> string \<Rightarrow> oauth_scope list \<Rightarrow> string \<Rightarrow> string \<Rightarrow> int \<Rightarrow> uid option \<Rightarrow> string res" where
  "create_oauth_jwt cfg now u token_type scopes client jti lifetime tournament =
     sign (ac_jwt cfg) (ac_env cfg) (oauth_claims now u token_type scopes client jti lifetime tournament)
       (if token_type = ''access'' then [AUDIENCE_APP, AUDIENCE_API] else [AUDIENCE_APP])"

definition oauth_scope_of :: "string \<Rightarrow> oauth_scope option" where
  "oauth_scope_of v = find (\<lambda>s. oauth_scope_value s = v) [PROFILE_READ, PROFILE_EMAIL, EVENT_RUN, API_READ]"

definition scope_or_refuse :: "string \<Rightarrow> oauth_scope res" where
  "scope_or_refuse v = (case oauth_scope_of v of
     Some s \<Rightarrow> Inr s | None \<Rightarrow> Inl (HTTPException 400 (''Invalid scope: '' @ v)))"

definition parse_scopes :: "string \<Rightarrow> (oauth_scope list) res" where
  "parse_scopes v = map_res scope_or_refuse (words [] v)"

definition grant_tournament :: "oauth_scope list \<Rightarrow> string \<Rightarrow> (auth_server, tournament option) prog" where
  "grant_tournament scopes t =
     (if EVENT_RUN \<notin> set scopes \<and> t \<noteq> [] then refuse 400 ''tournament requires the event:run scope''
      else if t = [] then return None
      else seq (gets (\<lambda>s. get_tournament_by_uid (as_db s) t)) (\<lambda>found. case found of
             None \<Rightarrow> refuse 400 ''Unknown tournament''
           | Some e \<Rightarrow> if t_state e = T_FINISHED then refuse 400 ''Tournament is finished'' else return (Some e)))"

text \<open>\<open>urlencode\<close> of a dictionary of strings, which are UTF-8 bytes here\<close>

definition hex_digit :: "nat \<Rightarrow> char" where
  "hex_digit n = ''0123456789ABCDEF'' ! n"

definition url_safe :: "char \<Rightarrow> bool" where
  "url_safe c \<longleftrightarrow> (let n = (of_char c :: nat) in 65 \<le> n \<and> n \<le> 90 \<or> 97 \<le> n \<and> n \<le> 122 \<or> 48 \<le> n \<and> n \<le> 57)
     \<or> c \<in> set ''_.-~''"

definition quote_plus :: "string \<Rightarrow> string" where
  "quote_plus s = concat (map (\<lambda>c. if url_safe c then [c] else if c = CHR '' '' then ''+''
     else let n = (of_char c :: nat) in [CHR ''%'', hex_digit (n div 16), hex_digit (n mod 16)]) s)"

definition urlencode :: "(string \<times> string) list \<Rightarrow> string" where
  "urlencode ps = join ''&'' (map (\<lambda>(k, v). quote_plus k @ ''='' @ quote_plus v) ps)"

definition redirect_url :: "string \<Rightarrow> string \<Rightarrow> string \<Rightarrow> string \<Rightarrow> string" where
  "redirect_url uri k v state =
     uri @ ''?'' @ urlencode ((k, v) # (if state = [] then [] else [(''state'', state)]))"

section \<open>The authorisation endpoint\<close>

record authorize_query =
  aq_response_type :: string
  aq_client_id :: string
  aq_redirect_uri :: string
  aq_scope :: string
  aq_state :: string
  aq_code_challenge :: string
  aq_code_challenge_method :: string
  aq_tournament :: string

record consent_prompt =
  pr_client_name :: string
  pr_scopes :: "string list"
  pr_scope_descriptions :: "(string \<times> string) list"
  pr_redirect_uri :: string
  pr_state :: string
  pr_client_id :: string
  pr_code_challenge :: string
  pr_tournament :: "uid option"
  pr_tournament_name :: "string option"
  pr_email_purpose :: "string option"

datatype authorize_reply = Redirect string | Prompt consent_prompt

definition CONSENT_DETAIL :: string where
  "CONSENT_DETAIL = ''Consent management requires a first-party session''"

definition client_or_refuse :: "nat \<Rightarrow> string \<Rightarrow> string \<Rightarrow> (auth_server, oauth_client) prog" where
  "client_or_refuse n d c = seq (gets (\<lambda>s. get_oauth_client_by_client_id s c)) (\<lambda>found. case found of
     None \<Rightarrow> refuse n d
   | Some client \<Rightarrow> if ocl_active client then return client else refuse n d)"

text \<open>The checks the two halves of the endpoint share: the client, the redirect URI, the scopes\<close>

definition requested_scopes :: "oauth_client \<Rightarrow> string \<Rightarrow> string \<Rightarrow> (auth_server, oauth_scope list) prog" where
  "requested_scopes client uri scope =
     seq (check (uri \<in> set (ocl_redirect_uris client)) 400 ''Invalid redirect_uri'') (\<lambda>_.
     seq (lift_res (parse_scopes scope)) (\<lambda>scopes.
     seq (case find (\<lambda>x. x \<notin> set (ocl_scopes client)) scopes of
            Some x \<Rightarrow> refuse 400 (''Scope '' @ oauth_scope_value x @ '' not allowed for this client'')
          | None \<Rightarrow> return ()) (\<lambda>_.
     seq (check (API_READ \<notin> set scopes) 400 ''api:read is a client_credentials scope'') (\<lambda>_. return scopes))))"

definition new_code ::
    "instant \<Rightarrow> uid \<Rightarrow> string \<Rightarrow> string \<Rightarrow> uid \<Rightarrow> string \<Rightarrow> oauth_scope list \<Rightarrow> uid option \<Rightarrow> string \<Rightarrow> oauth_authorization_code" where
  "new_code now k value client u uri scopes tournament challenge =
     \<lparr>uid = k, modified = now, deleted_at = None, oac_code = value, oac_client_id = client, oac_user_uid = u,
      oac_redirect_uri = uri, oac_scopes = scopes, oac_tournament_uid = tournament, oac_code_challenge = challenge,
      oac_expires_at = plus_micros AUTH_CODE_LIFETIME now, oac_used = False\<rparr>"

definition issue_code ::
    "instant \<Rightarrow> uid \<Rightarrow> string \<Rightarrow> string \<Rightarrow> uid \<Rightarrow> string \<Rightarrow> oauth_scope list \<Rightarrow> uid option \<Rightarrow> string \<Rightarrow> string
      \<Rightarrow> (auth_server, authorize_reply) prog" where
  "issue_code now k value client u uri scopes tournament challenge state =
     seq (modify (insert_oauth_code (new_code now k value client u uri scopes tournament challenge))) (\<lambda>_.
     return (Redirect (redirect_url uri ''code'' value state)))"

text \<open>Its three bytes\<close>

definition em_dash :: string where
  "em_dash = [CHR 0xE2, CHR 0x80, CHR 0x94]"

definition prompt_of :: "oauth_client \<Rightarrow> authorize_query \<Rightarrow> oauth_scope list \<Rightarrow> tournament option \<Rightarrow> consent_prompt" where
  "prompt_of client q scopes event = \<lparr>pr_client_name = ocl_name client, pr_scopes = map oauth_scope_value scopes,
     pr_scope_descriptions =
       [(oauth_scope_value PROFILE_READ, ''Read your basic profile (roles, VEKN ID)''),
        (oauth_scope_value PROFILE_EMAIL, ''Read your basic profile (roles, VEKN ID) and your verified email address''),
        (oauth_scope_value EVENT_RUN, if event \<noteq> None then ''Act on your behalf on this event''
           else ''Identify you '' @ em_dash @ '' no event access, none is named'')],
     pr_redirect_uri = aq_redirect_uri q, pr_state = aq_state q, pr_client_id = aq_client_id q,
     pr_code_challenge = aq_code_challenge q, pr_tournament = map_option uid event,
     pr_tournament_name = map_option t_name event,
     pr_email_purpose = (if PROFILE_EMAIL \<in> set scopes then ocl_email_purpose client else None)\<rparr>"

definition authorize_get ::
    "auth_config \<Rightarrow> instant \<Rightarrow> uid \<Rightarrow> string \<Rightarrow> http_request \<Rightarrow> authorize_query \<Rightarrow> (auth_server, authorize_reply) prog" where
  "authorize_get cfg now k value rq q =
     seq (get_current_user cfg now rq) (\<lambda>(usr, st).
     seq (require_first_party st CONSENT_DETAIL) (\<lambda>_.
     seq (check (aq_response_type q = ''code'') 400 ''Only response_type=code is supported'') (\<lambda>_.
     seq (check (aq_code_challenge q \<noteq> [] \<and> aq_code_challenge_method q = ''S256'') 400 ''PKCE with S256 is required'') (\<lambda>_.
     seq (client_or_refuse 400 ''Invalid client_id'' (aq_client_id q)) (\<lambda>client.
     seq (requested_scopes client (aq_redirect_uri q) (aq_scope q)) (\<lambda>scopes.
     seq (grant_tournament scopes (aq_tournament q)) (\<lambda>event.
     seq (gets (\<lambda>s. get_oauth_consent (as_db s) (uid usr) (aq_client_id q) (map_option uid event))) (\<lambda>consent.
       if (case consent of None \<Rightarrow> False | Some c \<Rightarrow> set scopes \<subseteq> set (oc_scopes c))
       then issue_code now k value (aq_client_id q) (uid usr) (aq_redirect_uri q) scopes (map_option uid event)
              (aq_code_challenge q) (aq_state q)
       else return (Prompt (prompt_of client q scopes event))))))))))"

record approval_request =
  ap_client_id :: string
  ap_redirect_uri :: string
  ap_scope :: string
  ap_state :: string
  ap_code_challenge :: string
  ap_tournament :: string
  ap_approved :: bool

definition new_consent :: "instant \<Rightarrow> uid \<Rightarrow> uid \<Rightarrow> string \<Rightarrow> oauth_scope list \<Rightarrow> uid option \<Rightarrow> oauth_consent" where
  "new_consent now k u client scopes tournament = \<lparr>uid = k, modified = now, deleted_at = None, oc_user_uid = u,
     oc_client_id = client, oc_scopes = scopes, oc_tournament_uid = tournament\<rparr>"

definition authorize_post ::
    "auth_config \<Rightarrow> instant \<Rightarrow> uid \<Rightarrow> uid \<Rightarrow> string \<Rightarrow> http_request \<Rightarrow> approval_request \<Rightarrow> (auth_server, authorize_reply) prog" where
  "authorize_post cfg now consent_uid k value rq b =
     seq (get_current_user cfg now rq) (\<lambda>(usr, st).
     seq (require_first_party st CONSENT_DETAIL) (\<lambda>_.
     seq (client_or_refuse 400 ''Invalid client_id'' (ap_client_id b)) (\<lambda>client.
     seq (requested_scopes client (ap_redirect_uri b) (ap_scope b)) (\<lambda>scopes.
     if \<not> ap_approved b
     then return (Redirect (redirect_url (ap_redirect_uri b) ''error'' ''access_denied'' (ap_state b)))
     else
       seq (check (ap_code_challenge b \<noteq> []) 400 ''PKCE code_challenge is required'') (\<lambda>_.
       seq (grant_tournament scopes (ap_tournament b)) (\<lambda>event.
       seq (modify (on_tables (upsert_oauth_consent
              (new_consent now consent_uid (uid usr) (ap_client_id b) scopes (map_option uid event))))) (\<lambda>_.
       issue_code now k value (ap_client_id b) (uid usr) (ap_redirect_uri b) scopes (map_option uid event)
         (ap_code_challenge b) (ap_state b))))))))"

section \<open>The token endpoint\<close>

record token_request =
  tr_grant_type :: string
  tr_client_id :: string
  tr_client_secret :: string
  tr_code :: string
  tr_redirect_uri :: string
  tr_code_verifier :: string
  tr_refresh_token :: string
  tr_scope :: string

record token_reply =
  tp_access_token :: string
  tp_refresh_token :: "string option"
  tp_expires_in :: int
  tp_scope :: string

text \<open>The values drawn for a pair: the two \<open>jti\<close> and the uids of the two records\<close>

record token_ids =
  ti_access_jti :: string
  ti_refresh_jti :: string
  ti_access_uid :: uid
  ti_refresh_uid :: uid

definition access_record ::
    "instant \<Rightarrow> token_ids \<Rightarrow> uid \<Rightarrow> string \<Rightarrow> oauth_scope list \<Rightarrow> uid option \<Rightarrow> uid option \<Rightarrow> oauth_token" where
  "access_record now ids u client scopes tournament parent =
     \<lparr>uid = ti_access_uid ids, modified = now, deleted_at = None, ot_token_jti = ti_access_jti ids, ot_client_id = client,
      ot_user_uid = u, ot_scopes = scopes, ot_tournament_uid = tournament, ot_token_type = ''access'',
      ot_expires_at = plus_micros ACCESS_TOKEN_LIFETIME now, ot_revoked = False, ot_parent_token_uid = parent\<rparr>"

definition refresh_record ::
    "instant \<Rightarrow> token_ids \<Rightarrow> uid \<Rightarrow> string \<Rightarrow> oauth_scope list \<Rightarrow> uid option \<Rightarrow> uid option \<Rightarrow> oauth_token" where
  "refresh_record now ids u client scopes tournament parent =
     \<lparr>uid = ti_refresh_uid ids, modified = now, deleted_at = None, ot_token_jti = ti_refresh_jti ids, ot_client_id = client,
      ot_user_uid = u, ot_scopes = scopes, ot_tournament_uid = tournament, ot_token_type = ''refresh'',
      ot_expires_at = plus_micros REFRESH_TOKEN_LIFETIME now, ot_revoked = False,
      ot_parent_token_uid = or_str parent (Some (ti_access_uid ids))\<rparr>"

definition issue_token_pair ::
    "auth_config \<Rightarrow> instant \<Rightarrow> token_ids \<Rightarrow> uid \<Rightarrow> string \<Rightarrow> oauth_scope list \<Rightarrow> uid option \<Rightarrow> uid option
      \<Rightarrow> (auth_server, token_reply) prog" where
  "issue_token_pair cfg now ids u client scopes tournament parent =
     seq (lift_res (create_oauth_jwt cfg now u ''access'' scopes client (ti_access_jti ids) ACCESS_TOKEN_LIFETIME tournament)) (\<lambda>access.
     seq (lift_res (create_oauth_jwt cfg now u ''refresh'' scopes client (ti_refresh_jti ids) REFRESH_TOKEN_LIFETIME tournament)) (\<lambda>refresh.
     seq (modify (on_tables (insert_oauth_token (access_record now ids u client scopes tournament parent)))) (\<lambda>_.
     seq (modify (on_tables (insert_oauth_token (refresh_record now ids u client scopes tournament parent)))) (\<lambda>_.
     return \<lparr>tp_access_token = access, tp_refresh_token = Some refresh, tp_expires_in = ACCESS_TOKEN_LIFETIME div 1000000,
       tp_scope = scope_string scopes\<rparr>))))"

text \<open>
  The exchange of a code, up to the statement that marks it used (what it returns is the code it
  read), and from there on.
\<close>

definition code_checked ::
    "auth_config \<Rightarrow> instant \<Rightarrow> token_request \<Rightarrow> oauth_client \<Rightarrow> (auth_server, oauth_authorization_code) prog" where
  "code_checked cfg now b client =
     seq (check (tr_code b \<noteq> [] \<and> tr_redirect_uri b \<noteq> [] \<and> tr_code_verifier b \<noteq> []) 400 ''Missing required parameters'') (\<lambda>_.
     seq (gets (\<lambda>s. get_oauth_code s (tr_code b))) (\<lambda>found. case found of
       None \<Rightarrow> refuse 400 ''Invalid authorization code''
     | Some c \<Rightarrow>
         seq (check (\<not> oac_used c) 400 ''Authorization code already used'') (\<lambda>_.
         seq (check (oac_client_id c = ocl_client_id client) 400 ''Client mismatch'') (\<lambda>_.
         seq (check (oac_redirect_uri c = tr_redirect_uri b) 400 ''Redirect URI mismatch'') (\<lambda>_.
         seq (check (tr_redirect_uri b \<in> set (ocl_redirect_uris client)) 400 ''Invalid redirect_uri'') (\<lambda>_.
         seq (check (set (oac_scopes c) \<subseteq> set (ocl_scopes client)) 400 ''Scope no longer allowed'') (\<lambda>_.
         seq (check (\<not> oac_expires_at c < now) 400 ''Authorization code expired'') (\<lambda>_.
         seq (lift_res (verify_pkce (tr_code_verifier b) (oac_code_challenge c))) (\<lambda>ok.
         seq (check ok 400 ''Invalid code_verifier (PKCE)'') (\<lambda>_.
         seq (gets (\<lambda>s. get_oauth_consent (as_db s) (oac_user_uid c) (ocl_client_id client) (oac_tournament_uid c))) (\<lambda>consent.
         seq (check (consent \<noteq> None) 400 ''Consent has been revoked'') (\<lambda>_. return c))))))))))))"

definition code_redeemed ::
    "auth_config \<Rightarrow> instant \<Rightarrow> token_ids \<Rightarrow> oauth_client \<Rightarrow> oauth_authorization_code \<Rightarrow> (auth_server, token_reply) prog" where
  "code_redeemed cfg now ids client c =
     seq (modify (update_oauth_code (c\<lparr>modified := now, deleted_at := None, oac_used := True\<rparr>))) (\<lambda>_.
     issue_token_pair cfg now ids (oac_user_uid c) (ocl_client_id client) (oac_scopes c) (oac_tournament_uid c) None)"

definition handle_authorization_code ::
    "auth_config \<Rightarrow> instant \<Rightarrow> token_ids \<Rightarrow> token_request \<Rightarrow> oauth_client \<Rightarrow> (auth_server, token_reply) prog" where
  "handle_authorization_code cfg now ids b client = seq (code_checked cfg now b client) (code_redeemed cfg now ids client)"

definition refresh_claims :: "auth_config \<Rightarrow> instant \<Rightarrow> string \<Rightarrow> (auth_server, claims) prog" where
  "refresh_claims cfg now token =
     seq (lift_res (decode (ac_jwt cfg) (ac_env cfg) now token AUDIENCE_APP True)) (\<lambda>v. case v of
        Expired \<Rightarrow> refuse 400 ''Refresh token expired''
      | Invalid \<Rightarrow> refuse 400 ''Invalid refresh token''
      | Valid c \<Rightarrow> return c)"

definition event_open :: "uid option \<Rightarrow> (auth_server, unit) prog" where
  "event_open tournament =
     (if \<not> truthy_str tournament then return ()
      else seq (gets (\<lambda>s. get_tournament_by_uid (as_db s) (str_default tournament))) (\<lambda>event.
        check (case event of None \<Rightarrow> False | Some e \<Rightarrow> t_state e \<noteq> T_FINISHED) 400 ''Tournament is finished''))"

definition token_scopes :: "oauth_client \<Rightarrow> claims \<Rightarrow> (auth_server, oauth_scope list) prog" where
  "token_scopes client c =
     seq (case map_res scope_or_refuse (words [] (str_default (cl_scope c))) of
            Inl _ \<Rightarrow> refuse 400 ''Token carries a scope this build no longer issues''
          | Inr scopes \<Rightarrow> return scopes) (\<lambda>scopes.
     seq (check (set scopes \<subseteq> set (ocl_scopes client)) 400 ''Scope no longer allowed'') (\<lambda>_. return scopes))"

text \<open>The reuse of a revoked token\<close>

definition reused_token :: "oauth_token \<Rightarrow> (auth_server, 'a) prog" where
  "reused_token r = seq (modify (on_tables (if truthy_str (ot_parent_token_uid r)
       then revoke_oauth_token_chain (str_default (ot_parent_token_uid r)) else id))) (\<lambda>_.
     refuse 400 ''Refresh token has been revoked'')"

definition rotate ::
    "auth_config \<Rightarrow> instant \<Rightarrow> token_ids \<Rightarrow> oauth_client \<Rightarrow> claims \<Rightarrow> oauth_token \<Rightarrow> (auth_server, token_reply) prog" where
  "rotate cfg now ids client c r =
     (case cl_sub c of
        None \<Rightarrow> raise (KeyError ''sub'')
      | Some u \<Rightarrow>
          seq (gets (\<lambda>s. get_oauth_consent (as_db s) u (ocl_client_id client) (cl_tournament c))) (\<lambda>consent.
          seq (check (consent \<noteq> None) 400 ''Consent has been revoked'') (\<lambda>_.
          seq (event_open (cl_tournament c)) (\<lambda>_.
          seq (modify (on_tables (update_oauth_token (r\<lparr>modified := now, deleted_at := None, ot_revoked := True\<rparr>)))) (\<lambda>_.
          seq (token_scopes client c) (\<lambda>scopes.
          issue_token_pair cfg now ids u (ocl_client_id client) scopes (cl_tournament c)
            (or_str (ot_parent_token_uid r) (Some (uid r)))))))))"

definition handle_refresh_token ::
    "auth_config \<Rightarrow> instant \<Rightarrow> token_ids \<Rightarrow> token_request \<Rightarrow> oauth_client \<Rightarrow> (auth_server, token_reply) prog" where
  "handle_refresh_token cfg now ids b client =
     seq (check (tr_refresh_token b \<noteq> []) 400 ''Missing refresh_token'') (\<lambda>_.
     seq (refresh_claims cfg now (tr_refresh_token b)) (\<lambda>c.
     seq (check (cl_type c = Some ''oauth_refresh'') 400 ''Invalid token type'') (\<lambda>_.
     seq (check (cl_client_id c = Some (ocl_client_id client)) 400 ''Client mismatch'') (\<lambda>_.
     seq (gets (\<lambda>s. get_oauth_token_by_jti (as_db s) (str_default (cl_jti c)))) (\<lambda>found. case found of
        None \<Rightarrow> refuse 400 ''Unknown refresh token''
      | Some r \<Rightarrow> if ot_revoked r then reused_token r else rotate cfg now ids client c r)))))"

definition handle_client_credentials ::
    "auth_config \<Rightarrow> instant \<Rightarrow> token_request \<Rightarrow> oauth_client \<Rightarrow> (auth_server, token_reply) prog" where
  "handle_client_credentials cfg now b client =
     seq (check (API_READ \<in> set (ocl_scopes client)) 400 ''Client is not allowed the api:read scope'') (\<lambda>_.
     seq (if tr_scope b = [] then return ()
          else seq (lift_res (parse_scopes (tr_scope b))) (\<lambda>scopes.
            check (scopes = [API_READ]) 400 ''client_credentials grants api:read and nothing else'')) (\<lambda>_.
     seq (lift_res (sign (ac_jwt cfg) (ac_env cfg)
            (no_claims\<lparr>cl_type := Some ''oauth_client'', cl_client_id := Some (ocl_client_id client),
               cl_scope := Some (oauth_scope_value API_READ), cl_iat := Some now,
               cl_exp := Some (plus_micros CLIENT_TOKEN_LIFETIME now)\<rparr>) [AUDIENCE_API])) (\<lambda>token.
     return \<lparr>tp_access_token = token, tp_refresh_token = None, tp_expires_in = CLIENT_TOKEN_LIFETIME div 1000000,
       tp_scope = oauth_scope_value API_READ\<rparr>)))"

text \<open>The client authenticates by its secret.\<close>

definition authenticated_client :: "auth_config \<Rightarrow> string \<Rightarrow> string \<Rightarrow> (auth_server, oauth_client) prog" where
  "authenticated_client cfg c secret =
     seq (client_or_refuse 401 ''Invalid client credentials'' c) (\<lambda>client.
     seq (check (ac_verify cfg (ocl_client_secret_hash client) secret) 401 ''Invalid client credentials'') (\<lambda>_. return client))"

definition token_endpoint ::
    "auth_config \<Rightarrow> instant \<Rightarrow> token_ids \<Rightarrow> token_request \<Rightarrow> (auth_server, token_reply) prog" where
  "token_endpoint cfg now ids b =
     seq (authenticated_client cfg (tr_client_id b) (tr_client_secret b)) (\<lambda>client.
     if tr_grant_type b = ''authorization_code'' then handle_authorization_code cfg now ids b client
     else if tr_grant_type b = ''refresh_token'' then handle_refresh_token cfg now ids b client
     else if tr_grant_type b = ''client_credentials'' then handle_client_credentials cfg now b client
     else refuse 400 ''Unsupported grant_type'')"

record revoke_request =
  rr_client_id :: string
  rr_client_secret :: string
  rr_token :: string

definition revoke_token :: "auth_config \<Rightarrow> instant \<Rightarrow> revoke_request \<Rightarrow> (auth_server, unit) prog" where
  "revoke_token cfg now b =
     seq (authenticated_client cfg (rr_client_id b) (rr_client_secret b)) (\<lambda>client.
     seq (check (rr_token b \<noteq> []) 400 ''Missing token'') (\<lambda>_.
     seq (lift_res (decode (ac_jwt cfg) (ac_env cfg) now (rr_token b) AUDIENCE_APP False)) (\<lambda>v. case v of
        Valid c \<Rightarrow> seq (gets (\<lambda>s. get_oauth_token_by_jti (as_db s) (str_default (cl_jti c)))) (\<lambda>found. case found of
            None \<Rightarrow> return ()
          | Some r \<Rightarrow> if ot_client_id r = ocl_client_id client
              then modify (on_tables (revoke_oauth_token_chain (str_default (or_str (ot_parent_token_uid r) (Some (uid r))))))
              else return ())
      | _ \<Rightarrow> return ())))"

section \<open>The member's own endpoints\<close>

record user_info =
  ui_sub :: uid
  ui_roles :: "string list"
  ui_vekn_id :: "string option"
  ui_capabilities :: "string list"
  ui_email :: "string option"

text \<open>\<open>sorted(..., reverse=True)\<close> keeps the order of equals.\<close>

definition login_time :: "auth_method \<Rightarrow> instant" where
  "login_time a = (case am_last_used_at a of None \<Rightarrow> am_modified a | Some t \<Rightarrow> t)"

definition verified_email :: "db \<Rightarrow> uid \<Rightarrow> string option" where
  "verified_email s u =
     (let methods = rev (sort_key login_time (rev (get_auth_methods_for_user s u)))
      in case find (\<lambda>a. am_method_type a = AM_EMAIL \<and> am_verified a) methods of
           Some a \<Rightarrow> Some (am_identifier a)
         | None \<Rightarrow> (case find (\<lambda>a. am_method_type a = AM_DISCORD \<and> truthy_str (am_email a)) methods of
             Some a \<Rightarrow> am_email a | None \<Rightarrow> None))"

definition userinfo :: "auth_config \<Rightarrow> instant \<Rightarrow> http_request \<Rightarrow> (auth_server, user_info) prog" where
  "userinfo cfg now rq =
     seq (get_current_user cfg now rq) (\<lambda>(usr, st).
     seq (check (case rs_scopes st of None \<Rightarrow> True
            | Some scopes \<Rightarrow> list_ex (\<lambda>x. x \<in> set scopes) (map oauth_scope_value [PROFILE_READ, PROFILE_EMAIL, EVENT_RUN]))
          403 ''Requires profile:read, profile:email or event:run scope'') (\<lambda>_.
     seq (gets (\<lambda>s. verified_email (as_db s) (uid usr))) (\<lambda>email.
     return \<lparr>ui_sub = uid usr, ui_roles = map role_value (u_roles usr), ui_vekn_id = u_vekn_id usr,
       ui_capabilities = unconditional_capabilities usr,
       ui_email = (case rs_scopes st of None \<Rightarrow> None
         | Some scopes \<Rightarrow> if oauth_scope_value PROFILE_EMAIL \<in> set scopes \<and> truthy_str email then email else None)\<rparr>)))"

record consent_row =
  cw_client_id :: string
  cw_name :: string
  cw_scopes :: "string list"
  cw_tournament :: "uid option"
  cw_tournament_name :: "string option"
  cw_granted_at :: instant

definition consent_rows :: "auth_server \<Rightarrow> uid \<Rightarrow> consent_row list" where
  "consent_rows s u = List.map_filter (\<lambda>c. case get_oauth_client_by_client_id s (oc_client_id c) of
       None \<Rightarrow> None
     | Some client \<Rightarrow> Some \<lparr>cw_client_id = oc_client_id c, cw_name = ocl_name client,
         cw_scopes = map oauth_scope_value (oc_scopes c), cw_tournament = oc_tournament_uid c,
         cw_tournament_name = (if truthy_str (oc_tournament_uid c)
           then map_option t_name (get_tournament_by_uid (as_db s) (str_default (oc_tournament_uid c))) else None),
         cw_granted_at = modified c\<rparr>) (get_oauth_consents_by_user (as_db s) u)"

definition list_consents :: "auth_config \<Rightarrow> instant \<Rightarrow> http_request \<Rightarrow> (auth_server, consent_row list) prog" where
  "list_consents cfg now rq =
     seq (get_current_user cfg now rq) (\<lambda>(usr, st).
     seq (require_first_party st CONSENT_DETAIL) (\<lambda>_. gets (\<lambda>s. consent_rows s (uid usr))))"

text \<open>The tokens a revocation counts are the live ones.\<close>

definition live_tokens_of :: "db \<Rightarrow> uid \<Rightarrow> string \<Rightarrow> oauth_token list" where
  "live_tokens_of s u c = filter (\<lambda>x. ot_user_uid x = u \<and> ot_client_id x = c \<and> \<not> ot_revoked x) (db_tokens s)"

definition consents_of :: "db \<Rightarrow> uid \<Rightarrow> string \<Rightarrow> oauth_consent list" where
  "consents_of s u c = filter (\<lambda>x. oc_user_uid x = u \<and> oc_client_id x = c) (map snd (db_consents s))"

definition revoke_consent :: "auth_config \<Rightarrow> instant \<Rightarrow> http_request \<Rightarrow> string \<Rightarrow> (auth_server, nat) prog" where
  "revoke_consent cfg now rq c =
     seq (get_current_user cfg now rq) (\<lambda>(usr, st).
     seq (require_first_party st CONSENT_DETAIL) (\<lambda>_.
     seq (gets (\<lambda>s. length (live_tokens_of (as_db s) (uid usr) c))) (\<lambda>revoked.
     seq (modify (on_tables (revoke_oauth_tokens_for_user_client (uid usr) c))) (\<lambda>_.
     seq (gets (\<lambda>s. consents_of (as_db s) (uid usr) c \<noteq> [])) (\<lambda>deleted.
     seq (modify (on_tables (delete_oauth_consent (uid usr) c))) (\<lambda>_.
     seq (check (deleted \<or> revoked \<noteq> 0) 404 ''No authorization found for this app'') (\<lambda>_. return revoked)))))))"

section \<open>The management of clients\<close>

definition require_oauth_admin :: "auth_config \<Rightarrow> instant \<Rightarrow> http_request \<Rightarrow> (auth_server, user) prog" where
  "require_oauth_admin cfg now rq =
     seq (get_current_user cfg now rq) (\<lambda>(usr, st).
     seq (require_first_party st ''Client management requires a first-party session'') (\<lambda>_.
     seq (lift_res (can_manage_oauth_clients usr)) (\<lambda>ok.
     seq (check ok 403 ''Only IC or DEV can manage OAuth clients'') (\<lambda>_. return usr))))"

definition client_rules ::
    "string list \<Rightarrow> string list \<Rightarrow> string \<Rightarrow> (auth_server, oauth_scope list \<times> string option) prog" where
  "client_rules uris scope_strs purpose =
     seq (lift_res (map_res scope_or_refuse scope_strs)) (\<lambda>scopes.
     seq (check (uris \<noteq> [] \<or> set scopes = {API_READ}) 400 ''At least one redirect_uri is required'') (\<lambda>_.
     if PROFILE_EMAIL \<notin> set scopes then return (scopes, None)
     else if strip purpose = [] then refuse 400 ''profile:email requires a statement of what the app does with it''
     else return (scopes, Some (strip purpose))))"

record register_request =
  rg_name :: string
  rg_redirect_uris :: "string list"
  rg_scopes :: "string list"
  rg_email_purpose :: string

definition register_client ::
    "auth_config \<Rightarrow> instant \<Rightarrow> uid \<Rightarrow> string \<Rightarrow> string \<Rightarrow> http_request \<Rightarrow> register_request \<Rightarrow> (auth_server, oauth_client) prog"
where
  "register_client cfg now k client_id client_secret rq b =
     seq (require_oauth_admin cfg now rq) (\<lambda>usr.
     seq (check (strip (rg_name b) \<noteq> []) 400 ''Client name is required'') (\<lambda>_.
     seq (client_rules (rg_redirect_uris b) (rg_scopes b) (rg_email_purpose b)) (\<lambda>(scopes, purpose).
     let client = \<lparr>uid = k, modified = now, deleted_at = None, ocl_name = strip (rg_name b), ocl_client_id = client_id,
           ocl_client_secret_hash = ac_hash cfg client_secret, ocl_redirect_uris = rg_redirect_uris b, ocl_scopes = scopes,
           ocl_created_by_uid = uid usr, ocl_active = True, ocl_email_purpose = purpose\<rparr>
     in seq (atomic (insert_oauth_client client)) (\<lambda>_. return client))))"

definition list_clients :: "auth_config \<Rightarrow> instant \<Rightarrow> http_request \<Rightarrow> (auth_server, oauth_client list) prog" where
  "list_clients cfg now rq = seq (require_oauth_admin cfg now rq)
     (\<lambda>usr. gets (\<lambda>s. filter ocl_active (get_oauth_clients_by_owner s (uid usr))))"

definition own_client_or_refuse :: "string \<Rightarrow> user \<Rightarrow> bool \<Rightarrow> (auth_server, oauth_client) prog" where
  "own_client_or_refuse c usr active =
     seq (gets (\<lambda>s. get_oauth_client_by_client_id s c)) (\<lambda>found. case found of
        None \<Rightarrow> refuse 404 ''Client not found''
      | Some client \<Rightarrow> if (active \<and> \<not> ocl_active client) \<or> ocl_created_by_uid client \<noteq> uid usr
          then refuse 404 ''Client not found'' else return client)"

record edit_request =
  ed_redirect_uris :: "string list"
  ed_scopes :: "string list"
  ed_email_purpose :: string

definition edit_client ::
    "auth_config \<Rightarrow> instant \<Rightarrow> http_request \<Rightarrow> string \<Rightarrow> edit_request \<Rightarrow> (auth_server, oauth_client) prog" where
  "edit_client cfg now rq c b =
     seq (require_oauth_admin cfg now rq) (\<lambda>usr.
     seq (own_client_or_refuse c usr True) (\<lambda>client.
     let fixed = PROFILE_EMAIL \<in> set (ocl_scopes client); purpose = strip (ed_email_purpose b)
     in seq (check (\<not> fixed \<or> purpose = [] \<or> Some purpose = ocl_email_purpose client) 400
               ''The email purpose is fixed: members consented to it'') (\<lambda>_.
        seq (client_rules (ed_redirect_uris b) (ed_scopes b)
               (if fixed then str_default (ocl_email_purpose client) else ed_email_purpose b)) (\<lambda>(scopes, purpose).
        let client' = client\<lparr>modified := now, ocl_redirect_uris := ed_redirect_uris b, ocl_scopes := scopes,
              ocl_email_purpose := purpose\<rparr>;
            removed = filter (\<lambda>x. x \<notin> set scopes) (ocl_scopes client)
        in seq (modify (update_oauth_client client')) (\<lambda>_.
           seq (modify (on_tables (if removed = [] then id else revoke_oauth_tokens_with_scopes c removed))) (\<lambda>_.
           seq (modify (on_tables (if removed = [] then id else strip_oauth_consent_scopes c removed))) (\<lambda>_.
           return client')))))))"

definition regenerate_secret ::
    "auth_config \<Rightarrow> instant \<Rightarrow> string \<Rightarrow> http_request \<Rightarrow> string \<Rightarrow> (auth_server, string) prog" where
  "regenerate_secret cfg now secret rq c =
     seq (require_oauth_admin cfg now rq) (\<lambda>usr.
     seq (own_client_or_refuse c usr False) (\<lambda>client.
     seq (modify (update_oauth_client (client\<lparr>modified := now, ocl_client_secret_hash := ac_hash cfg secret\<rparr>))) (\<lambda>_.
     return secret)))"

definition deactivate_client :: "auth_config \<Rightarrow> instant \<Rightarrow> http_request \<Rightarrow> string \<Rightarrow> (auth_server, unit) prog" where
  "deactivate_client cfg now rq c =
     seq (require_oauth_admin cfg now rq) (\<lambda>usr.
     seq (own_client_or_refuse c usr False) (\<lambda>client.
     modify (update_oauth_client (client\<lparr>modified := now, ocl_active := False\<rparr>))))"

end
