(* ===== verification/Handlers.thy ===== *)
theory Handlers
  imports OAuth Accounts
begin

text \<open>
  What the route handlers share: the state they run on, the member a request is made by, the dates
  in a body.
\<close>

section \<open>The state of a handler\<close>

text \<open>The tables with those of OAuth, and the open connections\<close>

type_synonym app = "auth_server \<times> sse"

definition authed :: "(auth_server, 'a) prog \<Rightarrow> (app, 'a) prog" where
  "authed m a = (case m (fst a) of (r, s') \<Rightarrow> (r, (s', snd a)))"

definition on_server :: "(server, 'a) prog \<Rightarrow> (app, 'a) prog" where
  "on_server m a = (case m (as_db (fst a), snd a) of (r, (d, c)) \<Rightarrow> (r, ((fst a)\<lparr>as_db := d\<rparr>, c)))"

text \<open>
  \<open>get_optional_user\<close> and the 401 of a handler that finds nobody; what the token says stays on
  \<open>request.state\<close>.
\<close>

definition require_user :: "auth_config \<Rightarrow> instant \<Rightarrow> http_request \<Rightarrow> (app, user \<times> request_state) prog" where
  "require_user cfg now rq a = (case authed (get_current_user cfg now rq) a of
     (Inl (HTTPException n d), a') \<Rightarrow> (Inl (HTTPException 401 ''Authentication required''), a') | r \<Rightarrow> r)"

text \<open>\<open>except Exception\<close>: what was written before it stays.\<close>

definition swallow :: "('s, unit) prog \<Rightarrow> ('s, unit) prog" where
  "swallow m s = (case m s of (Inl _, s') \<Rightarrow> (Inr (), s') | r \<Rightarrow> r)"

definition push_all :: "instant \<Rightarrow> broadcast_data list \<Rightarrow> (server, unit) prog" where
  "push_all now bds = seq (for_each (push_bd now) bds) (\<lambda>_. return ())"

section \<open>Dates\<close>

definition days_before_month :: "int \<Rightarrow> int \<Rightarrow> int" where
  "days_before_month y m = sum_list (map (days_in_month y) [1..m - 1])"

definition days_before_year :: "int \<Rightarrow> int" where
  "days_before_year y = (y - 1) * 365 + (y - 1) div 4 - (y - 1) div 100 + (y - 1) div 400"

definition to_ordinal :: "int \<Rightarrow> int \<Rightarrow> int \<Rightarrow> int" where
  "to_ordinal y m d = days_before_year y + days_before_month y m + d"

definition date_of :: "int \<Rightarrow> int \<Rightarrow> int \<Rightarrow> instant option" where
  "date_of y m d = (if 1 \<le> y \<and> y \<le> 9999 \<and> valid_instant (Instant y m d 0) then Some (Instant y m d 0) else None)"

text \<open>The Monday of the first ISO week: that of the week of 4 January\<close>

definition iso_week_1 :: "int \<Rightarrow> int" where
  "iso_week_1 y = (let j = to_ordinal y 1 4 in j - (j + 6) mod 7)"

definition date_of_week :: "int \<Rightarrow> int \<Rightarrow> int \<Rightarrow> instant option" where
  "date_of_week y w d =
     (let o0 = iso_week_1 y + (w - 1) * 7 + (d - 1)
      in if 1 \<le> y \<and> y \<le> 9999 \<and> 1 \<le> w \<and> 1 \<le> d \<and> d \<le> 7 \<and> (w \<le> 52 \<or> w = 53 \<and> iso_week_1 y + 364 < iso_week_1 (y + 1))
         then (let t = plus_days (nat (o0 - to_ordinal (y - 1) 12 1)) (Instant (y - 1) 12 1 0)
               in if 1 \<le> i_year t \<and> i_year t \<le> 9999 then Some t else None)
         else None)"

definition digits :: "string \<Rightarrow> nat \<Rightarrow> nat \<Rightarrow> int" where
  "digits s i n = int (digits_value (take n (drop i s)))"

text \<open>A shape: \<open>9\<close> stands for a digit.\<close>

definition shaped :: "string \<Rightarrow> string \<Rightarrow> bool" where
  "shaped p s \<longleftrightarrow> length s = length p \<and> list_all (\<lambda>(x, c). if x = CHR ''9'' then is_digit c else c = x) (zip p s)"

text \<open>\<open>date.fromisoformat\<close>, midnight UTC; \<open>None\<close> is the \<open>ValueError\<close>.\<close>

definition fromisoformat :: "string \<Rightarrow> instant option" where
  "fromisoformat s =
     (if shaped ''9999-99-99'' s then date_of (digits s 0 4) (digits s 5 2) (digits s 8 2)
      else if shaped ''99999999'' s then date_of (digits s 0 4) (digits s 4 2) (digits s 6 2)
      else if shaped ''9999-W99-9'' s then date_of_week (digits s 0 4) (digits s 6 2) (digits s 9 1)
      else if shaped ''9999W999'' s then date_of_week (digits s 0 4) (digits s 5 2) (digits s 7 1)
      else if shaped ''9999-W99'' s then date_of_week (digits s 0 4) (digits s 6 2) 1
      else if shaped ''9999W99'' s then date_of_week (digits s 0 4) (digits s 5 2) 1
      else None)"

end
