(* ===== verification/Sanctions.thy ===== *)
theory Sanctions
  imports Handlers Standings
begin

text \<open>
  Sanctions (\<open>backend/src/routes/sanctions.py\<close>): issuing, editing, lifting and deleting them, and
  their reflection on the event.  The lists of levels and of subcategories are those of
  \<open>engine/src/sanctions.rs\<close>.  The text of a \<open>ValueError\<close> is left out of the details, and the report to
  the TWDA, started in the background, is left out.
\<close>

section \<open>The reference\<close>

definition TOURNAMENT_LEVELS :: "sanction_level list" where
  "TOURNAMENT_LEVELS = [CAUTION, WARNING, STANDINGS_ADJUSTMENT, DISQUALIFICATION]"

fun SUBCATEGORIES_BY_CATEGORY :: "sanction_category \<Rightarrow> sanction_subcategory list" where
  "SUBCATEGORIES_BY_CATEGORY PROCEDURAL_ERROR =
     [MISSED_MANDATORY_EFFECT, CARD_ACCESS_ERROR, GAME_RULE_VIOLATION, FAILURE_TO_MAINTAIN_GAME_STATE]"
| "SUBCATEGORIES_BY_CATEGORY TOURNAMENT_ERROR =
     [ILLEGAL_DECKLIST, ILLEGAL_MAIN_DECK_LEGAL_DECKLIST, ILLEGAL_MAIN_DECK_NO_DECKLIST, OUTSIDE_ASSISTANCE, SLOW_PLAY,
      LIMITED_PROCEDURE_VIOLATION, PUBLIC_INFO_MISCOMMUNICATION, OBSCURING_GAME_STATE, MARKED_CARDS, INSUFFICIENT_SHUFFLING]"
| "SUBCATEGORIES_BY_CATEGORY UNSPORTSMANLIKE_CONDUCT =
     [MINOR, MAJOR, AGGRESSIVE_BEHAVIOUR, BRIBERY_AND_WAGERING, THEFT_OF_TOURNAMENT_MATERIAL, STALLING, CHEATING, FRAUD,
      COLLUSION, HEALTH_AND_SAFETY_DISRUPTION, RAGE_QUITTING, FAILURE_TO_PLAY_TO_WIN]"

definition MAX_EXPIRY_MONTHS :: nat where "MAX_EXPIRY_MONTHS = 18"

text \<open>The enumerations' constructors from their values\<close>

definition all_levels :: "sanction_level list" where
  "all_levels = [CAUTION, WARNING, STANDINGS_ADJUSTMENT, DISQUALIFICATION, SUSPENSION, PROBATION]"

definition all_categories :: "sanction_category list" where
  "all_categories = [PROCEDURAL_ERROR, TOURNAMENT_ERROR, UNSPORTSMANLIKE_CONDUCT]"

definition level_of :: "string \<Rightarrow> sanction_level option" where
  "level_of v = find (\<lambda>x. level_value x = v) all_levels"

definition category_of :: "string \<Rightarrow> sanction_category option" where
  "category_of v = find (\<lambda>x. category_value x = v) all_categories"

definition subcategory_of :: "string \<Rightarrow> sanction_subcategory option" where
  "subcategory_of v = find (\<lambda>x. subcategory_value x = v) (concat (map SUBCATEGORIES_BY_CATEGORY all_categories))"

section \<open>Rules\<close>

text \<open>The event a sanction names, read when it names one\<close>

definition event_of :: "db \<Rightarrow> uid option \<Rightarrow> tournament option" where
  "event_of s t = (if truthy_str t then get_tournament_by_uid s (str_default t) else None)"

definition validate_binding :: "sanction_level \<Rightarrow> uid option \<Rightarrow> (server, unit) prog" where
  "validate_binding level t =
     (if level \<in> set TOURNAMENT_LEVELS \<and> \<not> truthy_str t
      then refuse 400 (''A '' @ level_value level @ '' must be issued against a tournament'')
      else if level \<notin> set TOURNAMENT_LEVELS \<and> truthy_str t
      then refuse 400 (''A '' @ level_value level @ '' is membership-level and takes no tournament'')
      else return ())"

definition validate_expiry :: "sanction_level \<Rightarrow> instant option \<Rightarrow> instant \<Rightarrow> (server, unit) prog" where
  "validate_expiry level expires issued =
     (let max_expiry = plus_days (MAX_EXPIRY_MONTHS * 30) issued
      in if level = PROBATION \<and> expires = None then refuse 400 ''PROBATION requires an expiry date (expires_at)''
         else if level = PROBATION \<and> (case expires of None \<Rightarrow> False | Some e \<Rightarrow> max_expiry < e)
           then refuse 400 ''PROBATION expires_at must be within 18 months''
         else if level = SUSPENSION \<and> (case expires of None \<Rightarrow> False | Some e \<Rightarrow> max_expiry < e)
           then refuse 400 ''SUSPENSION expires_at must be within 18 months''
         else return ())"

definition has_active_dq :: "db \<Rightarrow> uid \<Rightarrow> uid \<Rightarrow> bool" where
  "has_active_dq s t u =
     list_ex (\<lambda>x. s_user_uid x = u \<and> s_level x = DISQUALIFICATION \<and> s_lifted_at x = None) (get_sanctions_for_tournament s t)"

definition live_seatings :: "tournament \<Rightarrow> seat list list" where
  "live_seatings t = map tb_seating (filter (\<lambda>tb. tb_state tb \<notin> {TS_FINISHED, TS_CANCELLED}) (concat (t_rounds t)))
     @ (case t_finals t of None \<Rightarrow> [] | Some f \<Rightarrow> if tb_state f \<noteq> TS_FINISHED then [tb_seating f] else [])"

definition dq_restore_state :: "db \<Rightarrow> uid \<Rightarrow> uid \<Rightarrow> player_state" where
  "dq_restore_state s t u =
     (if has_active_dq s t u then DISQUALIFIED
      else case get_tournament_by_uid s t of
        None \<Rightarrow> P_FINISHED
      | Some e \<Rightarrow> if t_state e = T_FINISHED then P_FINISHED
          else if list_ex (list_ex (\<lambda>seat. seat_player_uid seat = u)) (live_seatings e) then P_PLAYING
          else CHECKED_IN)"

section \<open>Reflecting a sanction on its event\<close>

text \<open>The engine's entry point (\<open>update_standings_json\<close>)\<close>

definition update_standings_json :: "tournament \<Rightarrow> sanction list \<Rightarrow> deck_json list \<Rightarrow> tournament \<times> deck_op list" where
  "update_standings_json t ss ds =
     (let t' = update_standings t ss
      in (t', if t_state t' = T_FINISHED then recompute_deck_publication t' ds [] else []))"

text \<open>The first player of that uid\<close>

fun set_player_state :: "uid \<Rightarrow> player_state \<Rightarrow> player list \<Rightarrow> player list" where
  "set_player_state u st [] = []"
| "set_player_state u st (p # ps) =
     (if pl_user_uid p = Some u then p\<lparr>pl_state := st\<rparr> # ps else p # set_player_state u st ps)"

definition mark_player :: "(uid \<times> player_state) option \<Rightarrow> tournament \<Rightarrow> tournament" where
  "mark_player dq t = (case dq of None \<Rightarrow> t | Some (u, st) \<Rightarrow> t\<lparr>t_players := set_player_state u st (t_players t)\<rparr>)"

definition marks :: "(uid \<times> player_state) option \<Rightarrow> tournament \<Rightarrow> bool" where
  "marks dq t = (case dq of None \<Rightarrow> False | Some (u, st) \<Rightarrow> list_ex (\<lambda>p. pl_user_uid p = Some u) (t_players t))"

definition results_of :: "tournament \<Rightarrow> string \<times> standing list \<times> finals_table option \<times> table list list" where
  "results_of t = (t_winner t, t_standings t, t_finals t, t_rounds t)"

text \<open>What the row becomes, with the deck operations that follow; \<open>None\<close> when nothing changes\<close>

definition reflected ::
    "instant \<Rightarrow> (uid \<times> player_state) option \<Rightarrow> sanction list \<Rightarrow> deck_json list \<Rightarrow> tournament \<Rightarrow> (tournament \<times> deck_op list) option" where
  "reflected now dq ss ds t =
     (let marked = mark_player dq t;
          (t', ops) = (if t_rounds marked = [] then (marked, [])
             else let (u, ops) = update_standings_json marked ss ds in (mark_player dq u, ops));
          stale = (t_vekn_pushed_at t \<noteq> None \<and> \<not> t_vekn_results_stale t \<and> results_of t' \<noteq> results_of marked)
      in if \<not> marks dq t \<and> t_rounds marked = [] then None
         else Some (t'\<lparr>t_vekn_results_stale := t_vekn_results_stale t' \<or> stale, modified := now\<rparr>, ops))"

definition reflect_row ::
    "instant \<Rightarrow> uid \<Rightarrow> (uid \<times> player_state) option \<Rightarrow> (db, (tournament \<times> tournament \<times> deck_op list \<times> broadcast_data) option) prog" where
  "reflect_row now tu dq = transaction (
     seq (gets (\<lambda>s. get_tournament_by_uid s tu)) (\<lambda>found. case found of
        None \<Rightarrow> return None
      | Some t \<Rightarrow>
          seq (gets (\<lambda>s. reflected now dq (get_sanctions_for_tournament s tu) (build_decks_json s tu) t)) (\<lambda>out. case out of
             None \<Rightarrow> return None
           | Some (t', ops) \<Rightarrow> seq (atomic (save_tournament now t')) (\<lambda>bd. return (Some (t, t', ops, bd))))))"

definition apply_sanction_to_tournament ::
    "instant \<Rightarrow> (nat \<Rightarrow> uid) \<Rightarrow> uid \<Rightarrow> (uid \<times> player_state) option \<Rightarrow> (server, unit) prog" where
  "apply_sanction_to_tournament now mint tu dq =
     seq (on_db (reflect_row now tu dq)) (\<lambda>out. case out of
        None \<Rightarrow> return ()
      | Some (t, t', ops, bd) \<Rightarrow>
          seq (push_bd now bd) (\<lambda>_.
          seq (on_db (process_deck_ops now mint ops tu t')) (\<lambda>bds.
          seq (push_all now bds) (\<lambda>_.
          if t_state t' = T_FINISHED \<and> t_winner t \<noteq> t_winner t'
          then swallow (seq (on_db (recompute_wins now (Some (filter (\<lambda>w. w \<noteq> []) [t_winner t, t_winner t']))))
                 (\<lambda>wins. push_all now (map snd wins)))
          else return ()))))"

section \<open>Issuing\<close>

record sanction_request =
  cs_user_uid :: uid
  cs_level :: string
  cs_category :: string
  cs_subcategory :: "string option"
  cs_round_number :: "int option"
  cs_description :: string
  cs_expires_at :: "string option"
  cs_tournament_uid :: "uid option"

definition level_list :: string where
  "level_list = ''['' @ join '', '' (map (\<lambda>x. [CHR 0x27] @ level_value x @ [CHR 0x27]) all_levels) @ '']''"

definition category_list :: string where
  "category_list = ''['' @ join '', '' (map (\<lambda>x. [CHR 0x27] @ category_value x @ [CHR 0x27]) all_categories) @ '']''"

definition parse_level :: "string \<Rightarrow> string \<Rightarrow> (server, sanction_level) prog" where
  "parse_level v hint = (case level_of v of Some l \<Rightarrow> return l | None \<Rightarrow> refuse 400 (''Invalid level: '' @ v @ hint))"

definition parse_category :: "string \<Rightarrow> string \<Rightarrow> (server, sanction_category) prog" where
  "parse_category v hint = (case category_of v of Some c \<Rightarrow> return c | None \<Rightarrow> refuse 400 (''Invalid category: '' @ v @ hint))"

definition parse_subcategory :: "sanction_category \<Rightarrow> string option \<Rightarrow> sanction_subcategory option \<Rightarrow> (server, sanction_subcategory option) prog" where
  "parse_subcategory c v absent = (case v of
     None \<Rightarrow> return absent
   | Some v \<Rightarrow> (case subcategory_of v of
        None \<Rightarrow> refuse 400 (''Invalid subcategory: '' @ v)
      | Some x \<Rightarrow> if x \<in> set (SUBCATEGORIES_BY_CATEGORY c) then return (Some x)
          else refuse 400 (''Subcategory '' @ [CHR 0x27] @ subcategory_value x @ [CHR 0x27] @ '' not valid for category ''
            @ [CHR 0x27] @ category_value c @ [CHR 0x27])))"

definition int_str :: "int \<Rightarrow> string" where
  "int_str i = (if i < 0 then ''-'' @ nat_str (nat (- i)) else nat_str (nat i))"

definition check_round :: "int \<Rightarrow> tournament option \<Rightarrow> (server, unit) prog" where
  "check_round r event = (case event of
     None \<Rightarrow> return ()
   | Some t \<Rightarrow> check (\<not> (int (length (t_rounds t)) < r \<or> r = int (length (t_rounds t)) \<and> t_finals t = None)) 400
       (''round_number '' @ int_str r @ '' exceeds tournament rounds ('' @ nat_str (length (t_rounds t)) @ '')''))"

definition parse_expiry :: "string option \<Rightarrow> bool \<Rightarrow> instant option \<Rightarrow> (server, instant option) prog" where
  "parse_expiry v given absent = (if \<not> given then return absent
     else case fromisoformat (str_default v) of
        Some e \<Rightarrow> return (Some e)
      | None \<Rightarrow> refuse 400 ''Invalid expires_at format (expected YYYY-MM-DD)'')"

definition SECOND_DQ :: string where
  "SECOND_DQ = ''Player already has an active disqualification in this tournament''"

text \<open>The sanction a request makes, every rule checked\<close>

definition issued_sanction ::
    "instant \<Rightarrow> uid \<Rightarrow> user \<Rightarrow> request_state \<Rightarrow> sanction_request \<Rightarrow> (server, sanction) prog" where
  "issued_sanction now k usr st b =
     seq (check (\<not> truthy_str (rs_tournament st) \<or> cs_tournament_uid b = rs_tournament st) 403
            ''This token acts only on the tournament it was granted for'') (\<lambda>_.
     seq (parse_level (cs_level b) (''. Valid: '' @ level_list)) (\<lambda>level.
     seq (validate_binding level (cs_tournament_uid b)) (\<lambda>_.
     seq (parse_category (cs_category b) (''. Valid: '' @ category_list)) (\<lambda>category.
     seq (parse_subcategory category (cs_subcategory b) None) (\<lambda>subcategory.
     seq (check (\<not> (level = STANDINGS_ADJUSTMENT \<and> cs_round_number b = None)) 400
            ''round_number is required for standings_adjustment sanctions'') (\<lambda>_.
     seq (case cs_round_number b of
            None \<Rightarrow> return ()
          | Some r \<Rightarrow> seq (on_db (gets (\<lambda>s. event_of s (cs_tournament_uid b)))) (check_round r)) (\<lambda>_.
     seq (on_db (gets (\<lambda>s. event_of s (cs_tournament_uid b)))) (\<lambda>event.
     seq (check (can_issue_sanction usr level event) 403 (''You don'' @ [CHR 0x27] @ ''t have permission to issue this type of sanction'')) (\<lambda>_.
     seq (on_db (gets (\<lambda>s. get_user_by_uid s (cs_user_uid b)))) (\<lambda>target.
     seq (check (target \<noteq> None) 404 ''Target user not found'') (\<lambda>_.
     seq (parse_expiry (cs_expires_at b) (truthy_str (cs_expires_at b)) None) (\<lambda>expires.
     seq (validate_expiry level expires now) (\<lambda>_.
     seq (on_db (gets (\<lambda>s. level = DISQUALIFICATION \<and> has_active_dq s (str_default (cs_tournament_uid b)) (cs_user_uid b)))) (\<lambda>second.
     seq (check (\<not> second) 409 SECOND_DQ) (\<lambda>_.
     return \<lparr>uid = k, modified = now, deleted_at = None, s_user_uid = cs_user_uid b, s_issued_by_uid = uid usr,
       s_tournament_uid = cs_tournament_uid b, s_level = level, s_category = category, s_subcategory = subcategory,
       s_round_number = cs_round_number b, s_description = cs_description b, s_issued_at = now, s_expires_at = expires,
       s_lifted_at = None, s_lifted_by_uid = None\<rparr>)))))))))))))))"

text \<open>An event's uid is never absent here: the levels that reach this far are bound to an event.\<close>

definition reflect_issued :: "instant \<Rightarrow> (nat \<Rightarrow> uid) \<Rightarrow> sanction \<Rightarrow> (server, unit) prog" where
  "reflect_issued now mint x =
     (if s_level x = DISQUALIFICATION
      then apply_sanction_to_tournament now mint (str_default (s_tournament_uid x)) (Some (s_user_uid x, DISQUALIFIED))
      else if s_level x = STANDINGS_ADJUSTMENT then apply_sanction_to_tournament now mint (str_default (s_tournament_uid x)) None
      else return ())"

definition create_sanction ::
    "instant \<Rightarrow> uid \<Rightarrow> (nat \<Rightarrow> uid) \<Rightarrow> user \<Rightarrow> request_state \<Rightarrow> sanction_request \<Rightarrow> (server, sanction) prog" where
  "create_sanction now k mint usr st b =
     seq (issued_sanction now k usr st b) (\<lambda>x.
     seq (on_db (atomic (save_sanction now x))) (\<lambda>bd.
     seq (reflect_issued now mint x) (\<lambda>_.
     seq (push_bd now bd) (\<lambda>_. return x))))"

section \<open>Editing and lifting\<close>

record sanction_edit =
  us_level :: "string option"
  us_category :: "string option"
  us_subcategory :: "string option"
  us_round_number :: "int option"
  us_description :: "string option"
  us_expires_at :: "string option"
  us_lifted :: "bool option"

definition lifts :: "sanction_edit \<Rightarrow> sanction \<Rightarrow> bool" where
  "lifts b x \<longleftrightarrow> us_lifted b = Some True \<and> s_lifted_at x = None"

definition modifies :: "sanction_edit \<Rightarrow> bool" where
  "modifies b \<longleftrightarrow> us_level b \<noteq> None \<or> us_category b \<noteq> None \<or> us_subcategory b \<noteq> None \<or> us_round_number b \<noteq> None
     \<or> us_description b \<noteq> None \<or> us_expires_at b \<noteq> None"

definition active_dq :: "sanction \<Rightarrow> bool" where
  "active_dq x \<longleftrightarrow> s_level x = DISQUALIFICATION \<and> s_lifted_at x = None"

text \<open>The fields an edit leaves, every rule checked\<close>

definition edited_sanction :: "instant \<Rightarrow> user \<Rightarrow> sanction_edit \<Rightarrow> sanction \<Rightarrow> (server, sanction) prog" where
  "edited_sanction now usr b x =
     seq (case us_level b of
            None \<Rightarrow> return (s_level x)
          | Some v \<Rightarrow> seq (parse_level v []) (\<lambda>l. seq (validate_binding l (s_tournament_uid x)) (\<lambda>_. return l))) (\<lambda>level.
     seq (case us_category b of None \<Rightarrow> return (s_category x) | Some v \<Rightarrow> parse_category v []) (\<lambda>category.
     seq (parse_subcategory category (us_subcategory b) (s_subcategory x)) (\<lambda>subcategory.
     seq (case us_round_number b of
            None \<Rightarrow> return (s_round_number x)
          | Some r \<Rightarrow> seq (on_db (gets (\<lambda>s. case s_tournament_uid x of None \<Rightarrow> None | Some t \<Rightarrow> get_tournament_by_uid s t)))
              (\<lambda>event. seq (check_round r event) (\<lambda>_. return (Some r)))) (\<lambda>r.
     seq (check (\<not> (level = STANDINGS_ADJUSTMENT \<and> r = None)) 400
            ''round_number is required for standings_adjustment sanctions'') (\<lambda>_.
     seq (case us_description b of
            None \<Rightarrow> return (s_description x)
          | Some d \<Rightarrow> if strip d = [] then refuse 400 ''Description cannot be empty'' else return (strip d)) (\<lambda>description.
     seq (parse_expiry (us_expires_at b) (us_expires_at b \<noteq> None) (s_expires_at x)) (\<lambda>expires.
     seq (validate_expiry level expires (s_issued_at x)) (\<lambda>_.
     return (x\<lparr>modified := now, s_level := level, s_category := category, s_subcategory := subcategory, s_round_number := r,
       s_description := description, s_expires_at := expires,
       s_lifted_at := (if lifts b x then Some now else s_lifted_at x),
       s_lifted_by_uid := (if lifts b x then Some (uid usr) else s_lifted_by_uid x)\<rparr>)))))))))"

text \<open>The edit a member may make, with no second active disqualification\<close>

definition allowed_edit :: "instant \<Rightarrow> user \<Rightarrow> sanction_edit \<Rightarrow> sanction \<Rightarrow> (server, sanction) prog" where
  "allowed_edit now usr b x =
     seq (on_db (gets (\<lambda>s. event_of s (s_tournament_uid x)))) (\<lambda>event.
     seq (check (\<not> lifts b x \<or> can_lift_sanction usr x event) 403 (''You don'' @ [CHR 0x27] @ ''t have permission to lift this sanction'')) (\<lambda>_.
     seq (lift_res (if modifies b then can_modify_sanction usr else Inr True)) (\<lambda>ok.
     seq (check ok 403 ''Only IC or Ethics can modify sanctions'') (\<lambda>_.
     seq (edited_sanction now usr b x) (\<lambda>y.
     seq (on_db (gets (\<lambda>s. active_dq y \<and> \<not> active_dq x \<and> truthy_str (s_tournament_uid x)
            \<and> has_active_dq s (str_default (s_tournament_uid x)) (s_user_uid x)))) (\<lambda>second.
     seq (check (\<not> second) 409 SECOND_DQ) (\<lambda>_. return y)))))))"

definition reflect_edited :: "instant \<Rightarrow> (nat \<Rightarrow> uid) \<Rightarrow> sanction \<Rightarrow> sanction \<Rightarrow> (server, unit) prog" where
  "reflect_edited now mint x y =
     (let t = str_default (s_tournament_uid x)
      in if truthy_str (s_tournament_uid x) \<and> active_dq x \<noteq> active_dq y
         then seq (on_db (gets (\<lambda>s. if active_dq y then DISQUALIFIED else dq_restore_state s t (s_user_uid x))))
                (\<lambda>ps. apply_sanction_to_tournament now mint t (Some (s_user_uid x, ps)))
         else if truthy_str (s_tournament_uid x) \<and> (s_level y = STANDINGS_ADJUSTMENT \<or> s_level x = STANDINGS_ADJUSTMENT)
         then apply_sanction_to_tournament now mint t None
         else return ())"

definition update_sanction ::
    "instant \<Rightarrow> (nat \<Rightarrow> uid) \<Rightarrow> user \<Rightarrow> uid \<Rightarrow> sanction_edit \<Rightarrow> (server, sanction) prog" where
  "update_sanction now mint usr u b =
     seq (on_db (gets (\<lambda>s. get_sanction_by_uid s u))) (\<lambda>found. case found of
        None \<Rightarrow> refuse 404 ''Sanction not found''
      | Some x \<Rightarrow>
          seq (allowed_edit now usr b x) (\<lambda>y.
          seq (on_db (atomic (save_sanction now y))) (\<lambda>bd.
          seq (reflect_edited now mint x y) (\<lambda>_.
          seq (push_bd now bd) (\<lambda>_. return y)))))"

section \<open>Deleting\<close>

definition reflect_deleted :: "instant \<Rightarrow> (nat \<Rightarrow> uid) \<Rightarrow> sanction \<Rightarrow> (server, unit) prog" where
  "reflect_deleted now mint x =
     (let t = str_default (s_tournament_uid x)
      in seq (if active_dq x \<and> truthy_str (s_tournament_uid x)
              then seq (on_db (gets (\<lambda>s. dq_restore_state s t (s_user_uid x))))
                     (\<lambda>ps. apply_sanction_to_tournament now mint t (Some (s_user_uid x, ps)))
              else return ()) (\<lambda>_.
         if s_level x = STANDINGS_ADJUSTMENT \<and> s_lifted_at x = None \<and> truthy_str (s_tournament_uid x)
         then apply_sanction_to_tournament now mint t None
         else return ()))"

definition delete_sanction :: "instant \<Rightarrow> (nat \<Rightarrow> uid) \<Rightarrow> user \<Rightarrow> uid \<Rightarrow> (server, unit) prog" where
  "delete_sanction now mint usr u =
     seq (on_db (gets (\<lambda>s. get_sanction_by_uid s u))) (\<lambda>found. case found of
        None \<Rightarrow> refuse 404 ''Sanction not found''
      | Some x \<Rightarrow>
          seq (check (deleted_at x = None) 400 ''Sanction already deleted'') (\<lambda>_.
          seq (on_db (gets (\<lambda>s. event_of s (s_tournament_uid x)))) (\<lambda>event.
          seq (check (can_delete_sanction usr x event) 403 (''You don'' @ [CHR 0x27] @ ''t have permission to delete this sanction'')) (\<lambda>_.
          seq (on_db (atomic (save_sanction now (x\<lparr>modified := now, deleted_at := Some now\<rparr>)))) (\<lambda>bd.
          seq (reflect_deleted now mint x) (\<lambda>_. push_bd now bd))))))"

section \<open>The handlers\<close>

definition create_sanction_handler ::
    "auth_config \<Rightarrow> instant \<Rightarrow> uid \<Rightarrow> (nat \<Rightarrow> uid) \<Rightarrow> http_request \<Rightarrow> sanction_request \<Rightarrow> (app, sanction) prog" where
  "create_sanction_handler cfg now k mint rq b =
     seq (require_user cfg now rq) (\<lambda>(usr, st). on_server (create_sanction now k mint usr st b))"

definition update_sanction_endpoint ::
    "auth_config \<Rightarrow> instant \<Rightarrow> (nat \<Rightarrow> uid) \<Rightarrow> http_request \<Rightarrow> uid \<Rightarrow> sanction_edit \<Rightarrow> (app, sanction) prog" where
  "update_sanction_endpoint cfg now mint rq u b =
     seq (require_user cfg now rq) (\<lambda>(usr, st). on_server (update_sanction now mint usr u b))"

definition delete_sanction_endpoint ::
    "auth_config \<Rightarrow> instant \<Rightarrow> (nat \<Rightarrow> uid) \<Rightarrow> http_request \<Rightarrow> uid \<Rightarrow> (app, unit) prog" where
  "delete_sanction_endpoint cfg now mint rq u =
     seq (require_user cfg now rq) (\<lambda>(usr, st). on_server (delete_sanction now mint usr u))"

end
