(* ===== verification/OAuth_Effects.thy ===== *)
theory OAuth_Effects
  imports OAuth
begin

text \<open>
  The authorisation server as a transition system: every request, whatever it carries, changes the
  tables by a sequence of the effects of \<open>oauth_effect\<close> and by nothing else, so that an invariant
  is proved once over the effects.
\<close>

section \<open>Requests as events\<close>

datatype oauth_event =
    AuthorizeGet uid string http_request authorize_query
  | AuthorizePost uid uid string http_request approval_request
  | TokenExchange token_ids token_request
  | RevokeToken revoke_request
  | UserInfo http_request
  | ListConsents http_request
  | RevokeConsent http_request string
  | RegisterClient uid string string http_request register_request
  | ListClients http_request
  | EditClient http_request string edit_request
  | RegenerateSecret string http_request string
  | DeactivateClient http_request string
  | Cleanup
  | Elsewhere db

text \<open>\<open>Elsewhere\<close> is what the rest of the application does, which has no hand in the tokens and consents.\<close>

definition elsewhere :: "db \<Rightarrow> db \<Rightarrow> db" where
  "elsewhere d old = d\<lparr>db_tokens := db_tokens old, db_consents := db_consents old\<rparr>"

definition then_done :: "(auth_server, 'a) prog \<Rightarrow> (auth_server, unit) prog" where
  "then_done m = seq m (\<lambda>_. return ())"

fun oauth_event_prog :: "auth_config \<Rightarrow> instant \<Rightarrow> oauth_event \<Rightarrow> (auth_server, unit) prog" where
  "oauth_event_prog cfg now (AuthorizeGet k v rq q) = then_done (authorize_get cfg now k v rq q)"
| "oauth_event_prog cfg now (AuthorizePost ck k v rq b) = then_done (authorize_post cfg now ck k v rq b)"
| "oauth_event_prog cfg now (TokenExchange ids b) = then_done (token_endpoint cfg now ids b)"
| "oauth_event_prog cfg now (RevokeToken b) = revoke_token cfg now b"
| "oauth_event_prog cfg now (UserInfo rq) = then_done (userinfo cfg now rq)"
| "oauth_event_prog cfg now (ListConsents rq) = then_done (list_consents cfg now rq)"
| "oauth_event_prog cfg now (RevokeConsent rq c) = then_done (revoke_consent cfg now rq c)"
| "oauth_event_prog cfg now (RegisterClient k c x rq b) = then_done (register_client cfg now k c x rq b)"
| "oauth_event_prog cfg now (ListClients rq) = then_done (list_clients cfg now rq)"
| "oauth_event_prog cfg now (EditClient rq c b) = then_done (edit_client cfg now rq c b)"
| "oauth_event_prog cfg now (RegenerateSecret x rq c) = then_done (regenerate_secret cfg now x rq c)"
| "oauth_event_prog cfg now (DeactivateClient rq c) = deactivate_client cfg now rq c"
| "oauth_event_prog cfg now Cleanup =
     modify (\<lambda>s. on_tables (cleanup_expired_oauth_tokens now) (cleanup_expired_oauth_codes now s))"
| "oauth_event_prog cfg now (Elsewhere d) = modify (on_tables (elsewhere d))"

definition oauth_step :: "auth_config \<Rightarrow> instant \<times> oauth_event \<Rightarrow> auth_server \<Rightarrow> auth_server" where
  "oauth_step cfg e s = snd (oauth_event_prog cfg (fst e) (snd e) s)"

text \<open>What holds of every event keeps what every step keeps.\<close>

lemma fold_keeps:
  assumes "P s" and "\<And>e s. e \<in> set es \<Longrightarrow> P s \<Longrightarrow> P (oauth_step cfg e s)"
  shows "P (fold (oauth_step cfg) es s)"
  using assms by (induction es arbitrary: s) simp_all

section \<open>Who is asking\<close>

lemma reads_verdict: "reads m \<Longrightarrow> reads n \<Longrightarrow> (\<And>c. reads (f c)) \<Longrightarrow> reads (case v of Valid c \<Rightarrow> f c | Expired \<Rightarrow> m | Invalid \<Rightarrow> n)"
  by (cases v) simp_all

lemma reads_bearer [intro, simp]: "reads (oauth_gate rq scopes t)" "reads (bearer_claims cfg now rq c)"
proof -
  show gate: "reads (oauth_gate rq scopes t)" for rq scopes t unfolding oauth_gate_def by (intro reads_rules)
  show "reads (bearer_claims cfg now rq c)" unfolding bearer_claims_def by (intro reads_rules gate)
qed

lemma reads_current_user [intro, simp]: "reads (get_current_user cfg now rq)"
  unfolding get_current_user_def by (intro reads_rules reads_verdict reads_bearer)

lemma reads_guards [intro, simp]:
  "reads (require_first_party st d)" "reads (client_or_refuse n d c)" "reads (grant_tournament scopes tu)"
  "reads (client_rules uris ss p)" "reads (own_client_or_refuse c usr a)" "reads (refresh_claims cfg now token)"
  "reads (event_open t)" "reads (token_scopes client cl)" "reads (requested_scopes client uri scope)"
  unfolding require_first_party_def client_or_refuse_def grant_tournament_def client_rules_def own_client_or_refuse_def
    refresh_claims_def event_open_def token_scopes_def requested_scopes_def
  by (intro reads_rules reads_verdict)+

lemma reads_authenticated [intro, simp]: "reads (authenticated_client cfg c x)" "reads (require_oauth_admin cfg now rq)"
  unfolding authenticated_client_def require_oauth_admin_def by (intro reads_rules reads_guards reads_current_user)+

section \<open>What a request may do to the tables\<close>

definition mint_pair ::
    "instant \<Rightarrow> token_ids \<Rightarrow> uid \<Rightarrow> string \<Rightarrow> oauth_scope list \<Rightarrow> uid option \<Rightarrow> uid option \<Rightarrow> auth_server \<Rightarrow> auth_server" where
  "mint_pair now ids u c scopes t parent =
     on_tables (\<lambda>d. insert_oauth_token (refresh_record now ids u c scopes t parent)
       (insert_oauth_token (access_record now ids u c scopes t parent) d))"

definition burnt :: "instant \<Rightarrow> oauth_token \<Rightarrow> oauth_token" where
  "burnt now r = r\<lparr>modified := now, deleted_at := None, ot_revoked := True\<rparr>"

text \<open>A pair may be given to a client for a user: the client is registered with the scopes and the
  user consents.\<close>

definition may_issue :: "auth_server \<Rightarrow> uid \<Rightarrow> string \<Rightarrow> oauth_scope list \<Rightarrow> uid option \<Rightarrow> bool" where
  "may_issue s u c scopes t \<longleftrightarrow>
     (case get_oauth_client_by_client_id s c of None \<Rightarrow> False | Some client \<Rightarrow> set scopes \<subseteq> set (ocl_scopes client))
     \<and> get_oauth_consent (as_db s) u c t \<noteq> None"

definition may_consent :: "auth_server \<Rightarrow> oauth_consent \<Rightarrow> bool" where
  "may_consent s x \<longleftrightarrow> (case get_oauth_client_by_client_id s (oc_client_id x) of
       None \<Rightarrow> False | Some client \<Rightarrow> set (oc_scopes x) \<subseteq> set (ocl_scopes client))
     \<and> (oc_tournament_uid x = None \<or> EVENT_RUN \<in> set (oc_scopes x))"

text \<open>
  The effects: \<open>A\<close> holds the pairs of a user and a client that may be approved, \<open>V\<close> the codes that
  may be minted, \<open>I\<close> the uids drawn for tokens.
\<close>

inductive oauth_effect ::
    "(uid \<times> string) set \<Rightarrow> string set \<Rightarrow> uid set \<Rightarrow> auth_server \<Rightarrow> auth_server \<Rightarrow> bool" for A V I where
  code_added: "oac_code c \<in> V \<Longrightarrow> oauth_effect A V I s (insert_oauth_code c s)"
| code_used: "oac_used c \<Longrightarrow> oauth_effect A V I s (update_oauth_code c s)"
| consented: "(oc_user_uid x, oc_client_id x) \<in> A \<Longrightarrow> may_consent s x \<Longrightarrow> oauth_effect A V I s (on_tables (upsert_oauth_consent x) s)"
| pair_issued: "may_issue s u c scopes t \<Longrightarrow> ti_access_uid ids \<in> I \<Longrightarrow> ti_refresh_uid ids \<in> I
    \<Longrightarrow> oauth_effect A V I s (mint_pair now ids u c scopes t None s)"
| rotated: "may_issue s u c scopes t \<Longrightarrow> ti_access_uid ids \<in> I \<Longrightarrow> ti_refresh_uid ids \<in> I
    \<Longrightarrow> r \<in> set (db_tokens (as_db s)) \<Longrightarrow> \<not> ot_revoked r \<Longrightarrow> parent = or_str (ot_parent_token_uid r) (Some (uid r))
    \<Longrightarrow> oauth_effect A V I s (mint_pair now ids u c scopes t parent (on_tables (update_oauth_token (burnt now r)) s))"
| token_burnt: "r \<in> set (db_tokens (as_db s)) \<Longrightarrow> oauth_effect A V I s (on_tables (update_oauth_token (burnt now r)) s)"
| chain_revoked: "oauth_effect A V I s (on_tables (revoke_oauth_token_chain p) s)"
| access_revoked: "oauth_effect A V I s (on_tables (revoke_oauth_tokens_for_user_client u c) s)"
| consent_dropped: "oauth_effect A V I s (on_tables (delete_oauth_consent u c) s)"
| client_added: "insert_oauth_client client s = Inr ((), s') \<Longrightarrow> oauth_effect A V I s s'"
| client_kept: "get_oauth_client_by_client_id s (ocl_client_id client') = Some client \<Longrightarrow> uid client' = uid client
    \<Longrightarrow> ocl_scopes client' = ocl_scopes client \<Longrightarrow> oauth_effect A V I s (update_oauth_client client' s)"
| client_edited: "get_oauth_client_by_client_id s (ocl_client_id client') = Some client \<Longrightarrow> uid client' = uid client
    \<Longrightarrow> removed = filter (\<lambda>x. x \<notin> set (ocl_scopes client')) (ocl_scopes client) \<Longrightarrow> removed \<noteq> []
    \<Longrightarrow> oauth_effect A V I s (on_tables (\<lambda>d. strip_oauth_consent_scopes (ocl_client_id client') removed
          (revoke_oauth_tokens_with_scopes (ocl_client_id client') removed d)) (update_oauth_client client' s))"
| client_widened: "get_oauth_client_by_client_id s (ocl_client_id client') = Some client \<Longrightarrow> uid client' = uid client
    \<Longrightarrow> set (ocl_scopes client) \<subseteq> set (ocl_scopes client') \<Longrightarrow> oauth_effect A V I s (update_oauth_client client' s)"
| changed_elsewhere: "oauth_effect A V I s (on_tables (elsewhere d) s)"
| cleaned: "oauth_effect A V I s (on_tables (cleanup_expired_oauth_tokens now) (cleanup_expired_oauth_codes now s))"

fun event_codes :: "oauth_event \<Rightarrow> string list" where
  "event_codes (AuthorizeGet k v rq q) = [v]" | "event_codes (AuthorizePost ck k v rq b) = [v]" | "event_codes _ = []"

fun event_uids :: "oauth_event \<Rightarrow> uid list" where
  "event_uids (TokenExchange ids b) = [ti_access_uid ids, ti_refresh_uid ids]" | "event_uids _ = []"

text \<open>The user who approves a client by an event, from a state\<close>

fun event_approvals :: "auth_config \<Rightarrow> auth_server \<Rightarrow> instant \<times> oauth_event \<Rightarrow> (uid \<times> string) list" where
  "event_approvals cfg s (now, AuthorizePost ck k v rq b) =
     (case fst (get_current_user cfg now rq s) of Inl _ \<Rightarrow> [] | Inr (usr, _) \<Rightarrow> [(uid usr, ap_client_id b)])"
| "event_approvals cfg s _ = []"

section \<open>Every request does nothing else\<close>

lemma client_id_found: "get_oauth_client_by_client_id s c = Some client \<Longrightarrow> ocl_client_id client = c"
  by (auto simp: get_oauth_client_by_client_id_def find_Some_iff)

lemma wp_current_user:
  "(\<And>usr st. fst (get_current_user cfg now rq s) = Inr (usr, st) \<Longrightarrow> Q (usr, st) s) \<Longrightarrow> (\<And>e. E e s)
   \<Longrightarrow> wp (get_current_user cfg now rq) Q E s"
  by (auto simp: reads_wp split: sum.split)

lemma wp_client:
  "(\<And>client. get_oauth_client_by_client_id s c = Some client \<Longrightarrow> Q client s) \<Longrightarrow> (\<And>e. E e s)
   \<Longrightarrow> wp (client_or_refuse n d c) Q E s"
  by (simp add: client_or_refuse_def wp_simps split: option.split)

lemma wp_requested_scopes:
  "(\<And>scopes. set scopes \<subseteq> set (ocl_scopes client) \<Longrightarrow> Q scopes s) \<Longrightarrow> (\<And>e. E e s)
   \<Longrightarrow> wp (requested_scopes client uri scope) Q E s"
  by (auto simp: requested_scopes_def wp_simps find_None_iff split: option.split sum.split)

lemma wp_grant_tournament:
  "Q None s \<Longrightarrow> (\<And>e. EVENT_RUN \<in> set scopes \<Longrightarrow> Q (Some e) s) \<Longrightarrow> (\<And>e. E e s)
   \<Longrightarrow> wp (grant_tournament scopes t) Q E s"
  by (auto simp: grant_tournament_def wp_simps split: option.split)

lemma wp_own_client:
  "(\<And>client. get_oauth_client_by_client_id s c = Some client \<Longrightarrow> Q client s) \<Longrightarrow> (\<And>e. E e s)
   \<Longrightarrow> wp (own_client_or_refuse c usr a) Q E s"
  by (simp add: own_client_or_refuse_def wp_simps split: option.split)

lemma wp_authenticated:
  "(\<And>client. get_oauth_client_by_client_id s (ocl_client_id client) = Some client \<Longrightarrow> Q client s) \<Longrightarrow> (\<And>e. E e s)
   \<Longrightarrow> wp (authenticated_client cfg c x) Q E s"
  unfolding authenticated_client_def wp_seq by (rule wp_client) (auto simp: wp_simps dest: client_id_found)

lemma wp_client_rules: "(\<And>x. Q x s) \<Longrightarrow> (\<And>e. E e s) \<Longrightarrow> wp (client_rules uris ss p) Q E s"
  by (rule reads_any) auto

lemma wp_issue_token_pair:
  "(\<And>x. Q x (mint_pair now ids u c scopes t parent s)) \<Longrightarrow> (\<And>e. E e s)
   \<Longrightarrow> wp (issue_token_pair cfg now ids u c scopes t parent) Q E s"
  by (simp add: issue_token_pair_def wp_simps mint_pair_def on_tables_def split: sum.split)

text \<open>From a state by effects only\<close>

definition by_effects where
  "by_effects A V I s s' \<longleftrightarrow> (oauth_effect A V I)\<^sup>*\<^sup>* s s'"

lemma by_effects_refl [simp, intro]: "by_effects A V I s s"
  by (simp add: by_effects_def)

lemma one_effect: "oauth_effect A V I s s' \<Longrightarrow> by_effects A V I s s'"
  by (simp add: by_effects_def)

lemma more_effects: "by_effects A V I s s' \<Longrightarrow> oauth_effect A V I s' s'' \<Longrightarrow> by_effects A V I s s''"
  unfolding by_effects_def by (rule rtranclp.rtrancl_into_rtrancl)

lemma effects_mono:
  assumes "oauth_effect A V I s s'" and "A \<subseteq> A'" and "V \<subseteq> V'" and "I \<subseteq> I'"
  shows "oauth_effect A' V' I' s s'"
  using assms(1)
proof (cases rule: oauth_effect.cases)
  case client_added
  then show ?thesis by (intro oauth_effect.client_added)
qed (use assms(2-4) in \<open>auto intro: oauth_effect.intros\<close>)

lemma wp_done: "wp (then_done m) (\<lambda>_. P) (\<lambda>_. P) s = wp m (\<lambda>_. P) (\<lambda>_. P) s"
  by (auto simp: then_done_def wp_def seq_def split: prod.splits sum.splits)

lemma effects_code:
  "by_effects A {value} I s0 s \<Longrightarrow> wp (issue_code now k value c u uri scopes t ch st) (\<lambda>_. by_effects A {value} I s0) (\<lambda>_. by_effects A {value} I s0) s"
  by (simp add: issue_code_def wp_simps) (rule more_effects, assumption, rule code_added, simp add: new_code_def)

lemma effects_authorize_get:
  "wp (authorize_get cfg now k value rq q) (\<lambda>_. by_effects A {value} I s) (\<lambda>_. by_effects A {value} I s) s"
  unfolding authorize_get_def wp_seq
  by (rule wp_current_user)
    (auto simp: wp_simps require_first_party_def intro!: wp_client wp_requested_scopes wp_grant_tournament effects_code)

lemma effects_authorize_post:
  assumes "set (event_approvals cfg s (now, AuthorizePost ck k value rq b)) \<subseteq> A"
  shows "wp (authorize_post cfg now ck k value rq b) (\<lambda>_. by_effects A {value} I s) (\<lambda>_. by_effects A {value} I s) s"
proof -
  have store: "by_effects A {value} I s (on_tables (upsert_oauth_consent (new_consent now ck (uid usr) (ap_client_id b) scopes t)) s)"
    if "\<exists>st. fst (get_current_user cfg now rq s) = Inr (usr, st)"
      "\<exists>client. get_oauth_client_by_client_id s (ap_client_id b) = Some client \<and> set scopes \<subseteq> set (ocl_scopes client)"
      "t = None \<or> EVENT_RUN \<in> set scopes" for usr scopes t
    by (rule one_effect, rule consented) (use that assms in \<open>auto simp: new_consent_def may_consent_def\<close>)
  show ?thesis
    unfolding authorize_post_def wp_seq
    by (rule wp_current_user)
      (auto simp: wp_simps require_first_party_def intro!: wp_client wp_requested_scopes wp_grant_tournament effects_code store)
qed

lemma effects_code_exchange:
  assumes "get_oauth_client_by_client_id s (ocl_client_id client) = Some client" and "{ti_access_uid ids, ti_refresh_uid ids} \<subseteq> I"
  shows "wp (handle_authorization_code cfg now ids b client) (\<lambda>_. by_effects A V I s) (\<lambda>_. by_effects A V I s) s"
proof -
  have redeem: "wp (code_redeemed cfg now ids client c) (\<lambda>_. by_effects A V I s) (\<lambda>_. by_effects A V I s) s"
    if "set (oac_scopes c) \<subseteq> set (ocl_scopes client)"
      "get_oauth_consent (as_db s) (oac_user_uid c) (ocl_client_id client) (oac_tournament_uid c) \<noteq> None" for c
  proof -
    let ?s = "update_oauth_code (c\<lparr>modified := now, deleted_at := None, oac_used := True\<rparr>) s"
    have used: "by_effects A V I s ?s" by (rule one_effect, rule code_used) simp
    have "may_issue ?s (oac_user_uid c) (ocl_client_id client) (oac_scopes c) (oac_tournament_uid c)"
      using that assms(1) by (simp add: may_issue_def update_oauth_code_def get_oauth_client_by_client_id_def)
    then have "by_effects A V I s (mint_pair now ids (oac_user_uid c) (ocl_client_id client) (oac_scopes c) (oac_tournament_uid c) None ?s)"
      using assms(2) by (intro more_effects [OF used] pair_issued) auto
    then show ?thesis
      unfolding code_redeemed_def wp_seq wp_unit_blocks by (intro wp_issue_token_pair used)
  qed
  show ?thesis
    unfolding handle_authorization_code_def wp_seq
    by (auto simp: code_checked_def wp_simps redeem split: option.split sum.split)
qed

lemma effects_rotate:
  assumes "get_oauth_client_by_client_id s (ocl_client_id client) = Some client" and "{ti_access_uid ids, ti_refresh_uid ids} \<subseteq> I"
    and "r \<in> set (db_tokens (as_db s))" and "\<not> ot_revoked r"
  shows "wp (rotate cfg now ids client c r) (\<lambda>_. by_effects A V I s) (\<lambda>_. by_effects A V I s) s"
proof -
  let ?s = "on_tables (update_oauth_token (burnt now r)) s" and ?p = "or_str (ot_parent_token_uid r) (Some (uid r))"
  have burn: "by_effects A V I s ?s" using assms(3) by (intro one_effect token_burnt)
  have pair: "by_effects A V I s (mint_pair now ids u (ocl_client_id client) scopes t ?p ?s)"
    if "get_oauth_consent (as_db s) u (ocl_client_id client) t \<noteq> None" "set scopes \<subseteq> set (ocl_scopes client)" for u scopes t
    by (rule one_effect, rule rotated) (use that assms in \<open>auto simp: may_issue_def\<close>)
  have scopes: "wp (token_scopes client c) (\<lambda>scopes. wp (issue_token_pair cfg now ids u (ocl_client_id client) scopes t ?p)
      (\<lambda>_. by_effects A V I s) (\<lambda>_. by_effects A V I s)) (\<lambda>_. by_effects A V I s) ?s"
    if "get_oauth_consent (as_db s) u (ocl_client_id client) t \<noteq> None" for u t
    using that burn by (auto simp: token_scopes_def wp_simps intro!: wp_issue_token_pair pair split: sum.split)
  show ?thesis
  proof (cases "cl_sub c")
    case (Some u)
    show ?thesis
      unfolding rotate_def Some option.case wp_seq
      by (auto simp: wp_simps burnt_def [symmetric] event_open_def scopes split: option.split)
  qed (simp add: rotate_def wp_simps)
qed

lemma effects_token_endpoint:
  assumes "{ti_access_uid ids, ti_refresh_uid ids} \<subseteq> I"
  shows "wp (token_endpoint cfg now ids b) (\<lambda>_. by_effects A V I s) (\<lambda>_. by_effects A V I s) s"
proof -
  have found: "r \<in> set (db_tokens (as_db s))" if "get_oauth_token_by_jti (as_db s) j = Some r" for j r
    using that by (auto simp: get_oauth_token_by_jti_def find_Some_iff)
  have chain: "by_effects A V I s (on_tables (revoke_oauth_token_chain p) s)" "by_effects A V I s (on_tables id s)" for p
    by (auto simp: on_tables_def intro: one_effect chain_revoked [unfolded on_tables_def])
  have refresh: "wp (handle_refresh_token cfg now ids b client) (\<lambda>_. by_effects A V I s) (\<lambda>_. by_effects A V I s) s"
    if "get_oauth_client_by_client_id s (ocl_client_id client) = Some client" for client
    unfolding handle_refresh_token_def wp_seq wp_unit_blocks
    by (auto simp: wp_simps reused_token_def chain intro!: reads_any effects_rotate [OF that assms] found split: option.split)
  have credentials: "wp (handle_client_credentials cfg now b client) (\<lambda>_. by_effects A V I s) (\<lambda>_. by_effects A V I s) s" for client
    by (auto simp: handle_client_credentials_def wp_simps split: sum.split)
  show ?thesis
    unfolding token_endpoint_def wp_seq
    by (rule wp_authenticated)
      (auto simp: wp_simps intro: refresh credentials effects_code_exchange [OF _ assms])
qed

lemma effects_revoke_token: "wp (revoke_token cfg now b) (\<lambda>_. by_effects A V I s) (\<lambda>_. by_effects A V I s) s"
proof -
  have "wp (case v of Valid c \<Rightarrow> f c | _ \<Rightarrow> return ()) Q E s = (case v of Valid c \<Rightarrow> wp (f c) Q E s | _ \<Rightarrow> Q () s)"
    for v and f :: "claims \<Rightarrow> (auth_server, unit) prog" and Q E and s :: auth_server
    by (cases v) (simp_all add: wp_simps)
  then show ?thesis
    unfolding revoke_token_def wp_seq
    by (intro wp_authenticated) (auto simp: wp_simps intro!: one_effect chain_revoked split: sum.split verdict.split option.split)
qed

lemma effects_revoke_consent: "wp (revoke_consent cfg now rq c) (\<lambda>_. by_effects A V I s) (\<lambda>_. by_effects A V I s) s"
proof -
  have "by_effects A V I s (on_tables (delete_oauth_consent u c) (on_tables (revoke_oauth_tokens_for_user_client u c) s))" for u
    by (rule more_effects [OF one_effect]) (rule access_revoked, rule consent_dropped)
  then show ?thesis
    unfolding revoke_consent_def wp_seq
    by (intro wp_current_user) (auto simp: wp_simps require_first_party_def)
qed

lemma wp_admin: "(\<And>usr. Q usr s) \<Longrightarrow> (\<And>e. E e s) \<Longrightarrow> wp (require_oauth_admin cfg now rq) Q E s"
  by (rule reads_any) auto

lemma effects_register: "wp (register_client cfg now k c x rq b) (\<lambda>_. by_effects A V I s) (\<lambda>_. by_effects A V I s) s"
proof -
  have "by_effects A V I s s'" if "insert_oauth_client client s = Inr (y, s')" for client y s'
    by (rule one_effect, rule client_added) (use that in simp)
  then show ?thesis
    unfolding register_client_def wp_seq
    by (intro wp_admin) (auto simp: wp_simps Let_def intro!: wp_client_rules split: sum.split)
qed

lemma effects_edit: "wp (edit_client cfg now rq c b) (\<lambda>_. by_effects A V I s) (\<lambda>_. by_effects A V I s) s"
proof -
  let ?edited = "\<lambda>client scopes purpose. client\<lparr>modified := now, ocl_redirect_uris := ed_redirect_uris b,
    ocl_scopes := scopes, ocl_email_purpose := purpose\<rparr> :: oauth_client"
  let ?removed = "\<lambda>client scopes. filter (\<lambda>x. x \<notin> set scopes) (ocl_scopes client)"
  have same: "by_effects A V I s (on_tables id (on_tables id (update_oauth_client (?edited client scopes purpose) s)))"
    if "get_oauth_client_by_client_id s c = Some client" "?removed client scopes = []" for client scopes purpose
    using one_effect [OF client_widened, of s "?edited client scopes purpose" client A V I] that client_id_found [OF that(1)]
    by (auto simp: on_tables_def filter_empty_conv)
  have less: "by_effects A V I s (on_tables (strip_oauth_consent_scopes c (?removed client scopes))
      (on_tables (revoke_oauth_tokens_with_scopes c (?removed client scopes)) (update_oauth_client (?edited client scopes purpose) s)))"
    if "get_oauth_client_by_client_id s c = Some client" "?removed client scopes \<noteq> []" for client scopes purpose
    using one_effect [OF client_edited [OF _ _ refl], of s "?edited client scopes purpose" client A V I] that client_id_found [OF that(1)]
    by (simp add: on_tables_def)
  show ?thesis
    unfolding edit_client_def wp_seq
    by (intro wp_admin) (auto simp: wp_simps Let_def intro!: wp_own_client wp_client_rules, (rule same less; assumption)+)
qed

lemma effects_client_kept:
  assumes "get_oauth_client_by_client_id s c = Some client" and "uid client' = uid client" "ocl_client_id client' = ocl_client_id client"
    "ocl_scopes client' = ocl_scopes client"
  shows "by_effects A V I s (update_oauth_client client' s)"
proof (rule one_effect, rule client_kept)
  show "get_oauth_client_by_client_id s (ocl_client_id client') = Some client"
    using assms(1,3) client_id_found [OF assms(1)] by simp
qed (use assms in simp_all)

text \<open>Every request changes the tables by the effects its labels allow, and by nothing else.\<close>

lemma step_by_effects:
  assumes "set (event_approvals cfg s e) \<subseteq> A" and "set (event_codes (snd e)) \<subseteq> V" and "set (event_uids (snd e)) \<subseteq> I"
  shows "by_effects A V I s (oauth_step cfg e s)"
proof -
  obtain now ev where e: "e = (now, ev)" by (cases e)
  have widen: "by_effects A V I s s'" if "by_effects A {v} I s s'" "v \<in> V" for s s' v
    using that(1) unfolding by_effects_def
    by (rule rtranclp_mono [THEN predicate2D, rotated]) (use that(2) in \<open>auto intro: effects_mono\<close>)
  have kept: "wp (then_done m) (\<lambda>_. by_effects A V I s) (\<lambda>_. by_effects A V I s) s" if "reads m" for m :: "(auth_server, 'x) prog"
    unfolding wp_done by (rule reads_any [OF that]) auto
  have "wp (oauth_event_prog cfg now ev) (\<lambda>_. by_effects A V I s) (\<lambda>_. by_effects A V I s) s"
  proof (cases ev)
    case (AuthorizeGet k v rq q)
    then show ?thesis using assms(2) e by (auto simp: wp_done intro: wp_mono [OF effects_authorize_get] widen)
  next
    case (AuthorizePost ck k v rq b)
    have "set (event_approvals cfg s (now, AuthorizePost ck k v rq b)) \<subseteq> A" "v \<in> V"
      using assms(1,2) by (simp_all only: e AuthorizePost) simp_all
    then show ?thesis unfolding AuthorizePost oauth_event_prog.simps wp_done
      by (intro wp_mono [OF effects_authorize_post] widen)
  next
    case (TokenExchange ids b)
    then show ?thesis using assms(3) e by (auto simp: wp_done intro: effects_token_endpoint)
  next
    case (UserInfo rq)
    have "reads (userinfo cfg now rq)" unfolding userinfo_def by (intro reads_rules reads_current_user)
    then show ?thesis using UserInfo kept by simp
  next
    case (ListConsents rq)
    have "reads (list_consents cfg now rq)" unfolding list_consents_def by (intro reads_rules reads_current_user reads_guards)
    then show ?thesis using ListConsents kept by simp
  next
    case (ListClients rq)
    have "reads (list_clients cfg now rq)" unfolding list_clients_def by (intro reads_rules reads_authenticated)
    then show ?thesis using ListClients kept by simp
  next
    case (RegenerateSecret x rq c)
    show ?thesis unfolding RegenerateSecret oauth_event_prog.simps wp_done regenerate_secret_def wp_seq
      by (intro wp_admin wp_own_client) (auto simp: wp_simps intro: effects_client_kept)
  next
    case (DeactivateClient rq c)
    show ?thesis unfolding DeactivateClient oauth_event_prog.simps deactivate_client_def wp_seq
      by (intro wp_admin wp_own_client) (auto simp: wp_simps intro: effects_client_kept)
  qed (auto simp: wp_done wp_simps intro: effects_revoke_token effects_revoke_consent effects_register effects_edit one_effect cleaned changed_elsewhere)
  then show ?thesis by (simp add: wp_state oauth_step_def e)
qed

lemma effects_keep:
  assumes "by_effects A V I s s'" and "P s" and "\<And>s s'. oauth_effect A V I s s' \<Longrightarrow> P s \<Longrightarrow> P s'"
  shows "P s'"
  using assms(1) unfolding by_effects_def by (induction rule: rtranclp_induct) (use assms(2,3) in auto)

section \<open>What is left of the tables\<close>

lemma burnt_simps [simp]: "ot_user_uid (burnt now r) = ot_user_uid r" "ot_client_id (burnt now r) = ot_client_id r"
  "ot_revoked (burnt now r)" "uid (burnt now r) = uid r" "ot_parent_token_uid (burnt now r) = ot_parent_token_uid r"
  "ot_scopes (burnt now r) = ot_scopes r"
  by (simp_all add: burnt_def)

text \<open>The same token, at most revoked in between\<close>

definition same_token :: "oauth_token \<Rightarrow> oauth_token \<Rightarrow> bool" where
  "same_token x x' \<longleftrightarrow> uid x' = uid x \<and> ot_user_uid x' = ot_user_uid x \<and> ot_client_id x' = ot_client_id x
     \<and> ot_scopes x' = ot_scopes x \<and> ot_parent_token_uid x' = ot_parent_token_uid x \<and> (ot_revoked x' \<or> \<not> ot_revoked x)"

lemma same_token_simps [simp]: "same_token x x" "same_token x (x\<lparr>ot_revoked := True\<rparr>)" "same_token x (burnt now x)"
  by (simp_all add: same_token_def)

text \<open>A token that was not there: of a new lineage, or of the lineage of a live token\<close>

definition minted_token :: "uid set \<Rightarrow> auth_server \<Rightarrow> oauth_token \<Rightarrow> bool" where
  "minted_token I s x \<longleftrightarrow> (\<exists>t. may_issue s (ot_user_uid x) (ot_client_id x) (ot_scopes x) t) \<and> uid x \<in> I
     \<and> (ot_parent_token_uid x = None \<or> (\<exists>k \<in> I. ot_parent_token_uid x = Some k)
        \<or> (\<exists>r \<in> set (db_tokens (as_db s)). \<not> ot_revoked r \<and> ot_parent_token_uid x = or_str (ot_parent_token_uid r) (Some (uid r))))"

lemma upsert_tokens [simp]: "db_tokens (upsert_oauth_consent x d) = db_tokens d"
  by (simp add: upsert_oauth_consent_def split: option.split)

lemma effect_tokens:
  assumes "oauth_effect A V I s s'" and "x' \<in> set (db_tokens (as_db s'))"
  shows "(\<exists>x \<in> set (db_tokens (as_db s)). same_token x x') \<or> minted_token I s x'"
proof -
  have kept: "\<exists>x \<in> set xs. same_token x x'" if "x' \<in> set (map (\<lambda>x. if P x then x\<lparr>ot_revoked := True\<rparr> else x) xs)" for P xs
  proof -
    from that obtain x where "x \<in> set xs" "x' = (if P x then x\<lparr>ot_revoked := True\<rparr> else x)" by auto
    then show ?thesis by (intro bexI [of _ x]) auto
  qed
  have burn: "\<exists>x \<in> set xs. same_token x x'" if "x' \<in> set (map (\<lambda>x. if uid x = uid r then burnt now r else x) xs)" "r \<in> set xs" for r now xs
  proof -
    from that obtain x where "x \<in> set xs" "x' = (if uid x = uid r then burnt now r else x)" by auto
    then show ?thesis using that(2) by (cases "uid x = uid r") (auto intro: bexI [of _ r] bexI [of _ x])
  qed
  have old: ?thesis if "x' \<in> set (db_tokens (as_db s))"
    using that same_token_simps(1) by blast
  show ?thesis
    using assms(1)
  proof (cases rule: oauth_effect.cases)
    case (pair_issued u c scopes t ids now)
    have "x' \<in> set (db_tokens (as_db s)) \<or> x' = access_record now ids u c scopes t None \<or> x' = refresh_record now ids u c scopes t None"
      using assms(2) pair_issued(1) by (auto simp: mint_pair_def on_tables_def insert_oauth_token_def)
    then show ?thesis
    proof (elim disjE)
      assume "x' \<in> set (db_tokens (as_db s))"
      then show ?thesis by (rule old)
    qed (use pair_issued in \<open>auto simp: minted_token_def access_record_def refresh_record_def or_str_def\<close>)
  next
    case (rotated u c scopes t ids r parent now)
    have "x' \<in> set (map (\<lambda>x. if uid x = uid r then burnt now r else x) (db_tokens (as_db s)))
        \<or> x' = access_record now ids u c scopes t parent \<or> x' = refresh_record now ids u c scopes t parent"
      using assms(2) rotated(1) by (auto simp: mint_pair_def on_tables_def insert_oauth_token_def update_oauth_token_def)
    then show ?thesis
    proof (elim disjE)
      assume "x' \<in> set (map (\<lambda>x. if uid x = uid r then burnt now r else x) (db_tokens (as_db s)))"
      then show ?thesis using burn rotated(5) by blast
    next
      assume "x' = access_record now ids u c scopes t parent"
      then show ?thesis using rotated by (auto simp: minted_token_def access_record_def)
    next
      assume x': "x' = refresh_record now ids u c scopes t parent"
      have "ot_parent_token_uid x' = parent \<or> ot_parent_token_uid x' = Some (ti_access_uid ids)"
        by (simp add: x' refresh_record_def or_str_def)
      moreover have "uid x' \<in> I" "ot_user_uid x' = u" "ot_client_id x' = c" "ot_scopes x' = scopes"
        using rotated by (simp_all add: x' refresh_record_def)
      ultimately show ?thesis using rotated(2,3,5,6,7) unfolding minted_token_def by blast
    qed
  next
    case (token_burnt r now)
    then have "x' \<in> set (map (\<lambda>x. if uid x = uid r then burnt now r else x) (db_tokens (as_db s)))"
      using assms(2) by (simp add: on_tables_def update_oauth_token_def)
    then show ?thesis using burn token_burnt(2) by blast
  next
    case (chain_revoked p)
    then have "x' \<in> set (map (\<lambda>x. if in_chain p x then x\<lparr>ot_revoked := True\<rparr> else x) (db_tokens (as_db s)))"
      using assms(2) by (simp add: on_tables_def revoke_oauth_token_chain_def)
    then show ?thesis using kept by blast
  next
    case (access_revoked u c)
    then have "x' \<in> set (map (\<lambda>x. if ot_user_uid x = u \<and> ot_client_id x = c then x\<lparr>ot_revoked := True\<rparr> else x) (db_tokens (as_db s)))"
      using assms(2) by (simp add: on_tables_def revoke_oauth_tokens_for_user_client_def)
    then show ?thesis by (intro disjI1 kept [of "\<lambda>x. ot_user_uid x = u \<and> ot_client_id x = c"])
  next
    case (client_edited client' client removed)
    then have "x' \<in> set (map (\<lambda>x. if ot_client_id x = ocl_client_id client' \<and> holds_any removed (ot_scopes x)
        then x\<lparr>ot_revoked := True\<rparr> else x) (db_tokens (as_db s)))"
      using assms(2) by (simp add: on_tables_def strip_oauth_consent_scopes_def revoke_oauth_tokens_with_scopes_def
          update_oauth_client_def Let_def)
    then show ?thesis
      by (intro disjI1 kept [of "\<lambda>x. ot_client_id x = ocl_client_id client' \<and> holds_any removed (ot_scopes x)"])
  next
    case (client_added client)
    then have "db_tokens (as_db s') = db_tokens (as_db s)" by (auto simp: insert_oauth_client_def split: if_splits)
    then show ?thesis using assms(2) by (intro old) simp
  qed (rule old, use assms(2) in \<open>simp add: on_tables_def insert_oauth_code_def update_oauth_code_def delete_oauth_consent_def
      update_oauth_client_def cleanup_expired_oauth_tokens_def cleanup_expired_oauth_codes_def elsewhere_def\<close>)+
qed

text \<open>The same consent, at most narrowed\<close>

definition same_consent :: "oauth_consent \<Rightarrow> oauth_consent \<Rightarrow> bool" where
  "same_consent x x' \<longleftrightarrow> oc_user_uid x' = oc_user_uid x \<and> oc_client_id x' = oc_client_id x
     \<and> oc_tournament_uid x' = oc_tournament_uid x \<and> set (oc_scopes x') \<subseteq> set (oc_scopes x)
     \<and> (oc_scopes x' = oc_scopes x \<or> oc_tournament_uid x' = None \<or> EVENT_RUN \<in> set (oc_scopes x'))"

lemma effect_consents:
  assumes "oauth_effect A V I s s'" and "x' \<in> snd ` set (db_consents (as_db s'))"
  shows "(\<exists>x \<in> snd ` set (db_consents (as_db s)). same_consent x x')
    \<or> (oc_user_uid x', oc_client_id x') \<in> A \<and> may_consent s x'"
proof -
  have refl: "same_consent x x" for x by (simp add: same_consent_def)
  have upsert: "x' = x \<or> x' \<in> snd ` set (db_consents d)" if "x' \<in> snd ` set (db_consents (upsert_oauth_consent x d))" for x d
    using that by (force simp: upsert_oauth_consent_def split: option.splits if_splits)
  have strip: "\<exists>x \<in> snd ` set (db_consents d). same_consent x x'"
    if "x' \<in> snd ` set (db_consents (strip_oauth_consent_scopes c removed d))" for c removed d
    using that by (force simp: strip_oauth_consent_scopes_def Let_def same_consent_def split: if_splits)
  show ?thesis
    using assms(1)
  proof (cases rule: oauth_effect.cases)
    case (consented x)
    then have "x' = x \<or> x' \<in> snd ` set (db_consents (as_db s))" using assms(2) upsert by (simp add: on_tables_def)
    then show ?thesis using consented refl by blast
  next
    case (client_edited client' client removed)
    then have "x' \<in> snd ` set (db_consents (strip_oauth_consent_scopes (ocl_client_id client') removed
        (revoke_oauth_tokens_with_scopes (ocl_client_id client') removed (as_db s))))"
      using assms(2) by (simp add: on_tables_def update_oauth_client_def)
    from strip [OF this] show ?thesis by (simp add: revoke_oauth_tokens_with_scopes_def)
  next
    case (client_added client)
    then have "x' \<in> snd ` set (db_consents (as_db s))" using assms(2) by (auto simp: insert_oauth_client_def split: if_splits)
    then show ?thesis using refl by blast
  next
    case (consent_dropped u c)
    then have "x' \<in> snd ` set (db_consents (as_db s))" using assms(2) by (auto simp: on_tables_def delete_oauth_consent_def)
    then show ?thesis using refl by blast
  qed (use assms(2) refl in \<open>auto simp: on_tables_def insert_oauth_code_def update_oauth_code_def update_oauth_token_def mint_pair_def
      insert_oauth_token_def revoke_oauth_token_chain_def revoke_oauth_tokens_for_user_client_def update_oauth_client_def
      cleanup_expired_oauth_tokens_def cleanup_expired_oauth_codes_def elsewhere_def\<close>)
qed

end
