(* ===== verification/OAuth_Laws.thy ===== *)
theory OAuth_Laws
  imports OAuth_Effects Accounts_Laws
begin

text \<open>
  What the authorisation server promises, over any sequence of requests: a revoked consent stays
  revoked, a code is redeemed once, a stolen lineage of tokens stays dead, no live token carries a
  scope its client is not registered for, a token for an event stays on its event.
\<close>

section \<open>A revoked consent\<close>

text \<open>Nothing of a client's is left for a user.\<close>

definition cut_off :: "uid \<Rightarrow> string \<Rightarrow> auth_server \<Rightarrow> bool" where
  "cut_off u c s \<longleftrightarrow> live_tokens_of (as_db s) u c = [] \<and> consents_of (as_db s) u c = []"

lemma cut_off_iff:
  "cut_off u c s \<longleftrightarrow> (\<forall>x \<in> set (db_tokens (as_db s)). ot_user_uid x = u \<and> ot_client_id x = c \<longrightarrow> ot_revoked x)
     \<and> (\<forall>(_, x) \<in> set (db_consents (as_db s)). \<not> (oc_user_uid x = u \<and> oc_client_id x = c))"
  by (auto simp: cut_off_def live_tokens_of_def consents_of_def filter_empty_conv)

lemma may_issue_cut: "may_issue s u' c' scopes t \<Longrightarrow> cut_off u c s \<Longrightarrow> \<not> (u' = u \<and> c' = c)"
  by (force simp: may_issue_def cut_off_iff get_oauth_consent_def find_None_iff)

lemma effect_cut_off:
  assumes "oauth_effect A V I s s'" and "(u, c) \<notin> A" and "cut_off u c s"
  shows "cut_off u c s'"
  unfolding cut_off_iff
proof (intro conjI ballI impI)
  fix x' assume x': "x' \<in> set (db_tokens (as_db s'))" and own: "ot_user_uid x' = u \<and> ot_client_id x' = c"
  from effect_tokens [OF assms(1) x'] show "ot_revoked x'"
  proof
    assume "\<exists>x \<in> set (db_tokens (as_db s)). same_token x x'"
    then show ?thesis using own assms(3) by (auto simp: same_token_def cut_off_iff)
  next
    assume "minted_token I s x'"
    then show ?thesis using own may_issue_cut [OF _ assms(3)] by (auto simp: minted_token_def)
  qed
next
  fix y assume "y \<in> set (db_consents (as_db s'))"
  then have y: "y = (fst y, snd y)" "snd y \<in> snd ` set (db_consents (as_db s'))" by simp_all
  from effect_consents [OF assms(1) y(2)] have "\<not> (oc_user_uid (snd y) = u \<and> oc_client_id (snd y) = c)"
    using assms(2,3) by (auto simp: same_consent_def cut_off_iff)
  then show "case y of (k, x) \<Rightarrow> \<not> (oc_user_uid x = u \<and> oc_client_id x = c)" by (simp add: case_prod_beta)
qed

text \<open>No event of a sequence is the user's approval of the client.\<close>

fun never_approves :: "auth_config \<Rightarrow> uid \<Rightarrow> string \<Rightarrow> (instant \<times> oauth_event) list \<Rightarrow> auth_server \<Rightarrow> bool" where
  "never_approves cfg u c [] s = True"
| "never_approves cfg u c (e # es) s =
     ((u, c) \<notin> set (event_approvals cfg s e) \<and> never_approves cfg u c es (oauth_step cfg e s))"

lemma never_approves_cut:
  "never_approves cfg u c es s \<Longrightarrow> cut_off u c s \<Longrightarrow> cut_off u c (fold (oauth_step cfg) es s)"
proof (induction es arbitrary: s)
  case (Cons e es)
  have "by_effects (set (event_approvals cfg s e)) UNIV UNIV s (oauth_step cfg e s)"
    by (rule step_by_effects) auto
  then have "cut_off u c (oauth_step cfg e s)"
    by (rule effects_keep [where P = "cut_off u c", OF _ Cons.prems(2)]) (use Cons.prems(1) in \<open>auto intro: effect_cut_off\<close>)
  then show ?case using Cons by simp
qed simp

text \<open>A bearer token with a record of that user and client is refused.\<close>

lemma cut_off_bearer:
  assumes "cut_off u c s" and "get_oauth_token_by_jti (as_db s) (str_default (cl_jti cl)) = Some r"
    and "ot_user_uid r = u" and "ot_client_id r = c" and "cl_type cl = Some ''oauth_access''"
  shows "\<exists>d. bearer_claims cfg now rq cl s = (Inl (HTTPException 401 d), s)"
proof -
  have "r \<in> set (db_tokens (as_db s))" using assms(2) by (auto simp: get_oauth_token_by_jti_def find_Some_iff)
  then have "ot_revoked r" using assms by (auto simp: cut_off_iff)
  then show ?thesis using assms(2,5) by (simp add: bearer_claims_def seq_def refuse_def)
qed

lemma revoked_now: "cut_off u c (on_tables (delete_oauth_consent u c) (on_tables (revoke_oauth_tokens_for_user_client u c) s))"
proof -
  have "filter (\<lambda>x. ot_user_uid x = u \<and> ot_client_id x = c \<and> \<not> ot_revoked x)
      (map (\<lambda>x. if ot_user_uid x = u \<and> ot_client_id x = c then x\<lparr>ot_revoked := True\<rparr> else x) xs) = []" for xs :: "oauth_token list"
    by (induction xs) auto
  moreover have "filter (\<lambda>x. oc_user_uid x = u \<and> oc_client_id x = c)
      (map snd (filter (\<lambda>(_, x). \<not> (oc_user_uid x = u \<and> oc_client_id x = c)) xs)) = []" for xs :: "(uid \<times> oauth_consent) list"
    by (induction xs) auto
  ultimately show ?thesis
    by (simp add: cut_off_def live_tokens_of_def consents_of_def on_tables_def delete_oauth_consent_def
        revoke_oauth_tokens_for_user_client_def)
qed

text \<open>C29: A revoked consent cuts the client off, at once and for good: after a member revokes an app,
  whatever requests follow, as long as the member does not approve that app again, there is no
  consent and no live token of theirs for it, and every access token it still holds is refused.\<close>

theorem revoked_consent_cuts_off:
  assumes "fst (get_current_user cfg now rq s) = Inr (usr, st)" and "revoke_consent cfg now rq c s = (Inr n, s1)"
    and "never_approves cfg (uid usr) c evs s1"
  shows "let s2 = fold (oauth_step cfg) evs s1
    in live_tokens_of (as_db s2) (uid usr) c = [] \<and> consents_of (as_db s2) (uid usr) c = []
     \<and> (\<forall>cl. case get_oauth_token_by_jti (as_db s2) (str_default (cl_jti cl)) of
          Some r \<Rightarrow> if ot_user_uid r = uid usr \<and> ot_client_id r = c \<and> cl_type cl = Some ''oauth_access''
            then (\<exists>d. bearer_claims cfg now' rq' cl s2 = (Inl (HTTPException 401 d), s2)) else True
        | None \<Rightarrow> True)"
proof -
  have "wp (revoke_consent cfg now rq c) (\<lambda>_. cut_off (uid usr) c) (\<lambda>_ _. True) s"
    unfolding revoke_consent_def wp_seq
  proof (rule wp_current_user)
    fix usr' st' assume "fst (get_current_user cfg now rq s) = Inr (usr', st')"
    then have "usr' = usr" using assms(1) by simp
    then show "(\<lambda>x. wp (case x of (usr, st) \<Rightarrow> seq (require_first_party st CONSENT_DETAIL) (\<lambda>_.
        seq (gets (\<lambda>s. length (live_tokens_of (as_db s) (uid usr) c))) (\<lambda>revoked.
        seq (modify (on_tables (revoke_oauth_tokens_for_user_client (uid usr) c))) (\<lambda>_.
        seq (gets (\<lambda>s. consents_of (as_db s) (uid usr) c \<noteq> [])) (\<lambda>deleted.
        seq (modify (on_tables (delete_oauth_consent (uid usr) c))) (\<lambda>_.
        seq (check (deleted \<or> revoked \<noteq> 0) 404 ''No authorization found for this app'') (\<lambda>_. return revoked)))))))
        (\<lambda>_. cut_off (uid usr) c) (\<lambda>_ _. True)) (usr', st') s"
      by (simp add: wp_simps require_first_party_def revoked_now)
  qed simp
  then have "cut_off (uid usr) c s1" by (rule wp_result(1)) (rule assms(2))
  then have cut: "cut_off (uid usr) c (fold (oauth_step cfg) evs s1)" by (rule never_approves_cut [OF assms(3)])
  show ?thesis
    unfolding Let_def using cut cut_off_bearer [OF cut] by (auto simp: cut_off_def split: option.split)
qed

section \<open>A stolen lineage\<close>

definition dead_chain :: "uid \<Rightarrow> auth_server \<Rightarrow> bool" where
  "dead_chain p s \<longleftrightarrow> list_all (\<lambda>x. if in_chain p x then ot_revoked x else True) (db_tokens (as_db s))"

lemma dead_chain_iff: "dead_chain p s \<longleftrightarrow> (\<forall>x \<in> set (db_tokens (as_db s)). in_chain p x \<longrightarrow> ot_revoked x)"
  by (simp add: dead_chain_def list_all_iff)

lemma effect_dead_chain:
  assumes "oauth_effect A V I s s'" and "p \<notin> I" and "p \<noteq> []" and "dead_chain p s"
  shows "dead_chain p s'"
  unfolding dead_chain_iff
proof (intro ballI impI)
  fix x' assume x': "x' \<in> set (db_tokens (as_db s'))" and chain: "in_chain p x'"
  from effect_tokens [OF assms(1) x'] show "ot_revoked x'"
  proof
    assume "\<exists>x \<in> set (db_tokens (as_db s)). same_token x x'"
    then show ?thesis using chain assms(4) by (auto simp: same_token_def dead_chain_iff in_chain_def)
  next
    assume minted: "minted_token I s x'"
    then have "uid x' \<in> I" by (simp add: minted_token_def)
    then have parent: "ot_parent_token_uid x' = Some p" using chain assms(2) by (auto simp: in_chain_def)
    then obtain r where r: "r \<in> set (db_tokens (as_db s))" "\<not> ot_revoked r" "or_str (ot_parent_token_uid r) (Some (uid r)) = Some p"
      using minted assms(2) unfolding minted_token_def by auto
    then have "in_chain p r" using assms(3) by (auto simp: in_chain_def or_str_def split: if_splits)
    then show ?thesis using r assms(4) by (auto simp: dead_chain_iff)
  qed
qed

lemma fold_dead_chain:
  "list_all (\<lambda>e. p \<notin> set (event_uids (snd e))) es \<Longrightarrow> p \<noteq> [] \<Longrightarrow> dead_chain p s \<Longrightarrow> dead_chain p (fold (oauth_step cfg) es s)"
proof (induction es arbitrary: s)
  case (Cons e es)
  have "by_effects UNIV UNIV (set (event_uids (snd e))) s (oauth_step cfg e s)"
    by (rule step_by_effects) auto
  then have "dead_chain p (oauth_step cfg e s)"
    by (rule effects_keep [where P = "dead_chain p", OF _ Cons.prems(3)]) (use Cons.prems(1,2) in \<open>auto intro: effect_dead_chain\<close>)
  then show ?case using Cons by simp
qed simp

text \<open>C30: A refresh token presented again after its rotation kills its whole lineage: the request is
  refused, every token of the lineage is revoked, and whatever requests follow (as long as the uids
  drawn are new) no token of that lineage is ever live again.\<close>

theorem refresh_reuse_kills_lineage:
  assumes "decode (ac_jwt cfg) (ac_env cfg) now (tr_refresh_token b) AUDIENCE_APP True = Inr (Valid cl)"
    and "tr_refresh_token b \<noteq> []" and "cl_type cl = Some ''oauth_refresh''" and "cl_client_id cl = Some (ocl_client_id client)"
    and "get_oauth_token_by_jti (as_db s) (str_default (cl_jti cl)) = Some r" and "ot_revoked r"
    and "ot_parent_token_uid r = Some p" and "p \<noteq> []" and "list_all (\<lambda>e. p \<notin> set (event_uids (snd e))) evs"
  shows "case handle_refresh_token cfg now ids b client s of
      (Inl e, s1) \<Rightarrow> e = HTTPException 400 ''Refresh token has been revoked''
        \<and> list_all (\<lambda>x. if in_chain p x then ot_revoked x else True) (db_tokens (as_db (fold (oauth_step cfg) evs s1)))
    | (Inr _, _) \<Rightarrow> False"
proof -
  let ?s1 = "on_tables (revoke_oauth_token_chain p) s"
  have run: "handle_refresh_token cfg now ids b client s = (Inl (HTTPException 400 ''Refresh token has been revoked''), ?s1)"
    using assms(1-8) by (simp add: handle_refresh_token_def refresh_claims_def reused_token_def seq_def check_def lift_res_def refuse_def
        truthy_str_def str_default_def)
  have "dead_chain p ?s1"
    by (auto simp: dead_chain_iff on_tables_def revoke_oauth_token_chain_def)
  then have "dead_chain p (fold (oauth_step cfg) evs ?s1)" by (rule fold_dead_chain [OF assms(9,8)])
  then show ?thesis unfolding run prod.case sum.case dead_chain_def by blast
qed

section \<open>A code is redeemed once\<close>

definition spent :: "string \<Rightarrow> auth_server \<Rightarrow> bool" where
  "spent v s \<longleftrightarrow> (\<forall>x \<in> set (as_codes s). oac_code x = v \<longrightarrow> oac_used x)"

lemma effect_spent:
  assumes "oauth_effect A V I s s'" and "v \<notin> V" and "spent v s"
  shows "spent v s'"
  using assms(1)
proof (cases rule: oauth_effect.cases)
  case (client_added client)
  then show ?thesis using assms(3) by (auto simp: insert_oauth_client_def spent_def split: if_splits)
qed (use assms(2,3) in \<open>auto simp: spent_def on_tables_def insert_oauth_code_def update_oauth_code_def mint_pair_def
    update_oauth_client_def cleanup_expired_oauth_codes_def split: if_splits\<close>)

lemma fold_spent:
  "list_all (\<lambda>e. v \<notin> set (event_codes (snd e))) es \<Longrightarrow> spent v s \<Longrightarrow> spent v (fold (oauth_step cfg) es s)"
proof (induction es arbitrary: s)
  case (Cons e es)
  have "by_effects UNIV (set (event_codes (snd e))) UNIV s (oauth_step cfg e s)"
    by (rule step_by_effects) auto
  then have "spent v (oauth_step cfg e s)"
    by (rule effects_keep [where P = "spent v", OF _ Cons.prems(2)]) (use Cons.prems(1) in \<open>auto intro: effect_spent\<close>)
  then show ?case using Cons by simp
qed simp

lemma spent_refused:
  assumes "spent (tr_code b) s" and "tr_grant_type b = ''authorization_code''"
  shows "wp (token_endpoint cfg now ids b) (\<lambda>_ _. False) (\<lambda>_ s'. s' = s) s"
proof -
  have "oac_used c" if "get_oauth_code s (tr_code b) = Some c" for c
    using that assms(1) by (auto simp: get_oauth_code_def find_Some_iff spent_def)
  then show ?thesis
    unfolding token_endpoint_def wp_seq
    by (intro wp_authenticated) (auto simp: assms(2) wp_simps handle_authorization_code_def code_checked_def split: option.split)
qed

text \<open>C31: An authorisation code is redeemed at most once: after a successful exchange, whatever
  requests follow that mint other codes, presenting the code again is refused and changes nothing.\<close>

theorem code_redeemed_once:
  assumes "distinct (map oac_code (as_codes s))" and "tr_grant_type b = ''authorization_code''"
    and "token_endpoint cfg now ids b s = (Inr reply, s1)"
    and "list_all (\<lambda>e. tr_code b \<notin> set (event_codes (snd e))) evs"
    and "tr_grant_type b' = ''authorization_code''" and "tr_code b' = tr_code b"
  shows "case token_endpoint cfg now' ids' b' (fold (oauth_step cfg) evs s1) of
      (Inl _, s2) \<Rightarrow> s2 = fold (oauth_step cfg) evs s1 | (Inr _, _) \<Rightarrow> False"
proof -
  have used: "spent (tr_code b) (update_oauth_code (c\<lparr>modified := now, deleted_at := None, oac_used := True\<rparr>) s)"
    if "get_oauth_code s (tr_code b) = Some c" for c
  proof -
    have c: "c \<in> set (as_codes s)" "oac_code c = tr_code b" using that by (auto simp: get_oauth_code_def find_Some_iff)
    have inj: "inj_on oac_code (set (as_codes s))" using assms(1) by (simp only: distinct_map)
    have only: "uid x = uid c" if "x \<in> set (as_codes s)" "oac_code x = tr_code b" for x
      using inj_onD [OF inj _ that(1) c(1)] that(2) c(2) by simp
    show ?thesis
      unfolding spent_def update_oauth_code_def by (auto split: if_splits dest: only)
  qed
  have redeem: "wp (code_redeemed cfg now ids client c) (\<lambda>_. spent (tr_code b)) (\<lambda>_ _. True) s"
    if "get_oauth_code s (tr_code b) = Some c" for client c
  proof -
    have "spent (tr_code b) (mint_pair now ids u cid scopes t None s')" if "spent (tr_code b) s'" for u cid scopes t s'
      using that by (simp add: spent_def mint_pair_def on_tables_def)
    then show ?thesis
      unfolding code_redeemed_def wp_seq wp_unit_blocks using used [OF that] by (intro wp_issue_token_pair) auto
  qed
  have exchange: "wp (handle_authorization_code cfg now ids b client) (\<lambda>_. spent (tr_code b)) (\<lambda>_ _. True) s" for client
    unfolding handle_authorization_code_def code_checked_def wp_seq
    by (simp add: wp_simps redeem split: option.split sum.split)
  have "wp (token_endpoint cfg now ids b) (\<lambda>_. spent (tr_code b)) (\<lambda>_ _. True) s"
    unfolding token_endpoint_def wp_seq by (intro wp_authenticated) (simp_all add: assms(2) exchange)
  then have "spent (tr_code b) s1" by (rule wp_result(1)) (rule assms(3))
  then have "spent (tr_code b') (fold (oauth_step cfg) evs s1)" unfolding assms(6) by (rule fold_spent [OF assms(4)])
  from spent_refused [OF this assms(5)] show ?thesis by (auto simp: wp_def split: prod.splits sum.splits)
qed

section \<open>A sample server\<close>

text \<open>A library that finds one set of claims in any token, on the development key\<close>

definition sample_config :: "claims \<Rightarrow> auth_config" where
  "sample_config c = \<lparr>ac_jwt = \<lparr>jl_public = (\<lambda>k. k), jl_encode = (\<lambda>_ _ _ _. ''t''),
     jl_header_kid = (\<lambda>_. Inr (Some (kid DEV_SEED))), jl_decode = (\<lambda>_ _ _ _. Valid c)\<rparr>,
     ac_env = \<lparr>env_ENVIRONMENT = None, env_JWT_PRIVATE_KEY = [], env_JWT_PUBLIC_KEYS = []\<rparr>,
     ac_verify = (\<lambda>h v. h = v), ac_hash = (\<lambda>v. v)\<rparr>"

lemma sample_decode: "decode (ac_jwt (sample_config c)) (ac_env (sample_config c)) now t a e = Inr (Valid c)"
  by (simp add: decode_def sample_config_def verification_keys_def configured_private_def split_keys_def)

lemma sample_sign: "sign (ac_jwt (sample_config c)) (ac_env (sample_config c)) cl a = Inr ''t''"
  by (simp add: sign_def signing_key_def sample_config_def configured_private_def)

definition sample_client :: oauth_client where
  "sample_client = \<lparr>uid = ''a'', modified = Instant 2026 1 1 0, deleted_at = None, ocl_name = ''App'', ocl_client_id = ''app'',
     ocl_client_secret_hash = ''s3'', ocl_redirect_uris = [''https://app/cb''], ocl_scopes = [PROFILE_READ, EVENT_RUN],
     ocl_created_by_uid = ''ic'', ocl_active = True, ocl_email_purpose = None\<rparr>"

definition sample_token :: "bool \<Rightarrow> uid option \<Rightarrow> oauth_token" where
  "sample_token revoked parent = access_record (Instant 2026 1 1 0) \<lparr>ti_access_jti = ''j'', ti_refresh_jti = ''r'', ti_access_uid = ''x'',
     ti_refresh_uid = ''y''\<rparr> ''k'' ''app'' [EVENT_RUN] (Some ''e'') parent\<lparr>ot_revoked := revoked\<rparr>"

definition sample_code :: oauth_authorization_code where
  "sample_code = new_code (Instant 2026 1 1 0) ''c'' ''code'' ''app'' ''k'' ''https://app/cb'' [EVENT_RUN] (Some ''e'')
     (b64url (sha256 (latin_bytes ''verifier'')))"

definition sample_server :: "db \<Rightarrow> bool \<Rightarrow> uid option \<Rightarrow> auth_server" where
  "sample_server d revoked parent = \<lparr>as_db = d\<lparr>db_tokens := [sample_token revoked parent],
     db_consents := [(''cs'', new_consent (Instant 2026 1 1 0) ''cs'' ''k'' ''app'' [EVENT_RUN] (Some ''e''))]\<rparr>,
     as_clients = [sample_client], as_codes = [sample_code]\<rparr>"

lemma sample_server_simps:
  "get_user_by_uid (as_db (sample_server d v p)) u = get_user_by_uid d u"
  "db_tokens (as_db (sample_server d v p)) = [sample_token v p]"
  "as_codes (sample_server d v p) = [sample_code]" "as_clients (sample_server d v p) = [sample_client]"
  "db_consents (as_db (sample_server d v p)) = [(''cs'', new_consent (Instant 2026 1 1 0) ''cs'' ''k'' ''app'' [EVENT_RUN] (Some ''e''))]"
  by (simp_all add: sample_server_def get_user_by_uid_def get_object_full_def)

definition sample_request :: "string \<Rightarrow> http_request" where
  "sample_request path = \<lparr>rq_authorization = Some ''Bearer t'', rq_method = ''POST'', rq_path = path, rq_tournament_param = None\<rparr>"

definition sample_claims :: "string \<Rightarrow> claims" where
  "sample_claims type = \<lparr>cl_sub = Some ''k'', cl_type = Some type, cl_scope = Some ''event:run'', cl_client_id = Some ''app'',
     cl_jti = Some ''j'', cl_tournament = Some ''e'', cl_iat = None, cl_exp = None\<rparr>"

lemma sample_active: "is_active_account (Some sample_keep)" "uid sample_keep = ''k''"
  by (simp_all add: sample_keep_def new_user_def is_active_account_def)

theorem revoked_consent_cuts_off_witness:
  "\<exists>d. case revoke_consent (sample_config (sample_claims ''access'')) (Instant 2026 1 2 0) (sample_request ''/oauth/consents/app'') ''app''
       (sample_server d False None) of
     (Inr n, s1) \<Rightarrow> n = 1 \<and> live_tokens_of (as_db s1) ''k'' ''app'' = [] \<and> consents_of (as_db s1) ''k'' ''app'' = [] | (Inl _, _) \<Rightarrow> False"
proof -
  obtain d where d: "get_user_by_uid (desk_db d) ''k'' = Some sample_keep" by (rule sample_members)
  let ?cfg = "sample_config (sample_claims ''access'')" and ?rq = "sample_request ''/oauth/consents/app''"
    and ?s = "sample_server (desk_db d) False None" and ?now = "Instant 2026 1 2 0"
  let ?st = "\<lparr>rs_scopes = None, rs_client_id = None, rs_tournament = None\<rparr> :: request_state"
  have auth: "get_current_user ?cfg ?now ?rq ?s = (Inr (sample_keep, ?st), ?s)"
    by (simp add: get_current_user_def sample_request_def starts_with_def lift_res_def sample_decode seq_def bearer_claims_def
        sample_claims_def truthy_str_def str_default_def sample_server_simps d sample_active)
  have live: "length (live_tokens_of (as_db ?s) ''k'' ''app'') = 1" "consents_of (as_db ?s) ''k'' ''app'' \<noteq> []"
    by (simp_all add: live_tokens_of_def consents_of_def sample_server_simps sample_token_def access_record_def new_consent_def)
  obtain s1 where run: "revoke_consent ?cfg ?now ?rq ''app'' ?s = (Inr 1, s1)"
    using live by (simp add: revoke_consent_def seq_def auth require_first_party_def check_def sample_active on_tables_def consents_of_def
        revoke_oauth_tokens_for_user_client_def)
  have "never_approves ?cfg (uid sample_keep) ''app'' [] s1" by simp
  from revoked_consent_cuts_off [OF _ run this] auth
  show ?thesis using run by (intro exI [of _ "desk_db d"]) (simp add: Let_def sample_active)
qed

theorem refresh_reuse_kills_lineage_witness:
  "case handle_refresh_token (sample_config (sample_claims ''oauth_refresh'')) (Instant 2026 1 2 0)
      \<lparr>ti_access_jti = ''j1'', ti_refresh_jti = ''r1'', ti_access_uid = ''x1'', ti_refresh_uid = ''y1''\<rparr>
      \<lparr>tr_grant_type = ''refresh_token'', tr_client_id = ''app'', tr_client_secret = ''s3'', tr_code = [], tr_redirect_uri = [],
        tr_code_verifier = [], tr_refresh_token = ''t'', tr_scope = []\<rparr> sample_client (sample_server empty_db True (Some ''p'')) of
     (Inl e, s1) \<Rightarrow> e = HTTPException 400 ''Refresh token has been revoked''
       \<and> list_all (\<lambda>x. if in_chain ''p'' x then ot_revoked x else True) (db_tokens (as_db s1)) | (Inr _, _) \<Rightarrow> False"
  by (rule refresh_reuse_kills_lineage [where evs = "[]" and r = "sample_token True (Some ''p'')", simplified fold_simps id_apply, OF sample_decode])
    (simp_all add: sample_claims_def sample_client_def sample_server_simps sample_token_def access_record_def
      get_oauth_token_by_jti_def str_default_def)

theorem code_redeemed_once_witness:
  "case token_endpoint (sample_config (sample_claims ''access'')) (Instant 2026 1 1 0)
      \<lparr>ti_access_jti = ''j1'', ti_refresh_jti = ''r1'', ti_access_uid = ''x1'', ti_refresh_uid = ''y1''\<rparr>
      \<lparr>tr_grant_type = ''authorization_code'', tr_client_id = ''app'', tr_client_secret = ''s3'', tr_code = ''code'',
        tr_redirect_uri = ''https://app/cb'', tr_code_verifier = ''verifier'', tr_refresh_token = [], tr_scope = []\<rparr>
      (sample_server empty_db False None) of
     (Inr reply, s1) \<Rightarrow> tp_refresh_token reply \<noteq> None \<and>
       (case token_endpoint (sample_config (sample_claims ''access'')) (Instant 2026 1 1 1)
          \<lparr>ti_access_jti = ''j2'', ti_refresh_jti = ''r2'', ti_access_uid = ''x2'', ti_refresh_uid = ''y2''\<rparr>
          \<lparr>tr_grant_type = ''authorization_code'', tr_client_id = ''app'', tr_client_secret = ''s3'', tr_code = ''code'',
            tr_redirect_uri = ''https://app/cb'', tr_code_verifier = ''verifier'', tr_refresh_token = [], tr_scope = []\<rparr> s1 of
        (Inl _, s2) \<Rightarrow> s2 = s1 | (Inr _, _) \<Rightarrow> False)
   | (Inl _, _) \<Rightarrow> False"
proof -
  let ?cfg = "sample_config (sample_claims ''access'')" and ?now = "Instant 2026 1 1 0" and ?s = "sample_server empty_db False None"
    and ?ids = "\<lparr>ti_access_jti = ''j1'', ti_refresh_jti = ''r1'', ti_access_uid = ''x1'', ti_refresh_uid = ''y1''\<rparr> :: token_ids"
  let ?b = "\<lparr>tr_grant_type = ''authorization_code'', tr_client_id = ''app'', tr_client_secret = ''s3'', tr_code = ''code'',
        tr_redirect_uri = ''https://app/cb'', tr_code_verifier = ''verifier'', tr_refresh_token = [], tr_scope = []\<rparr> :: token_request"
  have pkce: "verify_pkce ''verifier'' (b64url (sha256 (latin_bytes ''verifier''))) = Inr True"
    by (simp add: verify_pkce_def ascii_encode_def)
  have expiry: "\<not> plus_micros AUTH_CODE_LIFETIME ?now < ?now"
    by (simp add: plus_micros_def AUTH_CODE_LIFETIME_def plus_days_def less_instant_def)
  have code: "get_oauth_code ?s ''code'' = Some sample_code"
    by (simp add: get_oauth_code_def sample_server_simps sample_code_def new_code_def)
  have client: "get_oauth_client_by_client_id ?s ''app'' = Some sample_client"
    by (simp add: get_oauth_client_by_client_id_def sample_server_simps sample_client_def)
  have consent: "get_oauth_consent (as_db ?s) ''k'' ''app'' (Some ''e'') \<noteq> None"
    by (simp add: get_oauth_consent_def sample_server_simps new_consent_def)
  have checked: "code_checked ?cfg ?now ?b sample_client ?s = (Inr sample_code, ?s)"
    using pkce expiry consent
    by (simp add: code_checked_def seq_def check_def code lift_res_def sample_code_def new_code_def sample_client_def)
  have auth: "authenticated_client ?cfg ''app'' ''s3'' ?s = (Inr sample_client, ?s)"
    by (simp add: authenticated_client_def client_or_refuse_def seq_def client check_def) (simp add: sample_client_def sample_config_def)
  obtain reply s1 where run: "token_endpoint ?cfg ?now ?ids ?b ?s = (Inr reply, s1)" "tp_refresh_token reply \<noteq> None"
    by (simp add: token_endpoint_def seq_def auth handle_authorization_code_def checked code_redeemed_def issue_token_pair_def
        create_oauth_jwt_def lift_res_def sample_sign)
  have "distinct (map oac_code (as_codes ?s))" by (simp add: sample_server_simps)
  from code_redeemed_once [OF this _ run(1), where evs = "[]" and b' = ?b and now' = "Instant 2026 1 1 1"
    and ids' = "\<lparr>ti_access_jti = ''j2'', ti_refresh_jti = ''r2'', ti_access_uid = ''x2'', ti_refresh_uid = ''y2''\<rparr>"] run(2) show ?thesis
    by (auto simp: run(1) split: prod.splits sum.splits)
qed

end
