(* ===== verification/OAuth_Scopes.thy ===== *)
theory OAuth_Scopes
  imports OAuth_Laws
begin

text \<open>
  How far a token reaches: no live token carries a scope its client is not registered for, a token
  for an event stays on its event; and what the proofs of the exchange rest on (SHA-256, base64).
\<close>

section \<open>Registered scopes\<close>

definition registered :: "auth_server \<Rightarrow> string \<Rightarrow> oauth_scope list \<Rightarrow> bool" where
  "registered s c scopes \<longleftrightarrow> list_ex (\<lambda>x. ocl_client_id x = c \<and> list_all (\<lambda>y. y \<in> set (ocl_scopes x)) scopes) (as_clients s)"

definition grants_registered :: "auth_server \<Rightarrow> bool" where
  "grants_registered s \<longleftrightarrow> distinct (map uid (as_clients s)) \<and> distinct (map ocl_client_id (as_clients s))
     \<and> list_all (\<lambda>x. ot_revoked x \<or> registered s (ot_client_id x) (ot_scopes x)) (db_tokens (as_db s))
     \<and> list_all (\<lambda>(_, x). registered s (oc_client_id x) (oc_scopes x)
         \<and> (oc_tournament_uid x = None \<or> EVENT_RUN \<in> set (oc_scopes x))) (db_consents (as_db s))"

lemma registered_iff: "registered s c scopes \<longleftrightarrow> (\<exists>x \<in> set (as_clients s). ocl_client_id x = c \<and> set scopes \<subseteq> set (ocl_scopes x))"
  by (auto simp: registered_def list_ex_iff list_all_iff)

lemma registered_less: "registered s c scopes \<Longrightarrow> set scopes' \<subseteq> set scopes \<Longrightarrow> registered s c scopes'"
  by (auto simp: registered_iff)

lemma grants_iff:
  "grants_registered s \<longleftrightarrow> distinct (map uid (as_clients s)) \<and> distinct (map ocl_client_id (as_clients s))
     \<and> (\<forall>x \<in> set (db_tokens (as_db s)). ot_revoked x \<or> registered s (ot_client_id x) (ot_scopes x))
     \<and> (\<forall>x \<in> snd ` set (db_consents (as_db s)). registered s (oc_client_id x) (oc_scopes x)
         \<and> (oc_tournament_uid x = None \<or> EVENT_RUN \<in> set (oc_scopes x)))"
  by (auto simp: grants_registered_def list_all_iff)

lemma found_client: "get_oauth_client_by_client_id s c = Some client \<Longrightarrow> client \<in> set (as_clients s) \<and> ocl_client_id client = c"
  by (auto simp: get_oauth_client_by_client_id_def find_Some_iff)

lemma may_issue_registered: "may_issue s u c scopes t \<Longrightarrow> registered s c scopes"
  using found_client by (fastforce simp: may_issue_def registered_iff split: option.splits)

lemma may_consent_registered: "may_consent s x \<Longrightarrow> registered s (oc_client_id x) (oc_scopes x)"
  using found_client by (fastforce simp: may_consent_def registered_iff split: option.splits)

text \<open>Writing a client again at its uid and \<open>client_id\<close>\<close>

lemma updated_clients:
  assumes "distinct (map uid (as_clients s))" and "get_oauth_client_by_client_id s (ocl_client_id client') = Some client"
    and "uid client' = uid client"
  shows "map uid (as_clients (update_oauth_client client' s)) = map uid (as_clients s)"
    "map ocl_client_id (as_clients (update_oauth_client client' s)) = map ocl_client_id (as_clients s)"
    "c \<noteq> ocl_client_id client' \<Longrightarrow> registered (update_oauth_client client' s) c scopes \<longleftrightarrow> registered s c scopes"
    "set scopes \<subseteq> set (ocl_scopes client') \<Longrightarrow> registered (update_oauth_client client' s) (ocl_client_id client') scopes"
proof -
  have client: "client \<in> set (as_clients s)" "ocl_client_id client = ocl_client_id client'" using found_client [OF assms(2)] by auto
  have same: "x = client" if "x \<in> set (as_clients s)" "uid x = uid client" for x
  proof -
    have "inj_on uid (set (as_clients s))" using assms(1) by (simp only: distinct_map)
    from inj_onD [OF this that(2) that(1) client(1)] show ?thesis .
  qed
  show "map uid (as_clients (update_oauth_client client' s)) = map uid (as_clients s)"
    by (simp add: update_oauth_client_def)
  have "ocl_client_id (if uid x = uid client' then client' else x) = ocl_client_id x" if "x \<in> set (as_clients s)" for x
    using same [OF that] client(2) assms(3) by (cases "uid x = uid client") simp_all
  then show "map ocl_client_id (as_clients (update_oauth_client client' s)) = map ocl_client_id (as_clients s)"
    by (simp add: update_oauth_client_def)
  show "registered (update_oauth_client client' s) c scopes \<longleftrightarrow> registered s c scopes" if "c \<noteq> ocl_client_id client'"
  proof
    assume "registered (update_oauth_client client' s) c scopes"
    then show "registered s c scopes" using that by (auto simp: registered_iff update_oauth_client_def split: if_splits)
  next
    assume "registered s c scopes"
    then obtain x where x: "x \<in> set (as_clients s)" "ocl_client_id x = c" "set scopes \<subseteq> set (ocl_scopes x)" by (auto simp: registered_iff)
    then have "uid x \<noteq> uid client'" using same [of x] that client(2) assms(3) by auto
    then have "x \<in> set (as_clients (update_oauth_client client' s))" using x(1) by (force simp: update_oauth_client_def)
    then show "registered (update_oauth_client client' s) c scopes" using x by (auto simp: registered_iff)
  qed
  have "client' \<in> set (as_clients (update_oauth_client client' s))"
    using client(1) assms(3) by (force simp: update_oauth_client_def)
  then show "set scopes \<subseteq> set (ocl_scopes client') \<Longrightarrow> registered (update_oauth_client client' s) (ocl_client_id client') scopes"
    by (auto simp: registered_iff)
qed

text \<open>The scopes a client is found with, under distinct \<open>client_id\<close>s\<close>

lemma registered_of:
  assumes "distinct (map ocl_client_id (as_clients s))" and "get_oauth_client_by_client_id s c = Some client"
    and "registered s c scopes"
  shows "set scopes \<subseteq> set (ocl_scopes client)"
proof -
  obtain x where x: "x \<in> set (as_clients s)" "ocl_client_id x = c" "set scopes \<subseteq> set (ocl_scopes x)"
    using assms(3) by (auto simp: registered_iff)
  have inj: "inj_on ocl_client_id (set (as_clients s))" using assms(1) by (simp only: distinct_map)
  have "x = client" by (rule inj_onD [OF inj _ x(1)]) (use x(2) found_client [OF assms(2)] in auto)
  then show ?thesis using x(3) by simp
qed

text \<open>While the clients stay, live tokens and consents stay registered.\<close>

lemma grants_same_clients:
  assumes "oauth_effect A V I s s'" and "grants_registered s" and "as_clients s' = as_clients s"
  shows "grants_registered s'"
proof -
  have reg: "registered s' = registered s" by (simp add: fun_eq_iff registered_def assms(3))
  have "ot_revoked x' \<or> registered s (ot_client_id x') (ot_scopes x')" if "x' \<in> set (db_tokens (as_db s'))" for x'
    using effect_tokens [OF assms(1) that] assms(2) may_issue_registered
    by (auto simp: grants_iff same_token_def minted_token_def)
  moreover have "registered s (oc_client_id x') (oc_scopes x') \<and> (oc_tournament_uid x' = None \<or> EVENT_RUN \<in> set (oc_scopes x'))"
    if "x' \<in> snd ` set (db_consents (as_db s'))" for x'
    using effect_consents [OF assms(1) that]
  proof
    assume "\<exists>x \<in> snd ` set (db_consents (as_db s)). same_consent x x'"
    then obtain x where x: "x \<in> snd ` set (db_consents (as_db s))" "same_consent x x'" by blast
    then have "registered s (oc_client_id x) (oc_scopes x)" "oc_tournament_uid x = None \<or> EVENT_RUN \<in> set (oc_scopes x)"
      using assms(2) x(1) unfolding grants_iff by auto
    then show ?thesis using x(2) registered_less by (auto simp: same_consent_def)
  next
    assume "(oc_user_uid x', oc_client_id x') \<in> A \<and> may_consent s x'"
    then show ?thesis using may_consent_registered by (auto simp: may_consent_def split: option.splits)
  qed
  ultimately show ?thesis using assms(2,3) by (simp add: grants_iff reg)
qed

lemma grants_client_kept:
  assumes "grants_registered s" and "get_oauth_client_by_client_id s (ocl_client_id client') = Some client" and "uid client' = uid client"
    and "set (ocl_scopes client) \<subseteq> set (ocl_scopes client')"
  shows "grants_registered (update_oauth_client client' s)"
proof -
  let ?s = "update_oauth_client client' s"
  have distinct: "distinct (map uid (as_clients s))" "distinct (map ocl_client_id (as_clients s))" using assms(1) by (simp_all add: grants_iff)
  note clients = updated_clients [OF distinct(1) assms(2,3)]
  have reg: "registered ?s c scopes" if "registered s c scopes" for c scopes
  proof (cases "c = ocl_client_id client'")
    case True
    then have "set scopes \<subseteq> set (ocl_scopes client')" using registered_of [OF distinct(2) assms(2), of scopes] that assms(4) by auto
    from clients(4) [OF this] show ?thesis by (simp add: True)
  qed (use clients(3) that in simp)
  have "db_tokens (as_db ?s) = db_tokens (as_db s)" "db_consents (as_db ?s) = db_consents (as_db s)"
    by (simp_all add: update_oauth_client_def)
  then show ?thesis using assms(1) reg clients(1,2) unfolding grants_iff by auto
qed

lemma holds_any_iff: "holds_any removed scopes \<longleftrightarrow> set removed \<inter> set scopes \<noteq> {}"
  by (auto simp: holds_any_def list_ex_iff)

lemma stripped_consent:
  assumes "x' \<in> snd ` set (db_consents (strip_oauth_consent_scopes c removed d))"
  obtains x where "x \<in> snd ` set (db_consents d)"
    "x' = (if oc_client_id x = c \<and> holds_any removed (oc_scopes x) then x\<lparr>oc_scopes := filter (\<lambda>y. y \<notin> set removed) (oc_scopes x)\<rparr> else x)"
    "\<not> (oc_client_id x' = c \<and> (oc_scopes x' = [] \<or> oc_tournament_uid x' \<noteq> None \<and> EVENT_RUN \<notin> set (oc_scopes x')))"
proof -
  let ?g = "\<lambda>x. if oc_client_id x = c \<and> holds_any removed (oc_scopes x) then x\<lparr>oc_scopes := filter (\<lambda>y. y \<notin> set removed) (oc_scopes x)\<rparr> else x"
  let ?P = "\<lambda>x. \<not> (oc_client_id x = c \<and> (oc_scopes x = [] \<or> oc_tournament_uid x \<noteq> None \<and> EVENT_RUN \<notin> set (oc_scopes x)))"
  have "db_consents (strip_oauth_consent_scopes c removed d) = filter (\<lambda>(_, x). ?P x) (map (\<lambda>(k, x). (k, ?g x)) (db_consents d))"
    by (simp add: strip_oauth_consent_scopes_def Let_def)
  then obtain k where "(k, x') \<in> set (filter (\<lambda>(_, x). ?P x) (map (\<lambda>(k, x). (k, ?g x)) (db_consents d)))"
    using assms by (auto simp del: set_filter set_map)
  then have "(k, x') \<in> set (map (\<lambda>(k, x). (k, ?g x)) (db_consents d))" and P: "?P x'" by simp_all
  then obtain x where "(k, x) \<in> set (db_consents d)" and x': "x' = ?g x" by (auto simp del: if_split)
  then have "x \<in> snd ` set (db_consents d)" by force
  then show thesis using x' P by (rule that)
qed

lemma grants_client_edited:
  assumes "grants_registered s" and "get_oauth_client_by_client_id s (ocl_client_id client') = Some client" and "uid client' = uid client"
    and removed: "removed = filter (\<lambda>x. x \<notin> set (ocl_scopes client')) (ocl_scopes client)"
  shows "grants_registered (on_tables (\<lambda>d. strip_oauth_consent_scopes (ocl_client_id client') removed
     (revoke_oauth_tokens_with_scopes (ocl_client_id client') removed d)) (update_oauth_client client' s))"
    (is "grants_registered ?s'")
proof -
  let ?s = "update_oauth_client client' s" and ?c = "ocl_client_id client'"
  have distinct: "distinct (map uid (as_clients s))" "distinct (map ocl_client_id (as_clients s))" using assms(1) by (simp_all add: grants_iff)
  note clients = updated_clients [OF distinct(1) assms(2,3)]
  have same: "as_clients ?s' = as_clients ?s" by (simp add: on_tables_def)
  have reg': "registered ?s' = registered ?s" by (simp add: fun_eq_iff registered_def same)
  have reg: "registered ?s c scopes" if "registered s c scopes" "c = ?c \<Longrightarrow> set removed \<inter> set scopes = {}" for c scopes
  proof (cases "c = ?c")
    case True
    then have "set scopes \<subseteq> set (ocl_scopes client)" using registered_of [OF distinct(2) assms(2)] that(1) by auto
    then have "set scopes \<subseteq> set (ocl_scopes client')" using that(2) True by (auto simp: removed)
    from clients(4) [OF this] show ?thesis by (simp add: True)
  qed (use clients(3) that(1) in simp)
  have tokens: "db_tokens (as_db ?s') = map (\<lambda>x. if ot_client_id x = ?c \<and> holds_any removed (ot_scopes x) then x\<lparr>ot_revoked := True\<rparr> else x)
      (db_tokens (as_db s))"
    by (simp add: on_tables_def strip_oauth_consent_scopes_def revoke_oauth_tokens_with_scopes_def update_oauth_client_def Let_def)
  have "ot_revoked x' \<or> registered ?s (ot_client_id x') (ot_scopes x')" if x': "x' \<in> set (db_tokens (as_db ?s'))" for x'
  proof -
    from x' obtain x where x: "x \<in> set (db_tokens (as_db s))"
      "x' = (if ot_client_id x = ?c \<and> holds_any removed (ot_scopes x) then x\<lparr>ot_revoked := True\<rparr> else x)" unfolding tokens by auto
    have "ot_revoked x \<or> registered s (ot_client_id x) (ot_scopes x)" using x(1) assms(1) unfolding grants_iff by blast
    then show ?thesis using x(2) reg [of "ot_client_id x" "ot_scopes x"] by (auto simp: holds_any_iff)
  qed
  moreover have "registered ?s (oc_client_id x') (oc_scopes x') \<and> (oc_tournament_uid x' = None \<or> EVENT_RUN \<in> set (oc_scopes x'))"
    if x': "x' \<in> snd ` set (db_consents (as_db ?s'))" for x'
  proof -
    have "db_consents (as_db ?s') = db_consents (strip_oauth_consent_scopes ?c removed (as_db s))"
      by (simp add: on_tables_def strip_oauth_consent_scopes_def revoke_oauth_tokens_with_scopes_def update_oauth_client_def Let_def)
    then have "x' \<in> snd ` set (db_consents (strip_oauth_consent_scopes ?c removed (as_db s)))" using x' by (simp only:)
    then obtain x where x: "x \<in> snd ` set (db_consents (as_db s))"
      "x' = (if oc_client_id x = ?c \<and> holds_any removed (oc_scopes x) then x\<lparr>oc_scopes := filter (\<lambda>y. y \<notin> set removed) (oc_scopes x)\<rparr> else x)"
      and left: "\<not> (oc_client_id x' = ?c \<and> (oc_scopes x' = [] \<or> oc_tournament_uid x' \<noteq> None \<and> EVENT_RUN \<notin> set (oc_scopes x')))"
      by (rule stripped_consent)
    have x_ok: "registered s (oc_client_id x) (oc_scopes x)" "oc_tournament_uid x = None \<or> EVENT_RUN \<in> set (oc_scopes x)"
      using x(1) assms(1) unfolding grants_iff by auto
    show ?thesis
    proof (cases "oc_client_id x = ?c \<and> holds_any removed (oc_scopes x)")
      case True
      then have x'_def: "x' = x\<lparr>oc_scopes := filter (\<lambda>y. y \<notin> set removed) (oc_scopes x)\<rparr>" using x(2) by simp
      have "registered s (oc_client_id x) (filter (\<lambda>y. y \<notin> set removed) (oc_scopes x))" by (rule registered_less [OF x_ok(1)]) auto
      then have "registered ?s (oc_client_id x) (filter (\<lambda>y. y \<notin> set removed) (oc_scopes x))" by (rule reg) auto
      then show ?thesis using left True by (simp add: x'_def)
    next
      case False
      then show ?thesis using x(2) x_ok reg [OF x_ok(1)] by (auto simp: holds_any_iff)
    qed
  qed
  ultimately show ?thesis using distinct clients(1,2) unfolding grants_iff reg' same by simp
qed

lemma effect_grants:
  assumes "oauth_effect A V I s s'" and "grants_registered s"
  shows "grants_registered s'"
  using assms(1)
proof (cases rule: oauth_effect.cases)
  case (client_added client)
  then have s': "s' = s\<lparr>as_clients := as_clients s @ [client]\<rparr>" "uid client \<notin> uid ` set (as_clients s)"
    "ocl_client_id client \<notin> ocl_client_id ` set (as_clients s)"
    by (auto simp: insert_oauth_client_def list_ex_iff split: if_splits)
  have "registered s' c scopes" if "registered s c scopes" for c scopes
    using that by (auto simp: registered_iff s'(1))
  then show ?thesis using assms(2) s' by (auto simp: grants_iff)
next
  case (client_kept client' client)
  then show ?thesis using grants_client_kept [OF assms(2)] by simp
next
  case (client_edited client' client removed)
  then show ?thesis using grants_client_edited [OF assms(2)] by simp
next
  case (client_widened client' client)
  then show ?thesis using grants_client_kept [OF assms(2)] by simp
qed (rule grants_same_clients [OF assms], simp add: on_tables_def insert_oauth_code_def update_oauth_code_def mint_pair_def
    cleanup_expired_oauth_codes_def)+

text \<open>A server on which no client is registered yet\<close>

definition new_auth_server :: "db \<Rightarrow> auth_server" where
  "new_auth_server d = \<lparr>as_db = d\<lparr>db_tokens := [], db_consents := []\<rparr>, as_clients = [], as_codes = []\<rparr>"

text \<open>C32: Whatever requests are served, in any order: client ids stay unique, every live token and
  every consent carries only scopes its client is registered for at that moment (an edit that takes a
  scope away revokes the tokens that carry it), and a consent that names an event carries \<open>event:run\<close>.\<close>

theorem grants_stay_registered: "grants_registered (fold (oauth_step cfg) evs (new_auth_server d))"
proof (rule fold_keeps [where P = grants_registered])
  show "grants_registered (new_auth_server d)" by (simp add: grants_registered_def new_auth_server_def)
  fix e s assume grants: "grants_registered s"
  have "by_effects UNIV UNIV UNIV s (oauth_step cfg e s)" by (rule step_by_effects) auto
  then show "grants_registered (oauth_step cfg e s)"
    by (rule effects_keep [where P = grants_registered, OF _ grants]) (rule effect_grants)
qed

section \<open>A token for an event\<close>

lemma split_slashes_word: "CHR ''/'' \<notin> set w \<Longrightarrow> split_slashes a (w @ s) = split_slashes (a @ w) s"
  by (induction w arbitrary: a) auto

lemma split_slashes_end: "CHR ''/'' \<notin> set w \<Longrightarrow> split_slashes a w = [a @ w]"
  using split_slashes_word [of w a "[]"] by simp

text \<open>The first segment of what follows\<close>

lemma split_slashes_hd: "hd (split_slashes [] s) = takeWhile (\<lambda>c. c \<noteq> CHR ''/'') s" "split_slashes a s \<noteq> []"
proof -
  have "hd (split_slashes a s) = a @ takeWhile (\<lambda>c. c \<noteq> CHR ''/'') s \<and> split_slashes a s \<noteq> []" for a
    by (induction s arbitrary: a) auto
  then show "hd (split_slashes [] s) = takeWhile (\<lambda>c. c \<noteq> CHR ''/'') s" "split_slashes a s \<noteq> []" by simp_all
qed

lemma stripped_path:
  assumes "w \<noteq> []" and "CHR ''/'' \<notin> set w" and "rest = [] \<or> hd rest = CHR ''/''"
  obtains rest' where "rev (dropWhile (\<lambda>c. c = CHR ''/'') (rev (p @ w @ rest))) = p @ w @ rest'" "rest' = [] \<or> hd rest' = CHR ''/''"
    "rest' = [] \<longleftrightarrow> list_all (\<lambda>c. c = CHR ''/'') rest"
    "takeWhile (\<lambda>c. c \<noteq> CHR ''/'') (tl rest') = takeWhile (\<lambda>c. c \<noteq> CHR ''/'') (tl rest)"
proof -
  let ?P = "\<lambda>c. c = CHR ''/''"
  define rest' where "rest' = rev (dropWhile ?P (rev rest))"
  define ss where "ss = rev (takeWhile ?P (rev rest))"
  have split: "rest = rest' @ ss" by (simp add: rest'_def ss_def rev_append [symmetric] del: rev_append)
  have ss: "\<forall>c \<in> set ss. ?P c" by (auto simp: ss_def dest: set_takeWhileD)
  have none: "takeWhile (\<lambda>c. c \<noteq> CHR ''/'') cs = []" if "\<forall>c \<in> set cs. ?P c" for cs using that by (cases cs) simp_all
  have tl: "takeWhile (\<lambda>c. c \<noteq> CHR ''/'') (tl rest') = takeWhile (\<lambda>c. c \<noteq> CHR ''/'') (tl rest)"
  proof (cases rest')
    case Nil
    have "\<forall>c \<in> set (tl ss). ?P c" using ss by (cases ss) simp_all
    from none [OF this] show ?thesis by (simp add: split Nil)
  next
    case (Cons c r)
    have "takeWhile (\<lambda>c. c \<noteq> CHR ''/'') (r @ ss) = takeWhile (\<lambda>c. c \<noteq> CHR ''/'') r"
      unfolding takeWhile_append none [OF ss] by (simp add: takeWhile_eq_all_conv [THEN iffD2])
    then show ?thesis by (simp add: split Cons)
  qed
  have all: "rest' = [] \<longleftrightarrow> list_all ?P rest"
    by (auto simp: rest'_def dropWhile_eq_Nil_conv list_all_iff)
  have drop: "rev (dropWhile ?P (rev (p @ w @ rest))) = p @ w @ rest'"
  proof (cases "rest' = []")
    case True
    have "dropWhile ?P (rev w @ rev p) = rev w @ rev p" using assms(1,2) by (cases w rule: rev_cases) auto
    then show ?thesis using True all by (simp add: dropWhile_append list_all_iff)
  next
    case False
    then show ?thesis by (auto simp: rest'_def dropWhile_append dropWhile_eq_Nil_conv)
  qed
  have "rest' = [] \<or> hd rest' = CHR ''/''" using assms(3) split by (cases rest') auto
  then show thesis by (intro that [OF drop _ all tl])
qed

lemma event_path:
  assumes "t \<noteq> []" and "CHR ''/'' \<notin> set t" and "rest = [] \<or> hd rest = CHR ''/''"
  shows "split_slashes [] (strip_slashes (''/api/tournaments/'' @ t @ rest))
    = [''api'', ''tournaments'', t] @ (if list_all (\<lambda>c. c = CHR ''/'') rest then []
        else takeWhile (\<lambda>c. c \<noteq> CHR ''/'') (tl rest) # tl (drop 3 (split_slashes [] (strip_slashes (''/api/tournaments/'' @ t @ rest)))))"
proof -
  obtain rest' where r: "rev (dropWhile (\<lambda>c. c = CHR ''/'') (rev (''api/tournaments/'' @ t @ rest))) = ''api/tournaments/'' @ t @ rest'"
    "rest' = [] \<or> hd rest' = CHR ''/''" "rest' = [] \<longleftrightarrow> list_all (\<lambda>c. c = CHR ''/'') rest"
    "takeWhile (\<lambda>c. c \<noteq> CHR ''/'') (tl rest') = takeWhile (\<lambda>c. c \<noteq> CHR ''/'') (tl rest)"
    by (rule stripped_path [OF assms])
  have "strip_slashes (''/api/tournaments/'' @ t @ rest) = ''api/tournaments/'' @ t @ rest'"
    using r(1) by (simp add: strip_slashes_def)
  then have segs: "split_slashes [] (strip_slashes (''/api/tournaments/'' @ t @ rest)) = ''api'' # ''tournaments'' # split_slashes t rest'"
    using split_slashes_word [OF assms(2), of "[]" rest'] by simp
  show ?thesis
  proof (cases rest')
    case Nil
    then show ?thesis using segs r(3) by simp
  next
    case (Cons c cs)
    then have "split_slashes t rest' = t # split_slashes [] cs" using r(2) by simp
    moreover have "split_slashes [] cs = takeWhile (\<lambda>c. c \<noteq> CHR ''/'') (tl rest) # tl (split_slashes [] cs)"
      using split_slashes_hd [of cs] split_slashes_hd(2) [of "[]" cs] r(4) Cons by (cases "split_slashes [] cs") auto
    ultimately show ?thesis using segs r(3) Cons by simp
  qed
qed

text \<open>C33: A token granted for an event acts on that event only: whoever presents an OAuth token on
  \<open>/api/tournaments/t\<close>, or anywhere below, is refused unless the token names \<open>t\<close> itself and carries
  \<open>event:run\<close>, and even then neither deletes the event nor reaches one of the barred subpaths.\<close>

theorem event_token_stays_on_its_event:
  assumes "get_current_user cfg now rq s = (Inr (usr, st), s')" and "rs_scopes st = Some scopes"
    and "rq_path rq = ''/api/tournaments/'' @ t @ rest" and "t \<noteq> []" and "CHR ''/'' \<notin> set t" and "rest = [] \<or> hd rest = CHR ''/''"
  shows "rs_tournament st = Some t \<and> ''event:run'' \<in> set scopes
    \<and> takeWhile (\<lambda>c. c \<noteq> CHR ''/'') (tl rest) \<notin> set OAUTH_BARRED_SUBPATHS
    \<and> \<not> (rq_method rq = ''DELETE'' \<and> list_all (\<lambda>c. c = CHR ''/'') rest)"
proof -
  define R where "R = (\<lambda>st :: request_state. case rs_scopes st of None \<Rightarrow> True | Some scopes \<Rightarrow> (case rs_tournament st of
      None \<Rightarrow> False | Some t' \<Rightarrow> ''event:run'' \<in> set scopes \<and> oauth_allows rq t'))"
  have path: "\<not> starts_with (rq_path rq) ''/oauth/''" "rq_path rq \<noteq> ''/sanctions''" "rq_path rq \<noteq> ''/sanctions/reference''"
    "rq_path rq \<noteq> ''/stream''"
    by (simp_all add: assms(3) starts_with_def)
  have gate: "wp (oauth_gate rq ss tu) (\<lambda>_ _. case tu of None \<Rightarrow> False | Some t' \<Rightarrow> ''event:run'' \<in> set ss \<and> oauth_allows rq t') (\<lambda>_ _. True) s"
    for ss tu s
    using path(1) by (auto simp: oauth_gate_def wp_simps split: option.split)
  have "wp (bearer_claims cfg now rq c) (\<lambda>(_, st) _. R st) (\<lambda>_ _. True) s" for c s
    unfolding bearer_claims_def R_def
    by (auto simp: wp_simps Let_def split: option.split intro!: wp_mono [OF gate])
  note bearer = this
  have "wp (get_current_user cfg now rq) (\<lambda>(_, st) _. R st) (\<lambda>_ _. True) s"
  proof -
    have "wp (case v of Expired \<Rightarrow> refuse 401 ''Token expired'' | Invalid \<Rightarrow> refuse 401 ''Invalid token''
        | Valid c \<Rightarrow> seq (bearer_claims cfg now rq c) (\<lambda>(u, st). seq (gets (\<lambda>s. get_user_by_uid (as_db s) u)) (\<lambda>found. case found of
            None \<Rightarrow> refuse 401 ''User not found''
          | Some usr \<Rightarrow> if is_active_account (Some usr) then return (usr, st) else refuse 401 ''User not found'')))
        (\<lambda>(_, st) _. R st) (\<lambda>_ _. True) s" for v
      by (cases v) (auto simp: wp_simps split: option.split intro!: wp_mono [OF bearer])
    then show ?thesis unfolding get_current_user_def
      by (auto simp: wp_simps split: option.split sum.split)
  qed
  from wp_result(1) [OF this assms(1)] have "R st" by simp
  then obtain t' where t': "rs_tournament st = Some t'" "''event:run'' \<in> set scopes" "oauth_allows rq t'"
    using assms(2) by (auto simp: R_def split: option.splits)
  define segs where "segs = split_slashes [] (strip_slashes (rq_path rq))"
  have segs: "segs = [''api'', ''tournaments'', t] @ (if list_all (\<lambda>c. c = CHR ''/'') rest then []
      else takeWhile (\<lambda>c. c \<noteq> CHR ''/'') (tl rest) # tl (drop 3 segs))"
    unfolding segs_def assms(3) by (rule event_path [OF assms(4-6)])
  have allow: "take 3 segs = [''api'', ''tournaments'', t']" "\<not> (rq_method rq = ''DELETE'' \<and> length segs = 3)"
    "length segs < 4 \<or> segs ! 3 \<notin> set OAUTH_BARRED_SUBPATHS"
    using t'(3) path by (simp_all add: oauth_allows_def Let_def segs_def split: if_splits)
  show ?thesis
  proof (cases "list_all (\<lambda>c. c = CHR ''/'') rest")
    case True
    then have "segs = [''api'', ''tournaments'', t]" using segs by simp
    moreover have "takeWhile (\<lambda>c. c \<noteq> CHR ''/'') (tl rest) = []"
      using True by (cases rest; cases "tl rest") simp_all
    ultimately show ?thesis using True allow t' by (simp add: OAUTH_BARRED_SUBPATHS_def)
  next
    case False
    then obtain zs where "segs = ''api'' # ''tournaments'' # t # takeWhile (\<lambda>c. c \<noteq> CHR ''/'') (tl rest) # zs" using segs by simp
    then show ?thesis using False allow t' by simp
  qed
qed

theorem event_token_stays_on_its_event_witness:
  "\<exists>d. case get_current_user (sample_config (sample_claims ''oauth_access'')) (Instant 2026 1 2 0) (sample_request ''/api/tournaments/e/rounds'')
       (sample_server d False None) of
     (Inr (usr, st), s') \<Rightarrow> usr = sample_keep \<and> rs_tournament st = Some ''e'' \<and> ''rounds'' \<notin> set OAUTH_BARRED_SUBPATHS
   | (Inl _, _) \<Rightarrow> False"
proof -
  obtain d where d: "get_user_by_uid (desk_db d) ''k'' = Some sample_keep" by (rule sample_members)
  let ?cfg = "sample_config (sample_claims ''oauth_access'')" and ?rq = "sample_request ''/api/tournaments/e/rounds''"
    and ?s = "sample_server (desk_db d) False None" and ?now = "Instant 2026 1 2 0"
  let ?st = "\<lparr>rs_scopes = Some [''event:run''], rs_client_id = Some ''app'', rs_tournament = Some ''e''\<rparr> :: request_state"
  have token: "get_oauth_token_by_jti (as_db ?s) ''j'' = Some (sample_token False None)"
    by (simp add: get_oauth_token_by_jti_def sample_server_simps sample_token_def access_record_def)
  have allows: "oauth_allows ?rq ''e''"
    by (simp add: oauth_allows_def sample_request_def starts_with_def strip_slashes_def OAUTH_BARRED_SUBPATHS_def)
  have claims: "bearer_claims ?cfg ?now ?rq (sample_claims ''oauth_access'') ?s = (Inr (''k'', ?st), ?s)"
    using allows token
    by (simp add: bearer_claims_def sample_claims_def truthy_str_def str_default_def seq_def sample_token_def oauth_gate_def check_def
        is_space_def)
  have header: "rq_authorization ?rq = Some ''Bearer t''" "starts_with ''Bearer t'' ''Bearer ''" by (simp_all add: sample_request_def starts_with_def)
  have run: "get_current_user ?cfg ?now ?rq ?s = (Inr (sample_keep, ?st), ?s)"
    using header by (simp add: get_current_user_def seq_def lift_res_def sample_decode claims sample_server_simps d sample_active)
  have "rq_path ?rq = ''/api/tournaments/'' @ ''e'' @ ''/rounds''" by (simp add: sample_request_def)
  from event_token_stays_on_its_event [OF run _ this] show ?thesis
    by (intro exI [of _ "desk_db d"]) (simp add: run)
qed

end
