(* ===== verification/Sanctions_Laws.thy ===== *)
theory Sanctions_Laws
  imports Sanctions OAuth_Scopes Standings_Laws
begin

text \<open>
  What the sanction endpoints promise: the book of sanctions stays sound, nobody issues beyond their
  authority, a disqualification reaches the player and the standings of its event.
\<close>

section \<open>Lifted programs\<close>

lemma wp_on_db [wp_simps]: "wp (on_db m) Q E srv = wp m (\<lambda>x d. Q x (d, snd srv)) (\<lambda>e d. E e (d, snd srv)) (fst srv)"
  by (auto simp: wp_def on_db_def split: prod.splits sum.splits)

lemma wp_on_server [wp_simps]:
  "wp (on_server m) Q E a = wp m (\<lambda>x (d, c). Q x ((fst a)\<lparr>as_db := d\<rparr>, c)) (\<lambda>e (d, c). E e ((fst a)\<lparr>as_db := d\<rparr>, c)) (as_db (fst a), snd a)"
  by (auto simp: wp_def on_server_def split: prod.splits sum.splits)

lemma wp_push_bd [wp_simps]: "wp (push_bd now bd) Q E srv = Q () (fst srv, broadcast_precomputed now bd None (snd srv))"
  by (cases srv) (simp add: wp_def push_bd_def)

lemma wp_any: "(\<And>x s. Q x s) \<Longrightarrow> (\<And>e s. E e s) \<Longrightarrow> wp m Q E s"
  by (auto simp: wp_def split: prod.split sum.split)

lemma wp_push_all: "(\<And>c. Q () (fst srv, c)) \<Longrightarrow> wp (push_all now bds) Q E srv"
proof -
  have "wp (for_each (push_bd now) bds) (\<lambda>_ srv'. fst srv' = fst srv) (\<lambda>_ _. False) srv"
  proof (induction bds arbitrary: srv)
    case (Cons bd bds)
    show ?case by (simp add: wp_simps) (rule wp_mono [OF Cons.IH], simp_all add: wp_simps)
  qed (simp add: wp_simps)
  then have "wp (push_all now bds) (\<lambda>_ srv'. fst srv' = fst srv) (\<lambda>_ _. False) srv"
    unfolding push_all_def wp_seq by (rule wp_mono) (simp_all add: wp_simps)
  moreover have "Q x srv'" if "\<And>c. Q () (fst srv, c)" "fst srv' = fst srv" for x srv'
    using that(1) [of "snd srv'"] that(2) by (metis old.unit.exhaust prod.collapse)
  ultimately show "(\<And>c. Q () (fst srv, c)) \<Longrightarrow> wp (push_all now bds) Q E srv"
    by (blast intro: wp_mono)
qed

lemma wp_swallow: "wp (swallow m) Q E s = wp m Q (\<lambda>_. Q ()) s"
  by (auto simp: wp_def swallow_def split: prod.splits sum.splits)

lemma wp_transaction: "wp m Q (\<lambda>e _. E e s) s \<Longrightarrow> wp (transaction m) Q E s"
  by (auto simp: wp_def transaction_def split: prod.splits sum.splits)

text \<open>A handler runs on the tables it finds, once it knows its member.\<close>

lemma wp_require_user:
  assumes "\<And>usr st. get_current_user cfg now rq (fst a) = (Inr (usr, st), fst a) \<Longrightarrow> Q (usr, st) a" and "\<And>e. E e a"
  shows "wp (require_user cfg now rq) Q E a"
proof -
  obtain s c where a: "a = (s, c)" by (cases a)
  have "snd (get_current_user cfg now rq s) = s"
    using reads_current_user [of cfg now rq] by (simp add: reads_def)
  then obtain r where r: "get_current_user cfg now rq s = (r, s)" by (metis prod.collapse)
  show ?thesis
  proof (cases r)
    case (Inl e)
    then show ?thesis using assms(2) by (cases e) (simp_all add: wp_def require_user_def authed_def a r)
  next
    case (Inr x)
    then show ?thesis using assms(1) by (cases x) (simp add: wp_def require_user_def authed_def a r)
  qed
qed

section \<open>What the reflection leaves alone\<close>

text \<open>Decks and members may change, into decks and members.\<close>

definition kept_at :: "obj option \<Rightarrow> obj option \<Rightarrow> bool" where
  "kept_at x y = (case x of
     Some (ODeck _) \<Rightarrow> \<exists>d. y = Some (ODeck d) | Some (OUser _) \<Rightarrow> \<exists>u. y = Some (OUser u) | _ \<Rightarrow> y = x)"

lemma kept_at_refl: "kept_at x x"
  by (simp add: kept_at_def split: option.split obj.split)

lemma kept_at_deck: "kept_at (Some (ODeck d)) y \<longleftrightarrow> (\<exists>e. y = Some (ODeck e))"
  by (simp add: kept_at_def)

lemma kept_at_user: "kept_at x (Some (OUser v)) \<Longrightarrow> kept_at x (Some (OUser w))"
  by (simp add: kept_at_def split: option.splits obj.splits)

definition rest_kept :: "db \<Rightarrow> db \<Rightarrow> bool" where
  "rest_kept s0 s \<longleftrightarrow> rows_ok s \<and> (\<forall>w. kept_at (read_object s0 w) (read_object s w))"

lemma rest_kept_refl: "rows_ok s \<Longrightarrow> rest_kept s s"
  by (simp add: rest_kept_def kept_at_refl)

lemma rest_kept_decoded:
  assumes "rest_kept s0 s" and "\<And>d. dec (ODeck d) = None" and "\<And>u. dec (OUser u) = None"
  shows "get_object_full dec s w = get_object_full dec s0 w"
proof -
  have "kept_at (read_object s0 w) (read_object s w)" using assms(1) by (simp add: rest_kept_def)
  then show ?thesis using assms(2,3) by (auto simp: get_object_full_read kept_at_def split: option.splits obj.splits)
qed

lemma rest_kept_deck:
  assumes "rest_kept s0 s" and "save_object now (ODeck d) deleted s = Inr (bd, s')" and "read_object s0 (uid d) = Some (ODeck e)"
  shows "rest_kept s0 s'"
proof -
  have "read_object s' = (read_object s)(uid d \<mapsto> ODeck d)" using read_object_saved [OF assms(2)] by simp
  moreover have "rows_ok s'" using assms(1) save_object_rows_ok [OF _ assms(2)] by (simp add: rest_kept_def)
  ultimately show ?thesis using assms(1,3) by (simp add: rest_kept_def kept_at_deck)
qed

lemma rest_kept_passed:
  assumes "rest_kept s0 s" and "passed upd seen s s'"
  shows "rest_kept s0 s'"
proof -
  have rows: "rows_ok s'" using assms(2) by (simp add: passed_def)
  have "kept_at (read_object s0 w) (read_object s' w)" for w
  proof -
    have "read_object s' w = (case user_at s w of
        Some v \<Rightarrow> Some (OUser (if w \<in> seen then updated upd v else v)) | None \<Rightarrow> read_object s w)"
      using assms(2) by (simp add: passed_def)
    moreover have "kept_at (read_object s0 w) (read_object s w)" using assms(1) by (simp add: rest_kept_def)
    moreover have "kept_at (read_object s0 w) (Some (OUser u))" if "user_at s w = Some v" for u v
      by (rule kept_at_user [of _ v]) (use that calculation(2) in \<open>simp add: user_at_read\<close>)
    ultimately show ?thesis by (simp split: option.splits)
  qed
  then show ?thesis using rows by (simp add: rest_kept_def)
qed

text \<open>The operations a recomputation emits only set the publication of decks.\<close>

fun sets_publication :: "deck_op \<Rightarrow> bool" where
  "sets_publication (SetPublication _ _ _) = True" | "sets_publication _ = False"

lemma publication_ops: "list_all sets_publication (recompute_deck_publication t ds [])"
proof -
  have "sets_publication op" if "deck_publication t [] d = Some op" for d op
    using that by (auto simp: deck_publication_def Let_def split: if_splits)
  then show ?thesis by (auto simp: recompute_deck_publication_def list_all_iff in_map_filter)
qed

definition decks_of :: "db \<Rightarrow> deck list \<Rightarrow> bool" where
  "decks_of s0 ds \<longleftrightarrow> (\<forall>d \<in> set ds. \<exists>e. read_object s0 (uid d) = Some (ODeck e))"

lemma publication_step:
  assumes "sets_publication op" and "rest_kept s0 s" and "decks_of s0 ds"
  shows "wp (deck_op_step now m t tu op ds) (\<lambda>(ds', _) s'. rest_kept s0 s' \<and> decks_of s0 ds') (\<lambda>_ s'. rest_kept s0 s') s"
proof -
  obtain u p w where op: "op = SetPublication u p w" using assms(1) by (cases op) simp_all
  have d: "d \<in> set ds \<and> uid d = u" if "find (\<lambda>d. uid d = u) ds = Some d" for d
    using that by (auto simp: find_Some_iff)
  have saved: "rest_kept s0 s'"
    if "find (\<lambda>d. uid d = u) ds = Some d" "save_deck now st orgs (f d) s = Inr (bd, s')" "uid (f d) = uid d" for d st orgs f bd s'
    using that(2,3) rest_kept_deck [OF assms(2)] assms(3) d [OF that(1)]
    by (fastforce simp: save_deck_def save_object_from_model_def bind_res_Inr decks_of_def)
  have kept: "decks_of s0 (set_deck d' ds)" if "find (\<lambda>d. uid d = u) ds = Some d" "uid d' = uid d" for d d'
    using that assms(3) d [OF that(1)] by (auto simp: decks_of_def set_deck_def)
  show ?thesis
    using assms(2,3) saved [where f = "\<lambda>d. d\<lparr>d_public := p, d_winner := w, modified := now\<rparr>"] kept
    by (auto simp: op update_target_def save_event_deck_def wp_simps Let_def split: option.split sum.split)
qed

lemma publication_loop:
  "list_all sets_publication ops \<Longrightarrow> rest_kept s0 s \<Longrightarrow> decks_of s0 ds \<Longrightarrow>
   wp (deck_ops_loop now mint t tu n ops ds) (\<lambda>_ s'. rest_kept s0 s') (\<lambda>_ s'. rest_kept s0 s') s"
proof (induction ops arbitrary: n ds s)
  case (Cons op ops)
  have op: "sets_publication op" "list_all sets_publication ops" using Cons.prems(1) by simp_all
  show ?case
    unfolding deck_ops_loop.simps wp_seq wp_case_prod
    by (rule wp_mono [OF publication_step [OF op(1) Cons.prems(2,3)]])
      (auto simp: wp_simps intro!: wp_mono [OF Cons.IH [OF op(2)]])
qed (simp add: wp_simps)

lemma publications_kept:
  assumes "list_all sets_publication ops" and "rows_ok s"
  shows "wp (process_deck_ops now mint ops tu t) (\<lambda>_ s'. rest_kept s s') (\<lambda>_ s'. rest_kept s s') s"
proof -
  have "decks_of s (get_decks_for_tournament s tu)"
    using event_decks(1) [OF assms(2)] by (auto simp: decks_of_def)
  then show ?thesis
    using publication_loop [OF assms(1) rest_kept_refl [OF assms(2)]] rest_kept_refl [OF assms(2)]
    by (simp add: process_deck_ops_def wp_simps)
qed

section \<open>The reflection\<close>

lemma update_standings_uid [simp]: "uid (update_standings t ss) = uid t" "t_players (update_standings t ss) = t_players t"
  by (simp_all add: update_standings_def refresh_finals_scoring_def refresh_round_scoring_def Let_def split: option.split prod.split)

lemma mark_player_simps [simp]: "uid (mark_player dq t) = uid t" "t_rounds (mark_player dq t) = t_rounds t"
  "t_state (mark_player dq t) = t_state t"
  by (simp_all add: mark_player_def split: option.split)

lemma reflected_ops:
  assumes "reflected now dq ss ds t = Some (t', ops)"
  shows "uid t' = uid t" "list_all sets_publication ops"
  using assms publication_ops by (auto simp: reflected_def update_standings_json_def Let_def split: if_splits)

lemma reflect_row_spec:
  assumes "rows_ok s"
  shows "wp (reflect_row now tu dq) (\<lambda>out s'. case out of
      None \<Rightarrow> s' = s \<and> (\<forall>t. get_tournament_by_uid s tu = Some t \<longrightarrow>
        reflected now dq (get_sanctions_for_tournament s tu) (build_decks_json s tu) t = None)
    | Some (t, t', ops, _) \<Rightarrow> get_tournament_by_uid s tu = Some t \<and> rows_ok s'
        \<and> reflected now dq (get_sanctions_for_tournament s tu) (build_decks_json s tu) t = Some (t', ops)
        \<and> read_object s' = (read_object s)(tu \<mapsto> OTournament t')) (\<lambda>_ s'. s' = s) s"
proof -
  have saved: "rows_ok s' \<and> read_object s' = (read_object s)(tu \<mapsto> OTournament t')"
    if "get_tournament_by_uid s tu = Some t" "save_tournament now t' s = Inr (bd, s')" "uid t' = uid t" for t t' bd s'
  proof -
    have "read_object s tu = Some (OTournament t)"
      using that(1) by (auto simp: get_tournament_by_uid_def get_object_full_read as_tournament_Some split: Option.bind_splits)
    then have "uid t = tu" using stored_object(1) [OF assms, of tu "OTournament t"] by simp
    moreover have save: "save_object now (OTournament t') (obj_deleted_at (OTournament t')) s = Inr (bd, s')"
      using that(2) by (simp add: save_tournament_def save_object_from_model_def)
    ultimately show ?thesis using read_object_saved [OF save] save_object_rows_ok [OF assms save] that(3) by simp
  qed
  show ?thesis
    unfolding reflect_row_def by (rule wp_transaction) (auto simp: wp_simps saved reflected_ops(1) split: option.split sum.split)
qed

text \<open>What the reflection leaves of the event it finds, and of everything else\<close>

definition reflects :: "instant \<Rightarrow> uid \<Rightarrow> (uid \<times> player_state) option \<Rightarrow> db \<Rightarrow> db \<Rightarrow> bool" where
  "reflects now tu dq s s' \<longleftrightarrow> rows_ok s'
     \<and> (\<forall>u. get_sanction_by_uid s' u = get_sanction_by_uid s u)
     \<and> (\<forall>u. u \<noteq> tu \<longrightarrow> get_tournament_by_uid s' u = get_tournament_by_uid s u)
     \<and> get_tournament_by_uid s' tu = map_option (\<lambda>t.
         case reflected now dq (get_sanctions_for_tournament s tu) (build_decks_json s tu) t of None \<Rightarrow> t | Some (t', _) \<Rightarrow> t')
         (get_tournament_by_uid s tu)"

lemma reflects_kept:
  assumes "get_tournament_by_uid s tu = Some t"
    and "reflected now dq (get_sanctions_for_tournament s tu) (build_decks_json s tu) t = Some (t', ops)"
    and "read_object s1 = (read_object s)(tu \<mapsto> OTournament t')" and "rest_kept s1 s'"
  shows "reflects now tu dq s s'"
proof -
  have tu: "read_object s tu = Some (OTournament t)"
    using assms(1) by (auto simp: get_tournament_by_uid_def get_object_full_read as_tournament_Some split: Option.bind_splits)
  have "get_sanction_by_uid s' u = get_sanction_by_uid s u" for u
    unfolding get_sanction_by_uid_def
    by (subst rest_kept_decoded [OF assms(4)]) (simp_all add: get_object_full_read assms(3) tu)
  moreover have "get_tournament_by_uid s' u = (if u = tu then Some t' else get_tournament_by_uid s u)" for u
    unfolding get_tournament_by_uid_def
    by (subst rest_kept_decoded [OF assms(4)]) (simp_all add: get_object_full_read assms(3))
  ultimately show ?thesis using assms(1,2,4) by (simp add: reflects_def rest_kept_def)
qed

lemma apply_sanction_spec:
  assumes "rows_ok (fst srv)"
  shows "wp (apply_sanction_to_tournament now mint tu dq) (\<lambda>_ srv'. reflects now tu dq (fst srv) (fst srv'))
     (\<lambda>_ srv'. fst srv' = fst srv \<or> reflects now tu dq (fst srv) (fst srv')) srv"
proof -
  let ?s = "fst srv"
  have wins: "wp (recompute_wins now ws) (\<lambda>_ s'. rest_kept s1 s') (\<lambda>_ s'. rest_kept s1 s') s" if "rest_kept s1 s" for s1 s ws
    using recompute_wins_run [of s now ws] rest_kept_passed [OF that] that
    by (auto simp: wp_def rest_kept_def split: prod.split sum.split)
  have tail: "wp (seq (push_bd now bd) (\<lambda>_. seq (on_db (process_deck_ops now mint ops tu t')) (\<lambda>bds. seq (push_all now bds) (\<lambda>_.
          if t_state t' = T_FINISHED \<and> t_winner t \<noteq> t_winner t'
          then swallow (seq (on_db (recompute_wins now (Some (filter (\<lambda>w. w \<noteq> []) [t_winner t, t_winner t']))))
                 (\<lambda>wins. push_all now (map snd wins)))
          else return ())))) (\<lambda>_ srv'. rest_kept s1 (fst srv')) (\<lambda>_ srv'. rest_kept s1 (fst srv')) (s1, c)"
    if "list_all sets_publication ops" "rows_ok s1" for t t' ops bd s1 c
    unfolding wp_seq wp_push_bd wp_on_db
    by (auto simp: wp_simps wp_swallow simp del: filter.simps
        intro!: wp_mono [OF publications_kept [OF that]] wp_push_all wp_mono [OF wins])
  show ?thesis
    unfolding apply_sanction_to_tournament_def wp_seq wp_on_db
  proof (rule wp_mono [OF reflect_row_spec [OF assms]])
    fix out :: "(tournament \<times> tournament \<times> deck_op list \<times> broadcast_data) option" and s1
    assume out: "case out of None \<Rightarrow> s1 = ?s \<and> (\<forall>t. get_tournament_by_uid ?s tu = Some t \<longrightarrow>
        reflected now dq (get_sanctions_for_tournament ?s tu) (build_decks_json ?s tu) t = None) | Some (t, t', ops, _) \<Rightarrow> get_tournament_by_uid ?s tu = Some t \<and> rows_ok s1
        \<and> reflected now dq (get_sanctions_for_tournament ?s tu) (build_decks_json ?s tu) t = Some (t', ops)
        \<and> read_object s1 = (read_object ?s)(tu \<mapsto> OTournament t')"
    show "wp (case out of None \<Rightarrow> return () | Some (t, t', ops, bd) \<Rightarrow> seq (push_bd now bd) (\<lambda>_.
          seq (on_db (process_deck_ops now mint ops tu t')) (\<lambda>bds. seq (push_all now bds) (\<lambda>_.
          if t_state t' = T_FINISHED \<and> t_winner t \<noteq> t_winner t'
          then swallow (seq (on_db (recompute_wins now (Some (filter (\<lambda>w. w \<noteq> []) [t_winner t, t_winner t']))))
                 (\<lambda>wins. push_all now (map snd wins)))
          else return ()))))
        (\<lambda>_ srv'. reflects now tu dq ?s (fst srv')) (\<lambda>_ srv'. fst srv' = ?s \<or> reflects now tu dq ?s (fst srv')) (s1, snd srv)"
    proof (cases out)
      case None
      then show ?thesis
        using out assms by (auto simp: wp_simps reflects_def split: option.split intro: option.expand)
    next
      case (Some x)
      obtain t t' ops bd where x: "x = (t, t', ops, bd)" by (cases x)
      have facts: "get_tournament_by_uid ?s tu = Some t" "rows_ok s1"
        "reflected now dq (get_sanctions_for_tournament ?s tu) (build_decks_json ?s tu) t = Some (t', ops)"
        "read_object s1 = (read_object ?s)(tu \<mapsto> OTournament t')" using out by (simp_all add: Some x)
      note kept = reflects_kept [OF facts(1,3,4)]
      show ?thesis
        unfolding Some x option.case prod.case
        by (rule wp_mono [OF tail [OF reflected_ops(2) [OF facts(3)] facts(2)]]) (use kept in auto)
    qed
  qed simp
qed

section \<open>A sound book\<close>

definition sanction_sound :: "sanction \<Rightarrow> bool" where
  "sanction_sound x \<longleftrightarrow> (s_level x \<in> set TOURNAMENT_LEVELS \<longleftrightarrow> truthy_str (s_tournament_uid x))
     \<and> (s_level x = PROBATION \<longrightarrow> s_expires_at x \<noteq> None)
     \<and> (s_level x = PROBATION \<or> s_level x = SUSPENSION \<longrightarrow>
         (case s_expires_at x of None \<Rightarrow> True | Some e \<Rightarrow> e \<le> plus_days 540 (s_issued_at x)))
     \<and> (s_level x = STANDINGS_ADJUSTMENT \<longrightarrow> s_round_number x \<noteq> None)"

definition rivals :: "sanction \<Rightarrow> sanction \<Rightarrow> bool" where
  "rivals x y \<longleftrightarrow> active_dq x \<and> deleted_at x = None \<and> active_dq y \<and> deleted_at y = None
     \<and> s_user_uid x = s_user_uid y \<and> s_tournament_uid x = s_tournament_uid y"

text \<open>Every sanction is sound, and a player has at most one active disqualification of an event.\<close>

definition sound_book :: "db \<Rightarrow> bool" where
  "sound_book s \<longleftrightarrow> list_all sanction_sound (sanctions s)
     \<and> list_all (\<lambda>x. list_all (\<lambda>y. rivals x y \<longrightarrow> uid x = uid y) (sanctions s)) (sanctions s)"

lemma get_sanction_iff: "get_sanction_by_uid s u = Some x \<longleftrightarrow> read_object s u = Some (OSanction x)"
  by (auto simp: get_sanction_by_uid_def get_object_full_read as_sanction_Some split: Option.bind_splits)

lemma sanction_keyed: "rows_ok s \<Longrightarrow> get_sanction_by_uid s u = Some x \<Longrightarrow> uid x = u"
  using stored_object(1) [of s u "OSanction x"] by (simp add: get_sanction_iff)

lemma sound_book_iff:
  assumes "rows_ok s"
  shows "sound_book s \<longleftrightarrow> (\<forall>u x. get_sanction_by_uid s u = Some x \<longrightarrow> sanction_sound x)
     \<and> (\<forall>u v x y. get_sanction_by_uid s u = Some x \<and> get_sanction_by_uid s v = Some y \<and> rivals x y \<longrightarrow> u = v)"
proof -
  have "x \<in> set (sanctions s) \<longleftrightarrow> get_sanction_by_uid s (uid x) = Some x" for x
    unfolding get_sanction_iff using stored_sanctions [OF assms] by auto
  then have set: "x \<in> set (sanctions s) \<longleftrightarrow> (\<exists>u. get_sanction_by_uid s u = Some x)" for x
    using sanction_keyed [OF assms] by metis
  note key = sanction_keyed [OF assms]
  have "(\<forall>x \<in> set (sanctions s). \<forall>y \<in> set (sanctions s). rivals x y \<longrightarrow> uid x = uid y) \<longleftrightarrow>
      (\<forall>u v x y. get_sanction_by_uid s u = Some x \<and> get_sanction_by_uid s v = Some y \<and> rivals x y \<longrightarrow> u = v)" (is "?l \<longleftrightarrow> ?r")
  proof
    assume l: ?l
    show ?r
    proof (intro allI impI; elim conjE)
      fix u v x y assume xy: "get_sanction_by_uid s u = Some x" "get_sanction_by_uid s v = Some y" "rivals x y"
      then have "uid x = uid y" using l unfolding Ball_def set by blast
      then show "u = v" using key [OF xy(1)] key [OF xy(2)] by simp
    qed
  next
    assume r: ?r
    show ?l
    proof (intro ballI impI)
      fix x y assume "x \<in> set (sanctions s)" "y \<in> set (sanctions s)" and rivals: "rivals x y"
      then obtain u v where "get_sanction_by_uid s u = Some x" "get_sanction_by_uid s v = Some y" unfolding set by blast
      then show "uid x = uid y" using r rivals key by blast
    qed
  qed
  moreover have "(\<forall>x \<in> set (sanctions s). sanction_sound x) \<longleftrightarrow> (\<forall>u x. get_sanction_by_uid s u = Some x \<longrightarrow> sanction_sound x)"
    unfolding Ball_def set by blast
  ultimately show ?thesis unfolding sound_book_def list_all_iff by blast
qed

lemma active_dq_iff:
  assumes "rows_ok s"
  shows "has_active_dq s t u \<longleftrightarrow> (\<exists>v x. get_sanction_by_uid s v = Some x \<and> active_dq x \<and> deleted_at x = None
     \<and> s_user_uid x = u \<and> s_tournament_uid x = Some t)"
proof -
  have set: "x \<in> set (get_sanctions_for_tournament s t) \<longleftrightarrow>
      (\<exists>v. get_sanction_by_uid s v = Some x) \<and> s_tournament_uid x = Some t \<and> deleted_at x = None" for x
    unfolding event_sanctions(1) [OF assms] using sanction_keyed [OF assms, of _ x] get_sanction_iff [of s _ x] by metis
  show ?thesis unfolding has_active_dq_def list_ex_iff active_dq_def Bex_def set by blast
qed

text \<open>A write that brings no rival\<close>

lemma sound_book_saved:
  assumes "rows_ok s" and "sound_book s" and "save_sanction now y s = Inr (bd, s')" and "sanction_sound y"
    and "\<And>v x. get_sanction_by_uid s v = Some x \<Longrightarrow> rivals x y \<Longrightarrow> v = uid y"
  shows "rows_ok s' \<and> sound_book s'"
proof -
  have save: "save_object now (OSanction y) (obj_deleted_at (OSanction y)) s = Inr (bd, s')"
    using assms(3) by (simp add: save_sanction_def save_object_from_model_def)
  have rows: "rows_ok s'" by (rule save_object_rows_ok [OF assms(1) save])
  have at: "get_sanction_by_uid s' u = (if u = uid y then Some y else get_sanction_by_uid s u)" for u
    using get_after_save [OF save, of as_sanction u] by (simp add: get_sanction_by_uid_def)
  have sym: "rivals x z \<longleftrightarrow> rivals z x" for x z by (auto simp: rivals_def)
  have "u = v" if "get_sanction_by_uid s' u = Some x" "get_sanction_by_uid s' v = Some z" "rivals x z" for u v x z
    using that assms(2,5) sym unfolding at sound_book_iff [OF assms(1)] by (metis option.inject)
  moreover have "sanction_sound x" if "get_sanction_by_uid s' u = Some x" for u x
    using that assms(2,4) unfolding at sound_book_iff [OF assms(1)] by (metis option.inject)
  ultimately show ?thesis unfolding sound_book_iff [OF rows] using rows by blast
qed

lemma sound_book_reflects: "reflects now tu dq s s' \<Longrightarrow> rows_ok s \<Longrightarrow> sound_book s \<Longrightarrow> rows_ok s' \<and> sound_book s'"
  by (simp add: reflects_def sound_book_iff)

lemma apply_sound:
  assumes "rows_ok (fst srv)" and "sound_book (fst srv)"
  shows "wp (apply_sanction_to_tournament now mint tu dq) (\<lambda>_ srv'. rows_ok (fst srv') \<and> sound_book (fst srv'))
     (\<lambda>_ srv'. rows_ok (fst srv') \<and> sound_book (fst srv')) srv"
  by (rule wp_mono [OF apply_sanction_spec [OF assms(1)]]) (use sound_book_reflects [OF _ assms] assms in auto)

text \<open>What the checks let through\<close>

lemma wp_parse:
  "(\<And>l. Q l s) \<Longrightarrow> (\<And>e. E e s) \<Longrightarrow> wp (parse_level v h) Q E s"
  "(\<And>c. Q' c s) \<Longrightarrow> (\<And>e. E e s) \<Longrightarrow> wp (parse_category v h) Q' E s"
  by (simp_all add: parse_level_def parse_category_def wp_simps split: option.split)

lemma wp_parse_subcategory:
  "(\<And>x. Q x s) \<Longrightarrow> (\<And>e. E e s) \<Longrightarrow> wp (parse_subcategory c v a) Q E s"
  by (simp add: parse_subcategory_def wp_simps split: option.split)

lemma wp_check_round: "Q () s \<Longrightarrow> (\<And>e. E e s) \<Longrightarrow> wp (check_round r event) Q E s"
  by (simp add: check_round_def wp_simps split: option.split)

lemma wp_parse_expiry: "(\<And>x. Q x s) \<Longrightarrow> (\<And>e. E e s) \<Longrightarrow> wp (parse_expiry v g a) Q E s"
  by (simp add: parse_expiry_def wp_simps split: option.split)

lemma wp_validate_binding:
  "((level \<in> set TOURNAMENT_LEVELS \<longleftrightarrow> truthy_str t) \<Longrightarrow> Q () s) \<Longrightarrow> (\<And>e. E e s) \<Longrightarrow> wp (validate_binding level t) Q E s"
  by (auto simp: validate_binding_def wp_simps)

definition expiry_sound :: "sanction_level \<Rightarrow> instant option \<Rightarrow> instant \<Rightarrow> bool" where
  "expiry_sound level expires issued \<longleftrightarrow> (level = PROBATION \<longrightarrow> expires \<noteq> None)
     \<and> (level = PROBATION \<or> level = SUSPENSION \<longrightarrow> (case expires of None \<Rightarrow> True | Some e \<Rightarrow> e \<le> plus_days 540 issued))"

lemma wp_validate_expiry:
  "(expiry_sound level expires issued \<Longrightarrow> Q () s) \<Longrightarrow> (\<And>e. E e s) \<Longrightarrow> wp (validate_expiry level expires issued) Q E s"
  by (auto simp: validate_expiry_def wp_simps Let_def expiry_sound_def MAX_EXPIRY_MONTHS_def not_less split: option.splits)

lemmas wp_rules = wp_parse wp_parse_subcategory wp_check_round wp_parse_expiry wp_validate_binding wp_validate_expiry

text \<open>A checked request: what it makes, of whom, on what authority\<close>

definition within_authority :: "db \<Rightarrow> user \<Rightarrow> request_state \<Rightarrow> sanction \<Rightarrow> bool" where
  "within_authority s usr st x \<longleftrightarrow> s_issued_by_uid x = uid usr \<and> get_user_by_uid s (s_user_uid x) \<noteq> None
     \<and> (truthy_str (rs_tournament st) \<longrightarrow> s_tournament_uid x = rs_tournament st)
     \<and> (IC \<in> set (u_roles usr) \<or> ETHICS \<in> set (u_roles usr)
        \<or> s_level x \<noteq> SUSPENSION \<and> s_level x \<noteq> PROBATION
          \<and> (case event_of s (s_tournament_uid x) of None \<Rightarrow> False | Some t \<Rightarrow> uid usr \<in> set (t_organizers_uids t)))"

text \<open>A stage that only reads, cut off from what follows it\<close>

definition gives :: "('s, 'a) prog \<Rightarrow> ('a \<Rightarrow> bool) \<Rightarrow> bool" where
  "gives m P \<longleftrightarrow> (\<forall>s. wp m (\<lambda>x s'. s' = s \<and> P x) (\<lambda>_ s'. s' = s) s)"

lemma wp_gives: "gives m P \<Longrightarrow> (\<And>x. P x \<Longrightarrow> Q x s) \<Longrightarrow> (\<And>e. E e s) \<Longrightarrow> wp m Q E s"
  unfolding gives_def by (erule allE [of _ s]) (erule wp_mono, auto)

lemma wp_check: "(b \<Longrightarrow> Q () s) \<Longrightarrow> (\<And>e. E e s) \<Longrightarrow> wp (check b n d) Q E s"
  by (simp add: wp_simps)

lemma wp_reads_db: "Q (f (fst s)) s \<Longrightarrow> wp (on_db (gets f)) Q E s"
  by (simp add: wp_simps)

lemma issued_round:
  "gives (case r of None \<Rightarrow> return () | Some r \<Rightarrow> seq (on_db (gets f)) (check_round r)) (\<lambda>_. True)"
  by (auto simp: gives_def wp_simps split: option.split intro!: wp_check_round)

lemma issued_spec:
  "wp (issued_sanction now k usr st b) (\<lambda>x srv'. srv' = srv \<and> uid x = k \<and> deleted_at x = None \<and> s_lifted_at x = None
       \<and> s_user_uid x = cs_user_uid b \<and> s_tournament_uid x = cs_tournament_uid b
       \<and> sanction_sound x \<and> within_authority (fst srv) usr st x
       \<and> (active_dq x \<longrightarrow> \<not> has_active_dq (fst srv) (str_default (s_tournament_uid x)) (s_user_uid x)))
     (\<lambda>_ srv'. srv' = srv) srv"
  unfolding issued_sanction_def wp_seq
  by (intro wp_check wp_rules wp_reads_db wp_gives [OF issued_round])
    (auto simp: wp_simps sanction_sound_def expiry_sound_def within_authority_def can_issue_sanction_iff active_dq_def split: option.splits)

lemma edited_stages:
  fixes x :: sanction
  assumes "sanction_sound x"
  shows "gives (case us_level b of None \<Rightarrow> return (s_level x)
      | Some v \<Rightarrow> seq (parse_level v []) (\<lambda>l. seq (validate_binding l (s_tournament_uid x)) (\<lambda>_. return l)))
      (\<lambda>l. l \<in> set TOURNAMENT_LEVELS \<longleftrightarrow> truthy_str (s_tournament_uid x))"
    and "gives (case us_category b of None \<Rightarrow> return (s_category x) | Some v \<Rightarrow> parse_category v []) (\<lambda>_. True)"
    and "gives (parse_subcategory c (us_subcategory b) (s_subcategory x)) (\<lambda>_. True)"
    and "gives (case us_round_number b of None \<Rightarrow> return (s_round_number x)
          | Some r \<Rightarrow> seq (on_db (gets (\<lambda>s. case s_tournament_uid x of None \<Rightarrow> None | Some t \<Rightarrow> get_tournament_by_uid s t)))
              (\<lambda>event. seq (check_round r event) (\<lambda>_. return (Some r)))) (\<lambda>_. True)"
    and "gives ((case us_description b of None \<Rightarrow> return (s_description x)
          | Some d \<Rightarrow> if strip d = [] then refuse 400 ''Description cannot be empty'' else return (strip d))
          :: (server, string) prog) (\<lambda>_. True)"
    and "gives (parse_expiry (us_expires_at b) g (s_expires_at x)) (\<lambda>_. True)"
  using assms unfolding gives_def
  by (auto simp: wp_simps sanction_sound_def split: option.split intro!: wp_rules)

lemma edited_spec:
  assumes "sanction_sound x"
  shows "wp (edited_sanction now usr b x) (\<lambda>y srv'. srv' = srv \<and> uid y = uid x \<and> deleted_at y = deleted_at x
       \<and> s_user_uid y = s_user_uid x \<and> s_tournament_uid y = s_tournament_uid x \<and> sanction_sound y)
     (\<lambda>_ srv'. srv' = srv) srv"
proof -
  have sound: "sanction_sound (x\<lparr>modified := now, s_level := level, s_category := category, s_subcategory := subcategory,
      s_round_number := r, s_description := description, s_expires_at := expires, s_lifted_at := l, s_lifted_by_uid := lb\<rparr>)"
    if "level \<in> set TOURNAMENT_LEVELS \<longleftrightarrow> truthy_str (s_tournament_uid x)" "\<not> (level = STANDINGS_ADJUSTMENT \<and> r = None)"
      "expiry_sound level expires (s_issued_at x)" for level category subcategory r description expires l lb
    using that by (cases expires) (simp_all add: sanction_sound_def expiry_sound_def)
  show ?thesis
    unfolding edited_sanction_def wp_seq
    by (intro wp_gives [OF edited_stages(1) [OF assms]] wp_gives [OF edited_stages(2) [OF assms]] wp_gives [OF edited_stages(3) [OF assms]]
        wp_gives [OF edited_stages(4) [OF assms]] wp_gives [OF edited_stages(5) [OF assms]] wp_gives [OF edited_stages(6) [OF assms]]
        wp_check wp_validate_expiry) (simp_all add: wp_simps sound)
qed

lemma allowed_edit_spec:
  assumes "sanction_sound x"
  shows "wp (allowed_edit now usr b x) (\<lambda>y srv'. srv' = srv \<and> uid y = uid x \<and> deleted_at y = deleted_at x
       \<and> s_user_uid y = s_user_uid x \<and> s_tournament_uid y = s_tournament_uid x \<and> sanction_sound y
       \<and> (active_dq y \<and> \<not> active_dq x \<longrightarrow> \<not> has_active_dq (fst srv) (str_default (s_tournament_uid x)) (s_user_uid x)))
     (\<lambda>_ srv'. srv' = srv) srv"
proof -
  have truthy: "truthy_str (s_tournament_uid y)" if "sanction_sound y" "active_dq y" for y
    using that by (simp add: sanction_sound_def active_dq_def TOURNAMENT_LEVELS_def)
  show ?thesis
    unfolding allowed_edit_def wp_seq
    by (auto simp: wp_simps split: sum.split intro!: wp_mono [OF edited_spec [OF assms]]) (metis truthy)+
qed

section \<open>The endpoints keep the book\<close>

definition kept_book :: "server \<Rightarrow> bool" where
  "kept_book srv \<longleftrightarrow> rows_ok (fst srv) \<and> sound_book (fst srv)"

lemma wp_apply_kept: "kept_book srv \<Longrightarrow> wp (apply_sanction_to_tournament now mint tu dq) (\<lambda>_. kept_book) (\<lambda>_. kept_book) srv"
  by (rule wp_mono [OF apply_sound]) (simp_all add: kept_book_def)

lemma wp_reflections:
  assumes "kept_book srv"
  shows "wp (reflect_issued now mint x) (\<lambda>_. kept_book) (\<lambda>_. kept_book) srv"
    "wp (reflect_edited now mint x y) (\<lambda>_. kept_book) (\<lambda>_. kept_book) srv"
    "wp (reflect_deleted now mint x) (\<lambda>_. kept_book) (\<lambda>_. kept_book) srv"
  unfolding reflect_issued_def reflect_edited_def reflect_deleted_def Let_def wp_seq wp_if wp_on_db
  using assms by (auto simp: wp_simps intro!: wp_apply_kept wp_mono [OF wp_apply_kept])

lemma wp_saved_reflected:
  assumes "kept_book srv" and "\<And>bd s'. save_sanction now y (fst srv) = Inr (bd, s') \<Longrightarrow> kept_book (s', snd srv)"
    and "\<And>srv. kept_book srv \<Longrightarrow> wp r (\<lambda>_. kept_book) (\<lambda>_. kept_book) srv"
    and "\<And>bd srv. kept_book srv \<Longrightarrow> K bd srv"
  shows "wp (on_db (atomic (save_sanction now y))) (\<lambda>bd. wp r (\<lambda>_. K bd) (\<lambda>_. kept_book)) (\<lambda>_. kept_book) srv"
  using assms(1,2) by (auto simp: wp_simps split: sum.split intro!: wp_mono [OF assms(3)] assms(4))

lemma wp_pushed:
  assumes "kept_book srv"
  shows "wp (push_bd now bd) (\<lambda>_. kept_book) (\<lambda>_. kept_book) srv"
    "wp (push_bd now bd) (\<lambda>_. wp (return v) (\<lambda>_. kept_book) (\<lambda>_. kept_book)) (\<lambda>_. kept_book) srv"
  using assms by (simp_all add: wp_simps kept_book_def)

lemma create_kept:
  assumes "kept_book srv"
  shows "wp (create_sanction now k mint usr st b) (\<lambda>_. kept_book) (\<lambda>_. kept_book) srv"
proof -
  have rows: "rows_ok (fst srv)" "sound_book (fst srv)" using assms by (simp_all add: kept_book_def)
  have saved: "kept_book (s', c)" if "save_sanction now x (fst srv) = Inr (bd, s')" "sanction_sound x" "s_lifted_at x = None"
    "active_dq x \<longrightarrow> \<not> has_active_dq (fst srv) (str_default (s_tournament_uid x)) (s_user_uid x)" for x bd s' c
  proof -
    have "v = uid x" if r: "get_sanction_by_uid (fst srv) v = Some y" "rivals y x" for v y
    proof -
      have x: "active_dq x" using r(2) by (simp add: rivals_def)
      then have "truthy_str (s_tournament_uid x)" using that(2) \<open>sanction_sound x\<close> by (simp add: sanction_sound_def active_dq_def TOURNAMENT_LEVELS_def)
      then have "has_active_dq (fst srv) (str_default (s_tournament_uid x)) (s_user_uid x)"
        using r unfolding active_dq_iff [OF rows(1)]
        by (intro exI [of _ v] exI [of _ y]) (auto simp: rivals_def truthy_str_def str_default_def)
      then show ?thesis using \<open>active_dq x \<longrightarrow> _\<close> x by simp
    qed
    from sound_book_saved [OF rows that(1,2) this] show ?thesis by (simp add: kept_book_def)
  qed
  show ?thesis
    unfolding create_sanction_def wp_seq
    by (rule wp_mono [OF issued_spec], rule wp_saved_reflected)
      (use assms saved in \<open>auto intro: wp_reflections wp_pushed\<close>)
qed

lemma update_kept:
  assumes "kept_book srv"
  shows "wp (update_sanction now mint usr u b) (\<lambda>_. kept_book) (\<lambda>_. kept_book) srv"
proof -
  have rows: "rows_ok (fst srv)" "sound_book (fst srv)" using assms by (simp_all add: kept_book_def)
  have saved: "kept_book (s', c)" if x: "get_sanction_by_uid (fst srv) u = Some x" and save: "save_sanction now y (fst srv) = Inr (bd, s')"
    and y: "uid y = uid x" "deleted_at y = deleted_at x" "s_user_uid y = s_user_uid x" "s_tournament_uid y = s_tournament_uid x"
      "sanction_sound y"
      "active_dq y \<and> \<not> active_dq x \<longrightarrow> \<not> has_active_dq (fst srv) (str_default (s_tournament_uid x)) (s_user_uid x)"
    for x y bd s' c
  proof -
    have "v = uid y" if r: "get_sanction_by_uid (fst srv) v = Some z" "rivals z y" for v z
    proof (cases "active_dq x")
      case True
      then have "rivals z x" using r(2) y(2-4) by (simp add: rivals_def)
      then have "v = u" using rows(2) r(1) x unfolding sound_book_iff [OF rows(1)] by blast
      then show ?thesis using sanction_keyed [OF rows(1) x] y(1) by simp
    next
      case False
      have "truthy_str (s_tournament_uid x)" using y(4,5) r(2) by (simp add: sanction_sound_def rivals_def active_dq_def TOURNAMENT_LEVELS_def)
      then have "has_active_dq (fst srv) (str_default (s_tournament_uid x)) (s_user_uid x)"
        using r y(3,4) unfolding active_dq_iff [OF rows(1)]
        by (intro exI [of _ v] exI [of _ z]) (auto simp: rivals_def truthy_str_def str_default_def)
      then show ?thesis using y(6) False r(2) by (simp add: rivals_def)
    qed
    from sound_book_saved [OF rows save y(5) this] show ?thesis by (simp add: kept_book_def)
  qed
  have sound: "sanction_sound x" if "get_sanction_by_uid (fst srv) u = Some x" for x
    using rows(2) that unfolding sound_book_iff [OF rows(1)] by blast
  have edit: "wp (allowed_edit now usr b x) (\<lambda>y. wp (on_db (atomic (save_sanction now y))) (\<lambda>bd.
      wp (reflect_edited now mint x y) (\<lambda>_. wp (push_bd now bd) (\<lambda>_. wp (return y) (\<lambda>_. kept_book) (\<lambda>_. kept_book)) (\<lambda>_. kept_book))
      (\<lambda>_. kept_book)) (\<lambda>_. kept_book)) (\<lambda>_. kept_book) srv"
    if x: "get_sanction_by_uid (fst srv) u = Some x" for x
    by (rule wp_mono [OF allowed_edit_spec [OF sound [OF x]]], rule wp_saved_reflected)
      (use assms saved [OF x] in \<open>auto intro: wp_reflections wp_pushed\<close>)
  show ?thesis
    unfolding update_sanction_def wp_seq wp_case_option
    by (rule wp_reads_db) (simp add: wp_blocks assms edit split: option.split)
qed

lemma delete_kept:
  assumes "kept_book srv"
  shows "wp (delete_sanction now mint usr u) (\<lambda>_. kept_book) (\<lambda>_. kept_book) srv"
proof -
  have rows: "rows_ok (fst srv)" "sound_book (fst srv)" using assms by (simp_all add: kept_book_def)
  have saved: "kept_book (s', c)" if x: "get_sanction_by_uid (fst srv) u = Some x"
    and save: "save_sanction now (x\<lparr>modified := now, deleted_at := Some now\<rparr>) (fst srv) = Inr (bd, s')" for x bd s' c
  proof -
    have "sanction_sound x" using rows(2) x unfolding sound_book_iff [OF rows(1)] by blast
    then have "sanction_sound (x\<lparr>modified := now, deleted_at := Some now\<rparr>)" by (cases "s_expires_at x") (simp_all add: sanction_sound_def)
    from sound_book_saved [OF rows save this] show ?thesis by (simp add: kept_book_def rivals_def)
  qed
  show ?thesis
    unfolding delete_sanction_def wp_seq wp_case_option
    by (rule wp_reads_db) (auto simp: wp_blocks assms split: option.split
      intro!: wp_check wp_reads_db wp_saved_reflected saved wp_reflections wp_pushed)
qed

text \<open>The calls a client may make, in any order\<close>

datatype sanction_call =
    Issue uid "nat \<Rightarrow> uid" http_request sanction_request
  | Edit "nat \<Rightarrow> uid" http_request uid sanction_edit
  | Remove "nat \<Rightarrow> uid" http_request uid

fun sanction_call_step :: "auth_config \<Rightarrow> instant \<times> sanction_call \<Rightarrow> app \<Rightarrow> app" where
  "sanction_call_step cfg (now, Issue k mint rq b) a = snd (create_sanction_handler cfg now k mint rq b a)"
| "sanction_call_step cfg (now, Edit mint rq u b) a = snd (update_sanction_endpoint cfg now mint rq u b a)"
| "sanction_call_step cfg (now, Remove mint rq u) a = snd (delete_sanction_endpoint cfg now mint rq u a)"

lemma handler_kept:
  assumes "\<And>usr st srv. kept_book srv \<Longrightarrow> wp (m usr st) (\<lambda>_. kept_book) (\<lambda>_. kept_book) srv"
    and "kept_book (as_db (fst a), snd a)"
  shows "kept_book (as_db (fst (snd (seq (require_user cfg now rq) (\<lambda>(usr, st). on_server (m usr st)) a))),
    snd (snd (seq (require_user cfg now rq) (\<lambda>(usr, st). on_server (m usr st)) a)))"
proof -
  let ?P = "\<lambda>a. kept_book (as_db (fst a), snd a)"
  have "wp (seq (require_user cfg now rq) (\<lambda>(usr, st). on_server (m usr st))) (\<lambda>_. ?P) (\<lambda>_. ?P) a"
    unfolding wp_seq
    by (rule wp_require_user) (use assms in \<open>auto simp: wp_simps intro!: wp_mono [OF assms(1)]\<close>)
  then show ?thesis unfolding wp_state .
qed

text \<open>C34: Whatever requests are made, in any order, the book of sanctions stays sound: the levels of a
  tournament are bound to one and the others to none, a probation expires within 18 months, a
  standings adjustment names its round, and a player never has two active disqualifications of one
  event; and the tables stay consistent.\<close>

theorem sanctions_stay_sound:
  assumes "rows_ok (as_db (fst a))" and "sound_book (as_db (fst a))"
  shows "rows_ok (as_db (fst (fold (sanction_call_step cfg) calls a))) \<and> sound_book (as_db (fst (fold (sanction_call_step cfg) calls a)))"
proof -
  have step: "kept_book (as_db (fst (sanction_call_step cfg call a)), snd (sanction_call_step cfg call a))"
    if "kept_book (as_db (fst a), snd a)" for call a
    by (cases "(cfg, call, a)" rule: sanction_call_step.cases)
      (use that in \<open>auto simp: create_sanction_handler_def update_sanction_endpoint_def delete_sanction_endpoint_def
        intro!: handler_kept create_kept update_kept delete_kept\<close>)
  have "kept_book (as_db (fst a), snd a)" using assms by (simp add: kept_book_def)
  then have "kept_book (as_db (fst (fold (sanction_call_step cfg) calls a)), snd (fold (sanction_call_step cfg) calls a))"
    by (induction calls arbitrary: a) (simp_all add: step)
  then show ?thesis by (simp add: kept_book_def)
qed

section \<open>Authority\<close>


section \<open>A disqualification reaches its event\<close>

lemma find_marked:
  "find (\<lambda>p. pl_user_uid p = Some u) (set_player_state u st ps) = map_option (\<lambda>p. p\<lparr>pl_state := st\<rparr>) (find (\<lambda>p. pl_user_uid p = Some u) ps)"
  by (induction ps) simp_all

lemma find_none_marks: "list_ex (\<lambda>p. pl_user_uid p = Some u) ps \<longleftrightarrow> find (\<lambda>p. pl_user_uid p = Some u) ps \<noteq> None"
  by (induction ps) auto

definition struck_row :: "uid \<Rightarrow> standing \<Rightarrow> bool" where
  "struck_row u r \<longleftrightarrow> (if st_user_uid r = u then st_disqualified r \<and> st_gw r = 0 \<and> st_vp r = 0 \<and> st_tp r = 0 else True)"

lemma struck_standings:
  assumes "has_dq_sanction ss u" and "t_rounds t \<noteq> []"
  shows "list_all (struck_row u) (t_standings (update_standings t ss))"
proof -
  have rounds: "t_rounds (refresh_round_scoring t ss) \<noteq> []"
    using assms(2) by (simp add: refresh_round_scoring_def Let_def enumerate_eq_zip)
  have row: "struck_row u (stored_standing (standing_of t' ss sas e))" for t' sas e
    using assms(1) by (cases e) (simp add: struck_row_def stored_standing_def standing_of_def new_standing_def Let_def)
  show ?thesis
    using rounds row by (auto simp: update_standings_def Let_def compute_preliminary_standings_def sort_by_rank_def list_all_iff)
qed

definition struck :: "uid \<Rightarrow> tournament \<Rightarrow> tournament \<Rightarrow> bool" where
  "struck u t0 t \<longleftrightarrow> (case find (\<lambda>p. pl_user_uid p = Some u) (t_players t) of
       None \<Rightarrow> find (\<lambda>p. pl_user_uid p = Some u) (t_players t0) = None | Some p \<Rightarrow> pl_state p = DISQUALIFIED)
     \<and> (t_rounds t0 = [] \<or> list_all (struck_row u) (t_standings t))"

lemma reflected_struck:
  assumes "has_dq_sanction ss u"
  shows "case reflected now (Some (u, DISQUALIFIED)) ss ds t0 of None \<Rightarrow> struck u t0 t0 | Some (t, _) \<Rightarrow> struck u t0 t"
  using struck_standings [OF assms, of "mark_player (Some (u, DISQUALIFIED)) t0"]
  by (auto simp: reflected_def struck_def marks_def mark_player_def update_standings_json_def find_marked find_none_marks Let_def
      split: option.split if_splits)


section \<open>Where the rules stop short\<close>

text \<open>An edit of the category alone keeps a subcategory that is not one of it.\<close>

lemma category_edit_keeps_subcategory:
  assumes "sanction_sound x" and "category_of v = Some c"
  shows "edited_sanction now usr \<lparr>us_level = None, us_category = Some v, us_subcategory = None, us_round_number = None,
      us_description = None, us_expires_at = None, us_lifted = None\<rparr> x srv
    = (Inr (x\<lparr>modified := now, s_category := c\<rparr>), srv)"
proof -
  have "validate_expiry (s_level x) (s_expires_at x) (s_issued_at x) = return ()"
    using assms(1) by (auto simp: validate_expiry_def sanction_sound_def MAX_EXPIRY_MONTHS_def Let_def fun_eq_iff split: option.splits)
  then show ?thesis
    using assms by (simp add: edited_sanction_def parse_category_def parse_subcategory_def parse_expiry_def seq_def check_def lifts_def
        sanction_sound_def)
qed

text \<open>An edit does not ask whether the sanction is deleted: one that turns a deleted sanction into a
  disqualification disqualifies the player, and it cannot be deleted again.\<close>

lemma deleted_sanction_disqualifies:
  assumes "get_sanction_by_uid (fst srv) u = Some x" and "deleted_at x \<noteq> None" and "truthy_str (s_tournament_uid x)"
    and "active_dq y" and "\<not> active_dq x"
  shows "delete_sanction now mint usr u srv = (Inl (HTTPException 400 ''Sanction already deleted''), srv)"
    "reflect_edited now mint x y srv
     = apply_sanction_to_tournament now mint (str_default (s_tournament_uid x)) (Some (s_user_uid x, DISQUALIFIED)) srv"
  using assms by (auto simp: delete_sanction_def seq_def on_db_def check_def refuse_def reflect_edited_def split: prod.splits)

text \<open>A negative round is accepted, and stands for the first.\<close>

lemma negative_round_accepted:
  assumes "r < 0"
  shows "check_round r (Some t) srv = (Inr (), srv)"
    "get_sa_sanctions [x\<lparr>s_round_number := Some r\<rparr>] = get_sa_sanctions [x\<lparr>s_round_number := Some 0\<rparr>]"
  using assms by (simp_all add: check_round_def check_def get_sa_sanctions_def is_sanction_active_def)

text \<open>Removing a disqualification never gives a registered player, or one who had left, their state back.\<close>

lemma restored_states: "dq_restore_state s t u \<in> {DISQUALIFIED, P_FINISHED, P_PLAYING, CHECKED_IN}"
  by (simp add: dq_restore_state_def split: option.split)

section \<open>A sample event\<close>

definition sample_ic :: user where
  "sample_ic = (new_user ''k'' (Instant 2026 1 1 0) ''Ann'')\<lparr>u_roles := [IC]\<rparr>"

definition sample_open :: tournament where
  "sample_open = (new_tournament ''t'' (Instant 2026 1 1 0) ''Sample'' ''CODE'')\<lparr>t_players := [new_player (Some ''k'')]\<rparr>"

lemma sample_ic_simps: "is_active_account (Some sample_ic)" "uid sample_ic = ''k''" "IC \<in> set (u_roles sample_ic)"
  by (simp_all add: sample_ic_def new_user_def is_active_account_def)

lemma sample_open_simps: "uid sample_open = ''t''" "t_rounds sample_open = []" "t_event_code sample_open = []"
    "t_state sample_open \<noteq> T_FINISHED" "t_players sample_open = [new_player (Some ''k'')]" "t_vekn_pushed_at sample_open = None"
  by (simp_all add: sample_open_def new_tournament_def)

lemma sample_event_table:
  obtains s where "rows_ok s" "read_object s = Map.empty(''k'' \<mapsto> OUser sample_ic, ''t'' \<mapsto> OTournament sample_open)"
proof -
  have ic: "index_keys (OUser sample_ic) = None" "as_stored (OUser sample_ic) = OUser sample_ic"
    by (simp_all add: sample_ic_def new_user_def truthy_str_def without_owner_columns_def)
  obtain bd1 s1 where s1: "save_object_from_model (Instant 2026 1 1 0) (OUser sample_ic) empty_db = Inr (bd1, s1)"
      "read_object s1 = (read_object empty_db)(obj_uid (OUser sample_ic) \<mapsto> OUser sample_ic)" "rows_ok empty_db \<Longrightarrow> rows_ok s1"
    using save_plain [OF ic, of "Instant 2026 1 1 0" empty_db] by blast
  have t: "index_keys (OTournament sample_open) = None" "as_stored (OTournament sample_open) = OTournament sample_open"
    by (simp_all add: sample_open_simps)
  obtain bd2 s2 where s2: "save_object_from_model (Instant 2026 1 1 0) (OTournament sample_open) s1 = Inr (bd2, s2)"
      "read_object s2 = (read_object s1)(obj_uid (OTournament sample_open) \<mapsto> OTournament sample_open)" "rows_ok s1 \<Longrightarrow> rows_ok s2"
    using save_plain [OF t, of "Instant 2026 1 1 0" s1] by blast
  have empty: "rows_ok empty_db" using empty_db_ok by (simp add: db_ok_def)
  have "read_object s2 = Map.empty(''k'' \<mapsto> OUser sample_ic, ''t'' \<mapsto> OTournament sample_open)"
    by (simp add: s1(2) s2(2) sample_ic_simps sample_open_simps fun_eq_iff read_object_def empty_db_def)
  then show thesis using that s2(3) s1(3) [OF empty] by blast
qed

definition sample_dq :: sanction_request where
  "sample_dq = \<lparr>cs_user_uid = ''k'', cs_level = ''disqualification'', cs_category = ''unsportsmanlike_conduct'', cs_subcategory = None,
     cs_round_number = None, cs_description = ''d'', cs_expires_at = None, cs_tournament_uid = Some ''t''\<rparr>"

definition first_party :: request_state where
  "first_party = \<lparr>rs_scopes = None, rs_client_id = None, rs_tournament = None\<rparr>"

lemma sample_signed_in:
  assumes "get_user_by_uid d ''k'' = Some usr" and "is_active_account (Some usr)"
  shows "get_current_user (sample_config (sample_claims ''access'')) now (sample_request path) (sample_server d v p)
    = (Inr (usr, first_party), sample_server d v p)"
  using assms by (simp add: get_current_user_def sample_request_def starts_with_def lift_res_def sample_decode seq_def bearer_claims_def
      sample_claims_def truthy_str_def str_default_def sample_server_simps first_party_def)

definition dq_made :: sanction where
  "dq_made = \<lparr>uid = ''x'', modified = Instant 2026 1 2 0, deleted_at = None, s_user_uid = ''k'', s_issued_by_uid = ''k'',
     s_tournament_uid = Some ''t'', s_level = DISQUALIFICATION, s_category = UNSPORTSMANLIKE_CONDUCT, s_subcategory = None,
     s_round_number = None, s_description = ''d'', s_issued_at = Instant 2026 1 2 0, s_expires_at = None,
     s_lifted_at = None, s_lifted_by_uid = None\<rparr>"

lemma sample_issued:
  assumes "rows_ok d" and "read_object d = Map.empty(''k'' \<mapsto> OUser sample_ic, ''t'' \<mapsto> OTournament sample_open)"
  obtains srv where "create_sanction (Instant 2026 1 2 0) ''x'' (\<lambda>_. ''m'') sample_ic first_party sample_dq (d, c) = (Inr dq_made, srv)"
proof -
  have reads: "get_user_by_uid d ''k'' = Some sample_ic" "get_tournament_by_uid d ''t'' = Some sample_open"
    by (simp_all add: get_user_by_uid_def get_tournament_by_uid_def get_object_full_read assms(2))
  have none: "\<not> has_active_dq d ''t'' ''k''"
    unfolding active_dq_iff [OF assms(1)] by (simp add: get_sanction_iff assms(2))
  have levels: "level_of ''disqualification'' = Some DISQUALIFICATION" "category_of ''unsportsmanlike_conduct'' = Some UNSPORTSMANLIKE_CONDUCT"
    by (simp_all add: level_of_def all_levels_def category_of_def all_categories_def)
  have issue: "issued_sanction (Instant 2026 1 2 0) ''x'' sample_ic first_party sample_dq (d, c) = (Inr dq_made, (d, c))"
    using reads none levels sample_ic_simps
    by (simp add: issued_sanction_def sample_dq_def first_party_def seq_def check_def on_db_def parse_level_def parse_category_def
        parse_subcategory_def parse_expiry_def validate_binding_def validate_expiry_def truthy_str_def str_default_def TOURNAMENT_LEVELS_def
        can_issue_sanction_iff Let_def dq_made_def)
  obtain bd1 s1 where s1: "save_sanction (Instant 2026 1 2 0) dq_made d = Inr (bd1, s1)"
      "read_object s1 = (read_object d)(''x'' \<mapsto> OSanction dq_made)"
  proof -
    have x: "index_keys (OSanction dq_made) = None" "as_stored (OSanction dq_made) = OSanction dq_made" "obj_uid (OSanction dq_made) = ''x''"
      by (simp_all add: dq_made_def)
    show ?thesis using save_plain [OF x(1,2), of "Instant 2026 1 2 0" d] that unfolding save_sanction_def x(3) by blast
  qed
  have event: "get_tournament_by_uid s1 ''t'' = Some sample_open"
    by (simp add: get_tournament_by_uid_def get_object_full_read s1(2) assms(2))
  define t' where "t' = (mark_player (Some (''k'', DISQUALIFIED)) sample_open)\<lparr>
    t_vekn_results_stale := t_vekn_results_stale sample_open, modified := Instant 2026 1 2 0\<rparr>"
  have t': "reflected (Instant 2026 1 2 0) (Some (''k'', DISQUALIFIED)) ss ds sample_open = Some (t', [])" for ss ds
    by (simp add: reflected_def marks_def mark_player_def sample_open_simps new_player_def Let_def t'_def)
  have code: "t_event_code t' = []" "t_state t' \<noteq> T_FINISHED" by (simp_all add: t'_def mark_player_def sample_open_simps)
  obtain bd2 s2 where s2: "save_tournament (Instant 2026 1 2 0) t' s1 = Inr (bd2, s2)"
  proof -
    have x: "index_keys (OTournament t') = None" "as_stored (OTournament t') = OTournament t'" by (simp_all add: code)
    show ?thesis using save_plain [OF x, of "Instant 2026 1 2 0" s1] that unfolding save_tournament_def by blast
  qed
  have "reflect_row (Instant 2026 1 2 0) ''t'' (Some (''k'', DISQUALIFIED)) s1 = (Inr (Some (sample_open, t', [], bd2)), s2)"
    by (simp add: reflect_row_def transaction_def seq_def event t' atomic_def s2)
  then have "\<exists>srv. apply_sanction_to_tournament (Instant 2026 1 2 0) (\<lambda>_. ''m'') ''t'' (Some (''k'', DISQUALIFIED)) (s1, c) = (Inr (), srv)"
    using code(2) by (simp add: apply_sanction_to_tournament_def seq_def on_db_def push_bd_def process_deck_ops_def push_all_def)
  then obtain srv where srv: "reflect_issued (Instant 2026 1 2 0) (\<lambda>_. ''m'') dq_made (s1, c) = (Inr (), srv)"
    by (auto simp: reflect_issued_def dq_made_def str_default_def)
  obtain d2 c2 where srv2: "srv = (d2, c2)" by (cases srv)
  have "create_sanction (Instant 2026 1 2 0) ''x'' (\<lambda>_. ''m'') sample_ic first_party sample_dq (d, c)
      = (Inr dq_made, (d2, broadcast_precomputed (Instant 2026 1 2 0) bd1 None c2))"
    by (simp add: create_sanction_def seq_def issue on_db_def atomic_def s1(1) srv srv2 push_bd_def)
  then show thesis by (rule that)
qed

lemma sample_handled:
  obtains d a' where "rows_ok d" "read_object d = Map.empty(''k'' \<mapsto> OUser sample_ic, ''t'' \<mapsto> OTournament sample_open)"
    "create_sanction_handler (sample_config (sample_claims ''access'')) (Instant 2026 1 2 0) ''x'' (\<lambda>_. ''m'') (sample_request ''/sanctions/'')
       sample_dq (sample_server d False None, sample_sse) = (Inr dq_made, a')"
    "rows_ok (as_db (sample_server d False None))" "read_object (as_db (sample_server d False None)) = read_object d"
proof -
  obtain d where d: "rows_ok d" "read_object d = Map.empty(''k'' \<mapsto> OUser sample_ic, ''t'' \<mapsto> OTournament sample_open)"
    by (rule sample_event_table)
  let ?s = "sample_server d False None"
  have same: "db_objects (as_db ?s) = db_objects d" by (simp add: sample_server_def)
  have rows: "rows_ok (as_db ?s)" using d(1) by (simp add: rows_ok_def unique_index_def index_of_def same)
  have read: "read_object (as_db ?s) = read_object d" by (simp add: fun_eq_iff read_object_def same)
  have user: "get_user_by_uid d ''k'' = Some sample_ic" by (simp add: get_user_by_uid_def get_object_full_read d(2))
  obtain srv where run: "create_sanction (Instant 2026 1 2 0) ''x'' (\<lambda>_. ''m'') sample_ic first_party sample_dq (as_db ?s, sample_sse) = (Inr dq_made, srv)"
    by (rule sample_issued [OF rows]) (simp_all add: read d(2))
  have "create_sanction_handler (sample_config (sample_claims ''access'')) (Instant 2026 1 2 0) ''x'' (\<lambda>_. ''m'') (sample_request ''/sanctions/'')
       sample_dq (?s, sample_sse) = (Inr dq_made, (?s\<lparr>as_db := fst srv\<rparr>, snd srv))"
    by (cases srv) (simp add: create_sanction_handler_def seq_def require_user_def authed_def on_server_def run
        sample_signed_in [OF user sample_ic_simps(1)])
  then show thesis by (rule that [OF d _ rows read])
qed

lemma dq_made_simps: "s_level dq_made = DISQUALIFICATION" "s_tournament_uid dq_made = Some ''t''" "s_user_uid dq_made = ''k''"
  by (simp_all add: dq_made_def)

theorem sanctions_stay_sound_witness:
  "\<exists>d. get_user_by_uid d ''k'' = Some sample_ic \<and> sound_book (as_db (fst (fold (sanction_call_step (sample_config (sample_claims ''access'')))
     [(Instant 2026 1 2 0, Issue ''x'' (\<lambda>_. ''m'') (sample_request ''/sanctions/'') sample_dq)] (sample_server d False None, sample_sse))))"
proof -
  obtain d a' where d: "rows_ok d" "read_object d = Map.empty(''k'' \<mapsto> OUser sample_ic, ''t'' \<mapsto> OTournament sample_open)"
    and rows: "rows_ok (as_db (sample_server d False None))" and read: "read_object (as_db (sample_server d False None)) = read_object d"
    by (rule sample_handled)
  have "sound_book (as_db (sample_server d False None))"
    unfolding sound_book_iff [OF rows] by (auto simp: get_sanction_iff read d(2) split: if_splits)
  then have "sound_book (as_db (fst (sample_server d False None, sample_sse)))" by simp
  note sound = conjunct2 [OF sanctions_stay_sound [OF _ this]]
  show ?thesis
    by (intro exI [of _ d] conjI, simp add: get_user_by_uid_def get_object_full_read d(2), rule sound) (simp add: rows)
qed



end
