(* ===== verification/Event_Desk.thy ===== *)
theory Event_Desk
  imports Sanctions
begin

text \<open>
  The desk of an event (\<open>routes/tournaments.py\<close>): its organizers, its banner, the round clock, the
  announcements, a call for a judge, the lock an event is under while it is run offline, its
  deletion.  The clock is read once a request; a web push, sent in the background, is left out.
\<close>

section \<open>One event under its row lock\<close>

text \<open>While the lock is held every helper works on its connection, so an exception undoes all.\<close>

definition tournament_transaction :: "uid \<Rightarrow> (tournament option \<Rightarrow> (db, 'a) prog) \<Rightarrow> (server, 'a) prog" where
  "tournament_transaction u f = on_db (transaction (seq (gets (\<lambda>s. get_tournament_by_uid s u)) f))"

definition allow :: "bool res \<Rightarrow> nat \<Rightarrow> string \<Rightarrow> ('s, unit) prog" where
  "allow r n d = seq (lift_res r) (\<lambda>ok. check ok n d)"

definition found_event :: "tournament option \<Rightarrow> ('s, tournament) prog" where
  "found_event found = (case found of None \<Rightarrow> refuse 404 ''Tournament not found'' | Some t \<Rightarrow> return t)"

text \<open>The event, for an organizer of it\<close>

definition organized :: "user \<Rightarrow> string \<Rightarrow> tournament option \<Rightarrow> ('s, tournament) prog" where
  "organized usr d found = seq (found_event found) (\<lambda>t. seq (allow (is_organizer usr t) 403 d) (\<lambda>_. return t))"

definition online :: "tournament \<Rightarrow> ('s, unit) prog" where
  "online t = check (\<not> t_offline_mode t) 423 ''Tournament is in offline mode''"

text \<open>Most handlers save the row with no \<open>deleted_at\<close> of its own.\<close>

definition save_event :: "instant \<Rightarrow> tournament \<Rightarrow> (db, broadcast_data) prog" where
  "save_event now t = atomic (save_object now (OTournament t) None)"

text \<open>What follows the commit: the event as everybody may see it\<close>

definition pushed :: "instant \<Rightarrow> tournament \<times> broadcast_data \<Rightarrow> (server, tournament) prog" where
  "pushed now out = (case out of (t, bd) \<Rightarrow> seq (push_bd now bd) (\<lambda>_. return t))"

definition saved :: "instant \<Rightarrow> tournament \<Rightarrow> (db, tournament \<times> broadcast_data) prog" where
  "saved now t = (let t' = t\<lparr>modified := now\<rparr> in seq (save_event now t') (\<lambda>bd. return (t', bd)))"

section \<open>Organizers\<close>

type_synonym fingerprint = "nat \<times> data_level \<times> string list \<times> string option \<times> uid list \<Rightarrow> string"

definition event_personal :: "tournament \<Rightarrow> instant option \<Rightarrow> string \<Rightarrow> personal" where
  "event_personal t modified_at access =
     \<lparr>pn_obj_type = TOURNAMENT, pn_uid = uid t, pn_full_dict = tournament_builtins t, pn_country = t_country t,
      pn_org_uids = Some (t_organizers_uids t), pn_obj_user_uid = None, pn_modified_at = modified_at,
      pn_access_version = Some access\<rparr>"

definition invalidate_organizer_view ::
    "fingerprint \<Rightarrow> instant \<Rightarrow> tournament \<Rightarrow> uid \<Rightarrow> instant option \<Rightarrow> (server, unit) prog" where
  "invalidate_organizer_view h now t u modified_at =
     seq (on_db (gets (\<lambda>s. get_user_by_uid s u))) (\<lambda>found. case found of
        None \<Rightarrow> return ()
      | Some v \<Rightarrow>
          seq (on_db (gets (\<lambda>s. compute_access_version h s (Some v)))) (\<lambda>access.
          seq (on_sse (broadcast_personal now u (event_personal t modified_at access))) (\<lambda>_.
          seq (on_db (gets (\<lambda>s. get_decks_for_tournament s (uid t)))) (\<lambda>ds.
          on_sse (push_decks now t [u] ds modified_at (Some access))))))"

definition organizer_changed ::
    "fingerprint \<Rightarrow> instant \<Rightarrow> uid \<Rightarrow> tournament \<times> broadcast_data option \<Rightarrow> (server, tournament) prog" where
  "organizer_changed h now u out = (case out of
     (t, None) \<Rightarrow> return t
   | (t, Some bd) \<Rightarrow>
       seq (push_bd now bd) (\<lambda>_.
       seq (invalidate_organizer_view h now t u (bd_modified_at bd)) (\<lambda>_. return t)))"

definition is_member :: "user option \<Rightarrow> bool" where
  "is_member u = (case u of None \<Rightarrow> False | Some v \<Rightarrow> truthy_str (u_vekn_id v))"

definition add_organizer :: "fingerprint \<Rightarrow> instant \<Rightarrow> user \<Rightarrow> uid \<Rightarrow> uid \<Rightarrow> (server, tournament) prog" where
  "add_organizer h now usr tu u =
     seq (tournament_transaction tu (\<lambda>found.
       seq (organized usr ''Only organizers can manage organizers'' found) (\<lambda>t.
       seq (gets (\<lambda>s. get_user_by_uid s u)) (\<lambda>organizer.
       seq (check (is_member organizer) 400 ''Organizer must be a VEKN member'') (\<lambda>_.
       if u \<in> set (t_organizers_uids t) then return (t, None)
       else let t' = t\<lparr>t_organizers_uids := t_organizers_uids t @ [u], modified := now\<rparr>
         in seq (atomic (save_tournament now t')) (\<lambda>bd. return (t', Some bd))))))) (organizer_changed h now u)"

definition remove_organizer :: "fingerprint \<Rightarrow> instant \<Rightarrow> user \<Rightarrow> uid \<Rightarrow> uid \<Rightarrow> (server, tournament) prog" where
  "remove_organizer h now usr tu u =
     seq (tournament_transaction tu (\<lambda>found.
       seq (organized usr ''Only organizers can manage organizers'' found) (\<lambda>t.
       if u \<notin> set (t_organizers_uids t) then return (t, None)
       else seq (check (1 < length (t_organizers_uids t)) 400 ''Cannot remove the last organizer'') (\<lambda>_.
         let t' = t\<lparr>t_organizers_uids := remove1 u (t_organizers_uids t), modified := now\<rparr>
         in seq (atomic (save_tournament now t')) (\<lambda>bd. return (t', Some bd)))))) (organizer_changed h now u)"

section \<open>The banner\<close>

definition MAX_BANNER_SIZE :: nat where "MAX_BANNER_SIZE = 1024 * 1024"

definition banner_url :: "uid \<Rightarrow> instant \<Rightarrow> string" where
  "banner_url tu now = ''/api/tournaments/'' @ tu @ ''/banner?v='' @ int_str (epoch_micros now div 1000)"

definition upload_banner :: "instant \<Rightarrow> user \<Rightarrow> uid \<Rightarrow> string \<Rightarrow> string \<Rightarrow> (server, unit) prog" where
  "upload_banner now usr tu payload content_type =
     seq (tournament_transaction tu (\<lambda>found.
       seq (organized usr ''Only organizers can set the banner'' found) (\<lambda>t.
       seq (online t) (\<lambda>_.
       seq (check (content_type \<in> {''image/webp'', ''image/png'', ''image/jpeg''}) 400 ''Banner must be webp, png, or jpeg'') (\<lambda>_.
       seq (check (length payload \<le> MAX_BANNER_SIZE) 400
              (''Banner too large. Max size: '' @ nat_str (MAX_BANNER_SIZE div 1024) @ ''KB'')) (\<lambda>_.
       seq (modify (upsert_banner tu payload content_type)) (\<lambda>_.
       atomic (save_tournament now (t\<lparr>t_banner_path := Some (banner_url tu now), modified := now\<rparr>))))))))) (push_bd now)"

text \<open>The bytes, their type and how long they may be kept\<close>

definition get_banner_image :: "uid \<Rightarrow> string option \<Rightarrow> (server, image \<times> string) prog" where
  "get_banner_image tu v =
     seq (on_db (gets (\<lambda>s. get_banner s tu))) (\<lambda>found. case found of
        None \<Rightarrow> refuse 404 ''Banner not found''
      | Some img \<Rightarrow> return (img, if truthy_str v then ''public, max-age=31536000, immutable'' else ''public, max-age=3600''))"

definition delete_banner_image :: "instant \<Rightarrow> user \<Rightarrow> uid \<Rightarrow> (server, unit) prog" where
  "delete_banner_image now usr tu =
     seq (tournament_transaction tu (\<lambda>found.
       seq (organized usr ''Only organizers can remove the banner'' found) (\<lambda>t.
       seq (online t) (\<lambda>_.
       seq (atomic (\<lambda>s. Inr (delete_banner tu s))) (\<lambda>deleted.
       if t_banner_path t \<noteq> None
       then seq (atomic (save_tournament now (t\<lparr>t_banner_path := None, modified := now\<rparr>))) (\<lambda>bd. return (Some bd))
       else seq (check deleted 404 ''Banner not found'') (\<lambda>_. return None)))))) (\<lambda>obd. case obd of
     None \<Rightarrow> return () | Some bd \<Rightarrow> push_bd now bd)"

section \<open>The round clock\<close>

definition timed_event :: "user \<Rightarrow> tournament option \<Rightarrow> ('s, tournament) prog" where
  "timed_event usr found =
     seq (organized usr ''Organizer access required'' found) (\<lambda>t.
     seq (online t) (\<lambda>_.
     seq (check (t_state t = T_PLAYING) 400 ''Tournament is not playing'') (\<lambda>_. return t)))"

definition timer_start :: "instant \<Rightarrow> user \<Rightarrow> uid \<Rightarrow> (server, tournament) prog" where
  "timer_start now usr tu =
     seq (tournament_transaction tu (\<lambda>found.
       seq (timed_event usr found) (\<lambda>t.
       seq (check (tm_paused (t_timer t)) 400 ''Timer is already running'') (\<lambda>_.
       saved now (t\<lparr>t_timer := \<lparr>tm_started_at = Some now, tm_elapsed_before_pause = tm_elapsed_before_pause (t_timer t),
         tm_paused = False\<rparr>\<rparr>))))) (pushed now)"

definition total_seconds :: "instant \<Rightarrow> instant \<Rightarrow> rat" where
  "total_seconds from to = of_int (epoch_micros to - epoch_micros from) / 1000000"

definition paused_timer :: "instant \<Rightarrow> timer_state \<Rightarrow> timer_state" where
  "paused_timer now x = \<lparr>tm_started_at = None,
     tm_elapsed_before_pause = tm_elapsed_before_pause x
       + (case tm_started_at x of None \<Rightarrow> 0 | Some started \<Rightarrow> total_seconds started now),
     tm_paused = True\<rparr>"

definition timer_pause :: "instant \<Rightarrow> user \<Rightarrow> uid \<Rightarrow> (server, tournament) prog" where
  "timer_pause now usr tu =
     seq (tournament_transaction tu (\<lambda>found.
       seq (timed_event usr found) (\<lambda>t.
       seq (check (\<not> tm_paused (t_timer t)) 400 ''Timer is already paused'') (\<lambda>_.
       saved now (t\<lparr>t_timer := paused_timer now (t_timer t)\<rparr>))))) (pushed now)"

definition timer_reset :: "instant \<Rightarrow> user \<Rightarrow> uid \<Rightarrow> (server, tournament) prog" where
  "timer_reset now usr tu =
     seq (tournament_transaction tu (\<lambda>found.
       seq (timed_event usr found) (\<lambda>t.
       saved now (t\<lparr>t_timer := new_timer_state, t_table_extra_time := []\<rparr>)))) (pushed now)"

definition MAX_EXTRA_TIME :: int where "MAX_EXTRA_TIME = 1800"

definition timer_add_time :: "instant \<Rightarrow> user \<Rightarrow> uid \<Rightarrow> string \<Rightarrow> int \<Rightarrow> (server, tournament) prog" where
  "timer_add_time now usr tu tbl seconds =
     seq (tournament_transaction tu (\<lambda>found.
       seq (timed_event usr found) (\<lambda>t.
       seq (check (0 < seconds) 400 ''Seconds must be positive'') (\<lambda>_.
       let extra = (case map_of (t_table_extra_time t) tbl of None \<Rightarrow> 0 | Some n \<Rightarrow> n) + seconds
       in seq (check (extra \<le> MAX_EXTRA_TIME) 400 ''Max 1800s (30 min) extra time per table'') (\<lambda>_.
          saved now (t\<lparr>t_table_extra_time := put tbl extra (t_table_extra_time t)\<rparr>)))))) (pushed now)"

section \<open>Announcements\<close>

definition MAX_ANNOUNCEMENTS :: nat where "MAX_ANNOUNCEMENTS = 20"
definition MAX_ANNOUNCEMENT_LEN :: nat where "MAX_ANNOUNCEMENT_LEN = 280"

definition announced_event :: "user \<Rightarrow> tournament option \<Rightarrow> ('s, tournament) prog" where
  "announced_event usr found =
     seq (organized usr ''Organizer access required'' found) (\<lambda>t. seq (online t) (\<lambda>_. return t))"

text \<open>\<open>xs[-n:]\<close>\<close>

definition last_n :: "nat \<Rightarrow> 'a list \<Rightarrow> 'a list" where
  "last_n n xs = drop (length xs - n) xs"

definition post_announcement :: "instant \<Rightarrow> string \<Rightarrow> user \<Rightarrow> uid \<Rightarrow> string \<Rightarrow> (server, tournament) prog" where
  "post_announcement now k usr tu text =
     (let body = strip text
      in seq (check (body \<noteq> []) 400 ''Announcement is empty'') (\<lambda>_.
         seq (check (length body \<le> MAX_ANNOUNCEMENT_LEN) 400 (''Max '' @ nat_str MAX_ANNOUNCEMENT_LEN @ '' characters'')) (\<lambda>_.
         seq (tournament_transaction tu (\<lambda>found.
           seq (announced_event usr found) (\<lambda>t.
           saved now (t\<lparr>t_announcements := last_n MAX_ANNOUNCEMENTS (t_announcements t @
             [\<lparr>an_id = k, an_body = body, an_created_at = now, an_author_uid = uid usr, an_author_name = u_name usr\<rparr>])\<rparr>)))) (pushed now))))"

definition delete_announcement :: "instant \<Rightarrow> user \<Rightarrow> uid \<Rightarrow> string \<Rightarrow> (server, tournament) prog" where
  "delete_announcement now usr tu k =
     seq (tournament_transaction tu (\<lambda>found.
       seq (announced_event usr found) (\<lambda>t.
       let kept = filter (\<lambda>a. an_id a \<noteq> k) (t_announcements t)
       in seq (check (length kept \<noteq> length (t_announcements t)) 404 ''Announcement not found'') (\<lambda>_.
          saved now (t\<lparr>t_announcements := kept\<rparr>))))) (pushed now)"

section \<open>Calling a judge\<close>

text \<open>The sign on a table (the engine's \<open>table_label\<close>): the room it stands in and its number\<close>

fun room_label :: "bool \<Rightarrow> nat \<Rightarrow> nat \<Rightarrow> nat \<Rightarrow> room list \<Rightarrow> string option" where
  "room_label continuing number i offset [] = None"
| "room_label continuing number i offset (r # rs) =
     (let count = nat (room_count r)
      in if i < offset + count
         then Some (if count = 1 then room_name r
              else if continuing then room_name r @ '' '' @ nat_str number
              else room_name r @ '' '' @ nat_str (i - offset + 1))
         else room_label continuing number i (offset + count) rs)"

definition table_label :: "tournament \<Rightarrow> nat \<Rightarrow> string option \<times> nat" where
  "table_label t i =
     (let number = (case as_usize (Some (t_first_table_number t)) of None \<Rightarrow> 1 | Some n \<Rightarrow> n) + i
      in (room_label (t_continue_room_numbering t) number i 0 (t_table_rooms t), number))"

definition call_judge :: "user \<Rightarrow> uid \<Rightarrow> int \<Rightarrow> (server, unit) prog" where
  "call_judge usr tu i =
     seq (on_db (gets (\<lambda>s. get_tournament_by_uid s tu))) (\<lambda>found.
     seq (found_event found) (\<lambda>t.
     seq (check (t_state t = T_PLAYING) 400 ''Tournament is not playing'') (\<lambda>_.
     seq (online t) (\<lambda>_.
     seq (check (t_rounds t \<noteq> []) 400 ''No active round'') (\<lambda>_.
     let tables = last (t_rounds t)
     in seq (check (0 \<le> i \<and> i < int (length tables)) 400 ''Invalid table index'') (\<lambda>_.
        seq (check (list_ex (\<lambda>x. seat_player_uid x = uid usr) (tb_seating (tables ! nat i))) 403
               ''You are not seated at this table'') (\<lambda>_.
        let (label, number) = table_label t (nat i)
        in modify (\<lambda>(s, c). (s, broadcast_judge_call (uid t) i label (int number) (u_name usr)
             (Some (t_organizers_uids t)) c)))))))))"

section \<open>Decks of the rounds being played\<close>

text \<open>\<open>stamped\<close> is a dictionary: the last deck of a player and round wins.\<close>

definition stamped_deck :: "deck list \<Rightarrow> uid \<Rightarrow> int option \<Rightarrow> deck option" where
  "stamped_deck ds u r = find (\<lambda>d. d_user_uid d = u \<and> d_round d = r) (rev ds)"

definition table_decks :: "bool \<Rightarrow> deck list \<Rightarrow> nat \<Rightarrow> seat list \<Rightarrow> deck list" where
  "table_decks multi ds i seating =
     List.map_filter (\<lambda>x. stamped_deck ds (seat_player_uid x) (if multi then Some (int i) else None)) seating"

definition round_slots :: "tournament \<Rightarrow> (nat \<times> (table_state \<times> seat list) list) list" where
  "round_slots t = enumerate 0 (map (map (\<lambda>tb. (tb_state tb, tb_seating tb))) (t_rounds t))
     @ (case t_finals t of None \<Rightarrow> [] | Some f \<Rightarrow> [(length (t_rounds t), [(tb_state f, tb_seating f)])])"

definition round_decks :: "tournament \<Rightarrow> deck list \<Rightarrow> (nat \<times> deck list) list" where
  "round_decks t ds = List.map_filter (\<lambda>(i, tables).
     let live = filter (\<lambda>(st, _). st = TS_IN_PROGRESS) tables
     in if live = [] then None
        else Some (i, concat (map (\<lambda>(_, seating). table_decks (t_multideck t) ds i seating) live))) (round_slots t)"

definition get_round_decks :: "user \<Rightarrow> uid \<Rightarrow> (server, (nat \<times> deck list) list) prog" where
  "get_round_decks usr tu =
     seq (on_db (gets (\<lambda>s. get_tournament_by_uid s tu))) (\<lambda>found.
     seq (found_event found) (\<lambda>t.
     seq (check (entitled_level (Some usr) TOURNAMENT (uid t) (t_country t) (Some (t_organizers_uids t)) None = LV_FULL) 403
            (''Only the event'' @ [CHR 0x27] @ ''s officials can read its decks'')) (\<lambda>_.
     on_db (gets (\<lambda>s. round_decks t (get_decks_for_tournament s tu))))))"

section \<open>The offline lock\<close>

definition locked_by :: "instant \<Rightarrow> user \<Rightarrow> string \<Rightarrow> tournament \<Rightarrow> tournament" where
  "locked_by now usr device t = t\<lparr>t_offline_mode := True, t_offline_device_id := device, t_offline_user_uid := uid usr,
     t_offline_since := Some now\<rparr>"

definition unlocked :: "tournament \<Rightarrow> tournament" where
  "unlocked t = t\<lparr>t_offline_mode := False, t_offline_device_id := [], t_offline_user_uid := [], t_offline_since := None\<rparr>"

definition go_offline :: "instant \<Rightarrow> user \<Rightarrow> uid \<Rightarrow> string \<Rightarrow> (server, tournament) prog" where
  "go_offline now usr tu device =
     seq (tournament_transaction tu (\<lambda>found.
       seq (found_event found) (\<lambda>t.
       seq (check (can_take_tournament_offline usr t) 403
              (''You don'' @ [CHR 0x27] @ ''t have permission to take this tournament offline'')) (\<lambda>_.
       seq (check (\<not> t_offline_mode t) 409 ''Tournament is already in offline mode'') (\<lambda>_.
       saved now (locked_by now usr device t)))))) (pushed now)"

definition force_takeover :: "instant \<Rightarrow> user \<Rightarrow> uid \<Rightarrow> string \<Rightarrow> (server, tournament) prog" where
  "force_takeover now usr tu device =
     seq (tournament_transaction tu (\<lambda>found.
       seq (found_event found) (\<lambda>t.
       seq (check (can_take_tournament_offline usr t) 403
              (''You don'' @ [CHR 0x27] @ ''t have permission to force-takeover this tournament'')) (\<lambda>_.
       seq (check (t_offline_mode t) 400 ''Tournament is not in offline mode'') (\<lambda>_.
       saved now (t\<lparr>t_offline_device_id := device, t_offline_user_uid := uid usr\<rparr>)))))) (pushed now)"

definition force_unlock :: "instant \<Rightarrow> user \<Rightarrow> request_state \<Rightarrow> uid \<Rightarrow> (server, tournament) prog" where
  "force_unlock now usr st tu =
     seq (check (\<not> truthy_str (rs_client_id st)) 403 ''OAuth tokens cannot force-unlock tournaments'') (\<lambda>_.
     seq (allow (can_force_unlock_tournament usr) 403 ''Only IC can force-unlock tournaments'') (\<lambda>_.
     seq (tournament_transaction tu (\<lambda>found.
       seq (found_event found) (\<lambda>t.
       seq (check (t_offline_mode t) 400 ''Tournament is not in offline mode'') (\<lambda>_.
       saved now (unlocked t))))) (pushed now)))"

section \<open>Deleting an event\<close>

definition pushed_to_vekn :: "tournament \<Rightarrow> bool" where
  "pushed_to_vekn t \<longleftrightarrow> truthy_str (map_of (t_external_ids t) ''vekn'') \<or> t_vekn_pushed_at t \<noteq> None"

definition event_players :: "tournament \<Rightarrow> uid list" where
  "event_players t = remdups (List.map_filter (\<lambda>p. if truthy_str (pl_user_uid p) then pl_user_uid p else None) (t_players t))"

text \<open>The promos whose stock is to be derived again; the recomputation runs in the background.\<close>

definition promo_recompute_diff :: "tournament option \<Rightarrow> tournament option \<Rightarrow> uid list" where
  "promo_recompute_diff old new = remdups (concat (map (\<lambda>t. map pd_promo_uid (t_promos_distributed t))
     (List.map_filter id [old, new])))"

definition push_results :: "instant \<Rightarrow> uid list \<Rightarrow> rating_category \<Rightarrow> (server, unit) prog" where
  "push_results now us cat =
     seq (on_db (recompute_ratings_for_players now us cat)) (\<lambda>rated.
     seq (push_all now (map snd rated)) (\<lambda>_.
     seq (on_db (recompute_wins now (Some us))) (\<lambda>wins. push_all now (map snd wins))))"

definition delete_tournament_endpoint :: "instant \<Rightarrow> user \<Rightarrow> uid \<Rightarrow> (server, uid list) prog" where
  "delete_tournament_endpoint now usr tu =
     seq (on_db (gets (\<lambda>s. get_tournament_by_uid s tu))) (\<lambda>found.
     seq (organized usr ''Only organizers can delete this tournament'' found) (\<lambda>t.
     seq (check (\<not> t_offline_mode t) 400 ''Cannot delete a tournament locked for offline use; unlock it first'') (\<lambda>_.
     seq (check (\<not> (pushed_to_vekn t \<and> t_vekn_event_absent_at t = None)) 400
            ''Cannot delete a tournament that has been pushed to VEKN'') (\<lambda>_.
     seq (on_db (soft_delete_tournament now tu)) (\<lambda>out.
     seq (push_all now (case out of None \<Rightarrow> [] | Some (_, bds) \<Rightarrow> bds)) (\<lambda>_.
     seq (if t_state t = T_FINISHED
          then swallow (push_results now (event_players t) (rating_category_for_tournament t))
          else return ()) (\<lambda>_.
     return (promo_recompute_diff (Some t) None))))))))"

section \<open>The requests of the desk\<close>

datatype desk_request =
    AddOrganizer uid
  | RemoveOrganizer uid
  | UploadBanner string string
  | DeleteBanner
  | TimerStart
  | TimerPause
  | TimerReset
  | AddTime string int
  | Announce string string
  | Withdraw string
  | CallJudge int
  | GoOffline string
  | ForceTakeover string
  | ForceUnlock
  | DeleteEvent

definition quiet :: "('s, 'a) prog \<Rightarrow> ('s, unit) prog" where
  "quiet m = seq m (\<lambda>_. return ())"

fun desk_handler ::
    "fingerprint \<Rightarrow> instant \<Rightarrow> user \<Rightarrow> request_state \<Rightarrow> uid \<Rightarrow> desk_request \<Rightarrow> (server, unit) prog" where
  "desk_handler h now usr st tu (AddOrganizer u) = quiet (add_organizer h now usr tu u)"
| "desk_handler h now usr st tu (RemoveOrganizer u) = quiet (remove_organizer h now usr tu u)"
| "desk_handler h now usr st tu (UploadBanner payload ty) = upload_banner now usr tu payload ty"
| "desk_handler h now usr st tu DeleteBanner = delete_banner_image now usr tu"
| "desk_handler h now usr st tu TimerStart = quiet (timer_start now usr tu)"
| "desk_handler h now usr st tu TimerPause = quiet (timer_pause now usr tu)"
| "desk_handler h now usr st tu TimerReset = quiet (timer_reset now usr tu)"
| "desk_handler h now usr st tu (AddTime tbl n) = quiet (timer_add_time now usr tu tbl n)"
| "desk_handler h now usr st tu (Announce k body) = quiet (post_announcement now k usr tu body)"
| "desk_handler h now usr st tu (Withdraw k) = quiet (delete_announcement now usr tu k)"
| "desk_handler h now usr st tu (CallJudge i) = call_judge usr tu i"
| "desk_handler h now usr st tu (GoOffline device) = quiet (go_offline now usr tu device)"
| "desk_handler h now usr st tu (ForceTakeover device) = quiet (force_takeover now usr tu device)"
| "desk_handler h now usr st tu ForceUnlock = quiet (force_unlock now usr st tu)"
| "desk_handler h now usr st tu DeleteEvent = quiet (delete_tournament_endpoint now usr tu)"

text \<open>A request, by whom and when, on the event its path names\<close>

record desk_call =
  dc_now :: instant
  dc_http :: http_request
  dc_event :: uid
  dc_request :: desk_request

definition desk_call :: "auth_config \<Rightarrow> fingerprint \<Rightarrow> desk_call \<Rightarrow> (app, unit) prog" where
  "desk_call cfg h c = seq (require_user cfg (dc_now c) (dc_http c)) (\<lambda>(usr, st).
     on_server (desk_handler h (dc_now c) usr st (dc_event c) (dc_request c)))"

definition desk_run :: "auth_config \<Rightarrow> fingerprint \<Rightarrow> desk_call list \<Rightarrow> app \<Rightarrow> app" where
  "desk_run cfg h calls = fold (\<lambda>c a. snd (desk_call cfg h c a)) calls"

end
