(* ===== verification/Event_Desk_Laws.thy ===== *)
theory Event_Desk_Laws
  imports Event_Desk Sanctions_Laws
begin

text \<open>
  The desk of an event as a state machine: which edit of the event each request may make, the proof
  that the handlers make no other, and what follows for every run of requests: the clock, the
  announcements and the organizers keep their bounds, and an event that is locked for offline use
  stays as the device that holds it left it.
\<close>

section \<open>The machine\<close>

text \<open>One request of the member \<open>usr\<close> on one event; a refused request leaves it as it is.\<close>

inductive desk_edit :: "user \<Rightarrow> request_state \<Rightarrow> instant \<Rightarrow> desk_request \<Rightarrow> tournament \<Rightarrow> tournament \<Rightarrow> bool"
  for usr st now where
  Idle: "desk_edit usr st now req t t"
| Added: "is_organizer usr t = Inr True \<Longrightarrow>
    desk_edit usr st now (AddOrganizer u) t (t\<lparr>t_organizers_uids := t_organizers_uids t @ [u], modified := now\<rparr>)"
| Removed: "is_organizer usr t = Inr True \<Longrightarrow> 1 < length (t_organizers_uids t) \<Longrightarrow> u \<in> set (t_organizers_uids t) \<Longrightarrow>
    desk_edit usr st now (RemoveOrganizer u) t (t\<lparr>t_organizers_uids := remove1 u (t_organizers_uids t), modified := now\<rparr>)"
| Shown: "is_organizer usr t = Inr True \<Longrightarrow> \<not> t_offline_mode t \<Longrightarrow> length payload \<le> MAX_BANNER_SIZE \<Longrightarrow>
    ty \<in> {''image/webp'', ''image/png'', ''image/jpeg''} \<Longrightarrow>
    desk_edit usr st now (UploadBanner payload ty) t (t\<lparr>t_banner_path := Some (banner_url (uid t) now), modified := now\<rparr>)"
| Hidden: "is_organizer usr t = Inr True \<Longrightarrow> \<not> t_offline_mode t \<Longrightarrow>
    desk_edit usr st now DeleteBanner t (t\<lparr>t_banner_path := None, modified := now\<rparr>)"
| Started: "is_organizer usr t = Inr True \<Longrightarrow> \<not> t_offline_mode t \<Longrightarrow> t_state t = T_PLAYING \<Longrightarrow> tm_paused (t_timer t) \<Longrightarrow>
    desk_edit usr st now TimerStart t (t\<lparr>t_timer := \<lparr>tm_started_at = Some now,
      tm_elapsed_before_pause = tm_elapsed_before_pause (t_timer t), tm_paused = False\<rparr>, modified := now\<rparr>)"
| Paused: "is_organizer usr t = Inr True \<Longrightarrow> \<not> t_offline_mode t \<Longrightarrow> t_state t = T_PLAYING \<Longrightarrow> \<not> tm_paused (t_timer t) \<Longrightarrow>
    desk_edit usr st now TimerPause t (t\<lparr>t_timer := paused_timer now (t_timer t), modified := now\<rparr>)"
| Reset: "is_organizer usr t = Inr True \<Longrightarrow> \<not> t_offline_mode t \<Longrightarrow> t_state t = T_PLAYING \<Longrightarrow>
    desk_edit usr st now TimerReset t (t\<lparr>t_timer := new_timer_state, t_table_extra_time := [], modified := now\<rparr>)"
| Extended: "is_organizer usr t = Inr True \<Longrightarrow> \<not> t_offline_mode t \<Longrightarrow> t_state t = T_PLAYING \<Longrightarrow> 0 < n \<Longrightarrow>
    extra = (case map_of (t_table_extra_time t) tbl of None \<Rightarrow> 0 | Some m \<Rightarrow> m) + n \<Longrightarrow> extra \<le> MAX_EXTRA_TIME \<Longrightarrow>
    desk_edit usr st now (AddTime tbl n) t (t\<lparr>t_table_extra_time := put tbl extra (t_table_extra_time t), modified := now\<rparr>)"
| Announced: "is_organizer usr t = Inr True \<Longrightarrow> \<not> t_offline_mode t \<Longrightarrow> strip body \<noteq> [] \<Longrightarrow> length (strip body) \<le> MAX_ANNOUNCEMENT_LEN \<Longrightarrow>
    desk_edit usr st now (Announce k body) t (t\<lparr>t_announcements := last_n MAX_ANNOUNCEMENTS (t_announcements t
      @ [\<lparr>an_id = k, an_body = strip body, an_created_at = now, an_author_uid = uid usr, an_author_name = u_name usr\<rparr>]), modified := now\<rparr>)"
| Withdrawn: "is_organizer usr t = Inr True \<Longrightarrow> \<not> t_offline_mode t \<Longrightarrow>
    desk_edit usr st now (Withdraw k) t (t\<lparr>t_announcements := filter (\<lambda>a. an_id a \<noteq> k) (t_announcements t), modified := now\<rparr>)"
| Locked: "can_take_tournament_offline usr t \<Longrightarrow> \<not> t_offline_mode t \<Longrightarrow>
    desk_edit usr st now (GoOffline device) t ((locked_by now usr device t)\<lparr>modified := now\<rparr>)"
| TakenOver: "can_take_tournament_offline usr t \<Longrightarrow> t_offline_mode t \<Longrightarrow>
    desk_edit usr st now (ForceTakeover device) t (t\<lparr>t_offline_device_id := device, t_offline_user_uid := uid usr, modified := now\<rparr>)"
| Unlocked: "\<not> truthy_str (rs_client_id st) \<Longrightarrow> can_force_unlock_tournament usr = Inr True \<Longrightarrow> t_offline_mode t \<Longrightarrow>
    desk_edit usr st now ForceUnlock t ((unlocked t)\<lparr>modified := now\<rparr>)"
| Buried: "is_organizer usr t = Inr True \<Longrightarrow> \<not> t_offline_mode t \<Longrightarrow> pushed_to_vekn t \<longrightarrow> t_vekn_event_absent_at t \<noteq> None \<Longrightarrow>
    desk_edit usr st now DeleteEvent t (t\<lparr>deleted_at := Some now, modified := now\<rparr>)"

text \<open>What a handler may make of the table: the events, one by one\<close>

definition edits :: "(tournament \<Rightarrow> tournament \<Rightarrow> bool) \<Rightarrow> uid \<Rightarrow> db \<Rightarrow> db \<Rightarrow> bool" where
  "edits R tu s s' \<longleftrightarrow> rows_ok s' \<and> (\<forall>u. u \<noteq> tu \<longrightarrow> get_tournament_by_uid s' u = get_tournament_by_uid s u)
     \<and> rel_option R (get_tournament_by_uid s tu) (get_tournament_by_uid s' tu)"

lemma edits_refl: "rows_ok s \<Longrightarrow> (\<And>t. R t t) \<Longrightarrow> edits R tu s s"
  by (simp add: edits_def option.rel_refl)

lemma get_tournament_iff: "get_tournament_by_uid s u = Some t \<longleftrightarrow> read_object s u = Some (OTournament t)"
  by (auto simp: get_tournament_by_uid_def get_object_full_read as_tournament_Some split: Option.bind_splits)

lemma tournament_keyed: "rows_ok s \<Longrightarrow> get_tournament_by_uid s u = Some t \<Longrightarrow> uid t = u"
  using stored_object(1) [of s u "OTournament t"] by (simp add: get_tournament_iff)

lemma edits_saved:
  assumes "rows_ok s" and "get_tournament_by_uid s tu = Some t" and "save_object now (OTournament t') d s = Inr (bd, s')"
    and "uid t' = uid t" and "R t t'"
  shows "edits R tu s s'"
proof -
  have "uid t = tu" by (rule tournament_keyed [OF assms(1,2)])
  then show ?thesis
    using get_after_save [OF assms(3), of as_tournament] save_object_rows_ok [OF assms(1,3)] assms(2,4,5)
    by (simp add: edits_def get_tournament_by_uid_def)
qed

section \<open>Guards\<close>

lemma wp_allow [wp_simps]: "wp (allow r n d) Q E s = (case r of Inl e \<Rightarrow> E e s | Inr b \<Rightarrow> if b then Q () s else E (HTTPException n d) s)"
  by (auto simp: allow_def wp_simps split: sum.split)

lemma wp_organized [wp_simps]:
  "wp (organized usr d found) Q E s = (case found of None \<Rightarrow> E (HTTPException 404 ''Tournament not found'') s
     | Some t \<Rightarrow> if is_organizer usr t = Inr True then Q t s else E (HTTPException 403 d) s)"
  by (auto simp: organized_def found_event_def wp_simps is_organizer_iff split: option.split)

lemma wp_found_event [wp_simps]:
  "wp (found_event found) Q E s = (case found of None \<Rightarrow> E (HTTPException 404 ''Tournament not found'') s | Some t \<Rightarrow> Q t s)"
  by (auto simp: found_event_def wp_simps split: option.split)

lemma wp_online [wp_simps]: "wp (online t) Q E s = (if t_offline_mode t then E (HTTPException 423 ''Tournament is in offline mode'') s else Q () s)"
  by (simp add: online_def wp_simps)

lemma wp_timed_event [wp_simps]:
  "wp (timed_event usr (Some t)) Q E s = (if is_organizer usr t \<noteq> Inr True then E (HTTPException 403 ''Organizer access required'') s
     else if t_offline_mode t then E (HTTPException 423 ''Tournament is in offline mode'') s
     else if t_state t \<noteq> T_PLAYING then E (HTTPException 400 ''Tournament is not playing'') s else Q t s)"
  "wp (timed_event usr None) Q E s = E (HTTPException 404 ''Tournament not found'') s"
  by (simp_all add: timed_event_def wp_simps)

lemma wp_announced_event [wp_simps]:
  "wp (announced_event usr (Some t)) Q E s = (if is_organizer usr t \<noteq> Inr True then E (HTTPException 403 ''Organizer access required'') s
     else if t_offline_mode t then E (HTTPException 423 ''Tournament is in offline mode'') s else Q t s)"
  "wp (announced_event usr None) Q E s = E (HTTPException 404 ''Tournament not found'') s"
  by (simp_all add: announced_event_def wp_simps)

lemma wp_saved:
  assumes "rows_ok s" and "get_tournament_by_uid s tu = Some t" and "uid t' = uid t" and "R t (t'\<lparr>modified := now\<rparr>)"
  shows "wp (saved now t') (\<lambda>_. edits R tu s) (\<lambda>_ _. True) s"
proof -
  have "edits R tu s s'" if "save_object now (OTournament (t'\<lparr>modified := now\<rparr>)) None s = Inr (bd, s')" for bd s'
    using edits_saved [where R = R, OF assms(1,2) that _ assms(4)] assms(3) by simp
  then show ?thesis by (auto simp: saved_def save_event_def wp_simps Let_def split: sum.split)
qed

text \<open>A transaction edits the event it locks, or nothing.\<close>

lemma wp_event_transaction:
  assumes "rows_ok (fst srv)" and "\<And>t. R t t"
    and "wp (f None) (\<lambda>_ _. False) (\<lambda>_ _. True) (fst srv)"
    and "\<And>t. get_tournament_by_uid (fst srv) tu = Some t \<Longrightarrow> wp (f (Some t)) (\<lambda>_. edits R tu (fst srv)) (\<lambda>_ _. True) (fst srv)"
  shows "wp (tournament_transaction tu f) (\<lambda>_ srv'. edits R tu (fst srv) (fst srv')) (\<lambda>_ srv'. edits R tu (fst srv) (fst srv')) srv"
proof -
  have "wp (f (get_tournament_by_uid (fst srv) tu)) (\<lambda>_. edits R tu (fst srv)) (\<lambda>_ _. True) (fst srv)"
    using assms(3,4) by (cases "get_tournament_by_uid (fst srv) tu") (auto intro: wp_mono)
  then show ?thesis
    unfolding tournament_transaction_def wp_on_db
    by (intro wp_transaction) (auto simp: wp_simps edits_refl assms(1,2) elim!: wp_mono)
qed

lemma wp_event_op:
  assumes "rows_ok (fst srv)" and "\<And>t. R t t"
    and "wp (f None) (\<lambda>_ _. False) (\<lambda>_ _. True) (fst srv)"
    and "\<And>t. get_tournament_by_uid (fst srv) tu = Some t \<Longrightarrow> wp (f (Some t)) (\<lambda>_. edits R tu (fst srv)) (\<lambda>_ _. True) (fst srv)"
    and "\<And>x srv'. edits R tu (fst srv) (fst srv') \<Longrightarrow> wp (g x) (\<lambda>_ out. edits R tu (fst srv) (fst out)) (\<lambda>_ out. edits R tu (fst srv) (fst out)) srv'"
  shows "wp (seq (tournament_transaction tu f) g) (\<lambda>_ srv'. edits R tu (fst srv) (fst srv'))
    (\<lambda>_ srv'. edits R tu (fst srv) (fst srv')) srv"
  unfolding wp_seq by (rule wp_mono [OF wp_event_transaction [OF assms(1-4)]]) (simp_all add: assms(5))

lemma wp_quiet [wp_simps]: "wp (quiet m) Q E s = wp m (\<lambda>_. Q ()) E s"
  by (auto simp: wp_def quiet_def seq_def split: prod.splits sum.splits)

lemma wp_event_pushed [wp_simps]: "wp (pushed now out) Q E srv = Q (fst out) (fst srv, broadcast_precomputed now (snd out) None (snd srv))"
  by (cases out) (simp add: pushed_def wp_simps)

lemma wp_on_sse_any: "(\<And>x c. Q x (fst srv, c)) \<Longrightarrow> (\<And>e c. E e (fst srv, c)) \<Longrightarrow> wp (on_sse m) Q E srv"
  by (auto simp: wp_def on_sse_def split: prod.split sum.split)

lemma wp_organizer_changed:
  assumes "\<And>x c. Q x (fst srv, c)" and "\<And>e c. E e (fst srv, c)"
  shows "wp (organizer_changed h now u out) Q E srv"
  using assms assms(1) [of _ "snd srv"]
  by (auto simp: organizer_changed_def invalidate_organizer_view_def wp_simps split: prod.split option.split
      intro!: wp_on_sse_any)

section \<open>The handlers make no other edit\<close>

lemma edits_objects: "db_objects s1 = db_objects s \<Longrightarrow> edits R tu s1 s' = edits R tu s s'"
  by (simp add: edits_def get_tournament_by_uid_def get_object_full_def)

lemma rows_ok_objects: "db_objects s1 = db_objects s \<Longrightarrow> rows_ok s1 = rows_ok s"
  by (simp add: rows_ok_def index_of_def [abs_def])

lemma wp_save_tournament:
  assumes "rows_ok s1" and "db_objects s1 = db_objects s" and "get_tournament_by_uid s tu = Some t" and "uid t' = uid t" and "R t t'"
    and "\<And>bd s'. edits R tu s s' \<Longrightarrow> Q bd s'" and "\<And>e. E e s1"
  shows "wp (atomic (save_tournament now t')) Q E s1"
proof -
  have "get_tournament_by_uid s1 tu = Some t" using assms(2,3) by (simp add: get_tournament_by_uid_def get_object_full_def)
  then have "edits R tu s s'" if "save_object now (OTournament t') d s1 = Inr (bd, s')" for d bd s'
    using edits_saved [where R = R, OF assms(1) _ that assms(4,5)] edits_objects [OF assms(2)] by simp
  then show ?thesis
    using assms(6,7) by (auto simp: save_tournament_def save_object_from_model_def wp_simps split: sum.split)
qed

definition desk_spec :: "user \<Rightarrow> request_state \<Rightarrow> instant \<Rightarrow> uid \<Rightarrow> desk_request \<Rightarrow> (server, 'a) prog \<Rightarrow> bool" where
  "desk_spec usr st now tu req m \<longleftrightarrow> (\<forall>srv. rows_ok (fst srv) \<longrightarrow>
     wp m (\<lambda>_ out. edits (desk_edit usr st now req) tu (fst srv) (fst out))
       (\<lambda>_ out. edits (desk_edit usr st now req) tu (fst srv) (fst out)) srv)"

lemma desk_spec_op:
  assumes "\<And>s. rows_ok s \<Longrightarrow> wp (f None) (\<lambda>_ _. False) (\<lambda>_ _. True) s"
    and "\<And>s t. rows_ok s \<Longrightarrow> get_tournament_by_uid s tu = Some t \<Longrightarrow>
      wp (f (Some t)) (\<lambda>_. edits (desk_edit usr st now req) tu s) (\<lambda>_ _. True) s"
    and "\<And>x srv Q E. (\<And>x c. Q x (fst srv, c)) \<Longrightarrow> (\<And>e c. E e (fst srv, c)) \<Longrightarrow> wp (g x) Q E srv"
  shows "desk_spec usr st now tu req (seq (tournament_transaction tu f) g)"
  unfolding desk_spec_def
  by (intro allI impI wp_event_op) (auto simp: assms(1,2) Idle intro!: assms(3))

lemma wp_event_pushed_any: "(\<And>x c. Q x (fst srv, c)) \<Longrightarrow> (\<And>e c. E e (fst srv, c)) \<Longrightarrow> wp (pushed now x) Q E srv"
  by (simp add: wp_simps)

lemma wp_push_bd_any: "(\<And>x c. Q x (fst srv, c)) \<Longrightarrow> (\<And>e c. E e (fst srv, c)) \<Longrightarrow> wp (push_bd now x) Q E srv"
  by (simp add: wp_simps)

lemma Same: "R = desk_edit usr st now req \<Longrightarrow> rows_ok s \<Longrightarrow> edits R tu s s"
  by (simp add: edits_refl Idle)

lemma wp_save_edit:
  assumes "rows_ok s" and "get_tournament_by_uid s tu = Some t" and "uid t' = uid t" and "desk_edit usr st now req t t'"
    and "\<And>bd s'. edits (desk_edit usr st now req) tu s s' \<Longrightarrow> Q bd s'" and "\<And>e. E e s1"
    and "db_objects s1 = db_objects s"
  shows "wp (atomic (save_tournament now t')) Q E s1"
  by (rule wp_save_tournament [where R = "desk_edit usr st now req" and s = s and tu = tu]) (use assms rows_ok_objects [of s1 s] in simp_all)

lemma wp_saved_edit:
  assumes "rows_ok s" and "get_tournament_by_uid s tu = Some t" and "uid t' = uid t"
    and "desk_edit usr st now req t (t'\<lparr>modified := now\<rparr>)"
  shows "wp (saved now t') (\<lambda>_. edits (desk_edit usr st now req) tu s) (\<lambda>_ _. True) s"
  by (rule wp_saved) (use assms in simp_all)

lemma desk_add_organizer: "desk_spec usr st now tu (AddOrganizer u) (add_organizer h now usr tu u)"
  unfolding add_organizer_def
  by (rule desk_spec_op) (auto simp: wp_simps Let_def Same Added simp del: wp_atomic
      intro!: wp_organizer_changed elim!: wp_save_edit [rotated])

lemma desk_remove_organizer: "desk_spec usr st now tu (RemoveOrganizer u) (remove_organizer h now usr tu u)"
  unfolding remove_organizer_def
  by (rule desk_spec_op) (auto simp: wp_simps Let_def Same Removed simp del: wp_atomic
      intro!: wp_organizer_changed wp_save_edit [where req = "RemoveOrganizer u" and usr = usr and st = st])

lemma desk_upload_banner: "desk_spec usr st now tu (UploadBanner payload ty) (upload_banner now usr tu payload ty)"
  unfolding upload_banner_def
  by (rule desk_spec_op) (auto simp: wp_simps Let_def Same upsert_banner_def Shown simp del: wp_atomic dest: tournament_keyed
      intro!: wp_push_bd_any wp_save_edit [where req = "UploadBanner payload ty" and usr = usr and st = st])

lemma wp_atomic_total [simp]: "wp (atomic (\<lambda>s. Inr (f s))) Q E s = (case f s of (x, s') \<Rightarrow> Q x s')"
  by (simp add: wp_atomic)

lemma lock_uid [simp]: "uid (locked_by now usr device t) = uid t" "uid (unlocked t) = uid t"
  by (simp_all add: locked_by_def unlocked_def)

lemma edits_banners: "rows_ok s \<Longrightarrow> edits (desk_edit usr st now req) tu s (s\<lparr>db_banners := b\<rparr>)"
  using edits_objects [of s "s\<lparr>db_banners := b\<rparr>"] Same rows_ok_objects [of "s\<lparr>db_banners := b\<rparr>" s] by simp

lemma desk_delete_banner: "desk_spec usr st now tu DeleteBanner (delete_banner_image now usr tu)"
  unfolding delete_banner_image_def
  by (rule desk_spec_op) (auto simp: wp_simps Hidden delete_banner_def edits_banners simp del: wp_atomic
      split: option.split intro!: wp_push_bd_any wp_save_edit [where req = DeleteBanner and usr = usr and st = st])

lemma desk_timers:
  "desk_spec usr st now tu TimerStart (timer_start now usr tu)"
  "desk_spec usr st now tu TimerPause (timer_pause now usr tu)"
  "desk_spec usr st now tu TimerReset (timer_reset now usr tu)"
  unfolding timer_start_def timer_pause_def timer_reset_def
  by (rule desk_spec_op; auto simp: wp_simps Started Paused Reset simp del: wp_atomic intro!: wp_event_pushed_any wp_saved_edit)+

lemma desk_add_time: "desk_spec usr st now tu (AddTime tbl n) (timer_add_time now usr tu tbl n)"
  unfolding timer_add_time_def
  by (rule desk_spec_op; auto simp: wp_simps Let_def simp del: wp_atomic intro!: wp_event_pushed_any wp_saved_edit Extended)

lemma desk_withdraw: "desk_spec usr st now tu (Withdraw k) (delete_announcement now usr tu k)"
  unfolding delete_announcement_def
  by (rule desk_spec_op; auto simp: wp_simps Let_def simp del: wp_atomic intro!: wp_event_pushed_any wp_saved_edit Withdrawn)

lemma desk_spec_check: "(b \<Longrightarrow> desk_spec usr st now tu req m) \<Longrightarrow> desk_spec usr st now tu req (seq (check b n d) (\<lambda>_. m))"
  by (auto simp: desk_spec_def wp_simps Same)

lemma desk_spec_allow: "(r = Inr True \<Longrightarrow> desk_spec usr st now tu req m) \<Longrightarrow> desk_spec usr st now tu req (seq (allow r n d) (\<lambda>_. m))"
  by (auto simp: desk_spec_def wp_simps Same split: sum.split)

lemma desk_spec_quiet: "desk_spec usr st now tu req m \<Longrightarrow> desk_spec usr st now tu req (quiet m)"
  by (simp add: desk_spec_def wp_simps)

lemma desk_announce: "desk_spec usr st now tu (Announce k body) (post_announcement now k usr tu body)"
  unfolding post_announcement_def Let_def
  by (intro desk_spec_check desk_spec_op;
      auto simp: wp_simps simp del: wp_atomic intro!: wp_event_pushed_any wp_saved_edit Announced)

lemma desk_go_offline: "desk_spec usr st now tu (GoOffline device) (go_offline now usr tu device)"
  unfolding go_offline_def
  by (rule desk_spec_op; auto simp: wp_simps Locked simp del: wp_atomic intro!: wp_event_pushed_any wp_saved_edit)

lemma desk_takeover: "desk_spec usr st now tu (ForceTakeover device) (force_takeover now usr tu device)"
  unfolding force_takeover_def
  by (rule desk_spec_op; auto simp: wp_simps TakenOver simp del: wp_atomic intro!: wp_event_pushed_any wp_saved_edit)

lemma desk_unlock: "desk_spec usr st now tu ForceUnlock (force_unlock now usr st tu)"
  unfolding force_unlock_def
  by (intro desk_spec_check desk_spec_allow desk_spec_op;
      auto simp: wp_simps Unlocked simp del: wp_atomic intro!: wp_event_pushed_any wp_saved_edit)

lemma desk_call_judge: "desk_spec usr st now tu (CallJudge i) (call_judge usr tu i)"
  unfolding call_judge_def desk_spec_def
  by (auto simp: wp_simps Let_def Same split: option.split prod.split)

section \<open>Deleting an event\<close>

definition event_buried :: "instant \<Rightarrow> uid \<Rightarrow> db \<Rightarrow> db \<Rightarrow> bool" where
  "event_buried now tu s s' \<longleftrightarrow> (\<exists>s1. rows_ok s1 \<and> (\<forall>w. read_object s1 w = map_option (buried now tu) (read_object s w)) \<and> rest_kept s1 s')"

lemma push_results_rest:
  assumes "rows_ok s"
  shows "wp (push_results now us cat) (\<lambda>_ out. rest_kept s (fst out)) (\<lambda>_ out. rest_kept s (fst out)) (s, c)"
proof -
  have rated: "wp (recompute_ratings_for_players now us cat) (\<lambda>_ s'. rest_kept s s') (\<lambda>_ s'. rest_kept s s') s"
    using recompute_ratings_run [OF assms, of now us cat] rest_kept_passed [OF rest_kept_refl [OF assms]]
    by (auto simp: wp_def split: prod.split sum.split)
  have wins: "wp (recompute_wins now ws) (\<lambda>_ s'. rest_kept s s') (\<lambda>_ s'. rest_kept s s') s1" if "rest_kept s s1" for s1 ws
    using recompute_wins_run [of s1 now ws] rest_kept_passed [OF that] that
    by (auto simp: wp_def rest_kept_def split: prod.split sum.split)
  show ?thesis
    unfolding push_results_def wp_seq wp_on_db
    by (auto intro!: wp_mono [OF rated] wp_mono [OF wins] wp_push_all)
qed

definition deletable :: "user \<Rightarrow> tournament \<Rightarrow> bool" where
  "deletable usr t \<longleftrightarrow> is_organizer usr t = Inr True \<and> \<not> t_offline_mode t \<and> (pushed_to_vekn t \<longrightarrow> t_vekn_event_absent_at t \<noteq> None)"

lemma delete_event_spec:
  assumes "rows_ok (fst srv)"
  shows "wp (delete_tournament_endpoint now usr tu) (\<lambda>promos out. \<exists>t. get_tournament_by_uid (fst srv) tu = Some t
      \<and> deletable usr t \<and> set promos = pd_promo_uid ` set (t_promos_distributed t) \<and> event_buried now tu (fst srv) (fst out))
    (\<lambda>_ out. fst out = fst srv \<and> list_all (\<lambda>t. \<not> deletable usr t) (List.map_filter id [get_tournament_by_uid (fst srv) tu])) srv"
proof -
  have bury: "wp (soft_delete_tournament now tu) (\<lambda>out s1. out \<noteq> None \<and> rows_ok s1
      \<and> (\<forall>s'. rest_kept s1 s' \<longrightarrow> event_buried now tu (fst srv) s')) (\<lambda>_ _. False) (fst srv)"
    if "get_tournament_by_uid (fst srv) tu = Some t" for t
    using soft_delete_buries [OF assms, where now = now and u = tu] that
    by (auto simp: wp_def event_buried_def split: prod.splits sum.splits option.splits)
  have rest: "wp (swallow (push_results now us cat)) (\<lambda>_ out. rest_kept s (fst out)) (\<lambda>_ _. False) (s, c)" if "rows_ok s" for s c us cat
    unfolding wp_swallow using push_results_rest [OF that] by (rule wp_mono) simp_all
  have promos: "set (promo_recompute_diff (Some t) None) = pd_promo_uid ` set (t_promos_distributed t)" for t
    by (simp add: promo_recompute_diff_def List.map_filter_simps)
  show ?thesis
  proof (cases "get_tournament_by_uid (fst srv) tu")
    case None
    then show ?thesis by (simp add: delete_tournament_endpoint_def wp_simps List.map_filter_simps)
  next
    case (Some t)
    show ?thesis
      unfolding delete_tournament_endpoint_def
      by (auto simp: wp_simps Some promos rest_kept_refl deletable_def List.map_filter_simps
          intro!: wp_mono [OF bury [OF Some]] wp_push_all wp_mono [OF rest])
  qed
qed

lemma event_buried_edits:
  assumes "rows_ok s" and "event_buried now tu s s'" and "get_tournament_by_uid s tu = Some t"
    and "R t (t\<lparr>deleted_at := Some now, modified := now\<rparr>)"
  shows "edits R tu s s'"
proof -
  obtain s1 where s1: "\<And>w. read_object s1 w = map_option (buried now tu) (read_object s w)" "rest_kept s1 s'"
    using assms(2) by (auto simp: event_buried_def)
  have get: "get_tournament_by_uid s' u = Option.bind (read_object s u) (as_tournament \<circ> buried now tu)" for u
    using rest_kept_decoded [OF s1(2), of as_tournament]
    by (simp add: get_tournament_by_uid_def get_object_full_read s1(1) Option.bind_map_option comp_def)
  have other: "Option.bind (read_object s u) (as_tournament \<circ> buried now tu) = Option.bind (read_object s u) as_tournament" if "u \<noteq> tu" for u
  proof (cases "read_object s u")
    case (Some x)
    then have "obj_uid x = u" by (rule stored_object(1) [OF assms(1)])
    then show ?thesis using Some that by (cases x) (simp_all add: buried_def)
  qed simp
  have "uid t = tu" by (rule tournament_keyed [OF assms(1,3)])
  moreover have "read_object s tu = Some (OTournament t)" using assms(3) by (simp add: get_tournament_iff)
  ultimately have "get_tournament_by_uid s' tu = Some (t\<lparr>deleted_at := Some now, modified := now\<rparr>)"
    by (simp add: get buried_def)
  moreover have "get_tournament_by_uid s' u = get_tournament_by_uid s u" if "u \<noteq> tu" for u
    unfolding get other [OF that] by (simp add: get_tournament_by_uid_def get_object_full_read)
  moreover have "rows_ok s'" using s1(2) by (simp add: rest_kept_def)
  ultimately show ?thesis using assms(3,4) by (simp add: edits_def)
qed

lemma desk_delete: "desk_spec usr st now tu DeleteEvent (delete_tournament_endpoint now usr tu)"
  unfolding desk_spec_def
proof (intro allI impI)
  fix srv :: server
  assume rows: "rows_ok (fst srv)"
  show "wp (delete_tournament_endpoint now usr tu) (\<lambda>_ out. edits (desk_edit usr st now DeleteEvent) tu (fst srv) (fst out))
      (\<lambda>_ out. edits (desk_edit usr st now DeleteEvent) tu (fst srv) (fst out)) srv"
    by (rule wp_mono [OF delete_event_spec [OF rows]])
      (auto simp: Same [OF _ rows] deletable_def intro!: event_buried_edits [OF rows] Buried)
qed

text \<open>Every handler, whatever comes of it, makes one edit of the machine on the event its path names.\<close>

lemma desk_handler_spec: "desk_spec usr st now tu req (desk_handler h now usr st tu req)"
  by (cases req) (simp_all add: desk_add_organizer desk_remove_organizer desk_upload_banner desk_delete_banner desk_timers
      desk_add_time desk_withdraw desk_announce desk_call_judge desk_go_offline desk_takeover desk_unlock desk_delete desk_spec_quiet)

section \<open>One request\<close>

definition desk_tables :: "app \<Rightarrow> db" where "desk_tables a = as_db (fst a)"

lemma require_user_run:
  "\<exists>r. get_current_user cfg now rq (fst a) = (r, fst a) \<and> snd (require_user cfg now rq a) = a
     \<and> (case r of Inl _ \<Rightarrow> \<exists>e. fst (require_user cfg now rq a) = Inl e | Inr x \<Rightarrow> fst (require_user cfg now rq a) = Inr x)"
proof -
  have "snd (get_current_user cfg now rq (fst a)) = fst a"
    using reads_current_user [of cfg now rq] by (simp add: reads_def)
  then obtain r where r: "get_current_user cfg now rq (fst a) = (r, fst a)" by (metis prod.collapse)
  show ?thesis
    by (cases r) (simp_all add: r require_user_def authed_def split: error.split)
qed

lemma desk_call_run:
  assumes "rows_ok (desk_tables a)"
  shows "case get_current_user cfg (dc_now c) (dc_http c) (fst a) of
      (Inl _, _) \<Rightarrow> snd (desk_call cfg h c a) = a
    | (Inr (usr, st), _) \<Rightarrow> edits (desk_edit usr st (dc_now c) (dc_request c)) (dc_event c) (desk_tables a) (desk_tables (snd (desk_call cfg h c a)))"
proof -
  obtain r where r: "get_current_user cfg (dc_now c) (dc_http c) (fst a) = (r, fst a)"
    "snd (require_user cfg (dc_now c) (dc_http c) a) = a"
    "case r of Inl _ \<Rightarrow> \<exists>e. fst (require_user cfg (dc_now c) (dc_http c) a) = Inl e | Inr x \<Rightarrow> fst (require_user cfg (dc_now c) (dc_http c) a) = Inr x"
    using require_user_run by blast
  show ?thesis
  proof (cases r)
    case (Inl e)
    with r(3) obtain e' where "fst (require_user cfg (dc_now c) (dc_http c) a) = Inl e'" by auto
    with r(2) have "require_user cfg (dc_now c) (dc_http c) a = (Inl e', a)" by (simp add: prod_eq_iff)
    then show ?thesis by (simp add: Inl r(1) desk_call_def seq_def)
  next
    case (Inr x)
    obtain usr st where x: "x = (usr, st)" by (cases x)
    have "require_user cfg (dc_now c) (dc_http c) a = (Inr (usr, st), a)" using r(2,3) by (simp add: Inr x prod_eq_iff)
    then have run: "desk_call cfg h c a = on_server (desk_handler h (dc_now c) usr st (dc_event c) (dc_request c)) a"
      by (simp add: desk_call_def seq_def)
    have "wp (on_server (desk_handler h (dc_now c) usr st (dc_event c) (dc_request c)))
        (\<lambda>_ a'. edits (desk_edit usr st (dc_now c) (dc_request c)) (dc_event c) (desk_tables a) (desk_tables a'))
        (\<lambda>_ a'. edits (desk_edit usr st (dc_now c) (dc_request c)) (dc_event c) (desk_tables a) (desk_tables a')) a"
      unfolding wp_on_server
      by (rule wp_mono [OF desk_handler_spec [unfolded desk_spec_def, rule_format]])
        (use assms in \<open>auto simp: desk_tables_def\<close>)
    then show ?thesis unfolding run [symmetric] wp_state by (simp add: Inr x r(1))
  qed
qed

text \<open>C37: The desk refines its machine: a request changes the event its path names by one edit that
  the machine allows the member who is signed in, and no other event; the tables stay consistent;
  a request nobody is signed in for changes nothing.\<close>

theorem desk_refines_machine:
  assumes "rows_ok (desk_tables a)"
  shows "case get_current_user cfg (dc_now c) (dc_http c) (fst a) of
      (Inl _, _) \<Rightarrow> snd (desk_call cfg h c a) = a
    | (Inr (usr, st), _) \<Rightarrow> edits (desk_edit usr st (dc_now c) (dc_request c)) (dc_event c) (desk_tables a) (desk_tables (snd (desk_call cfg h c a)))"
  by (rule desk_call_run [OF assms])

definition desk_moves :: "desk_call \<Rightarrow> db \<Rightarrow> db \<Rightarrow> bool" where
  "desk_moves c = edits (\<lambda>t t'. \<exists>usr st. desk_edit usr st (dc_now c) (dc_request c) t t') (dc_event c)"

lemma desk_call_moves:
  assumes "rows_ok (desk_tables a)"
  shows "desk_moves c (desk_tables a) (desk_tables (snd (desk_call cfg h c a)))"
proof -
  have weaken: "desk_moves c s s'" if "edits (desk_edit usr st (dc_now c) (dc_request c)) (dc_event c) s s'" for usr st s s'
    using that unfolding desk_moves_def edits_def by (auto intro: option.rel_mono_strong)
  have "desk_moves c (desk_tables a) (desk_tables a)"
    unfolding desk_moves_def by (rule edits_refl [OF assms]) (blast intro: Idle)
  then show ?thesis
    using desk_call_run [OF assms, where cfg = cfg and c = c and h = h] weaken by (auto split: prod.splits sum.splits)
qed

text \<open>What every edit keeps holds of every event after any run of requests.\<close>

lemma desk_run_keeps:
  assumes "rows_ok (desk_tables a)" and "list_all ok calls"
    and "\<And>c usr st u t t'. ok c \<Longrightarrow> dc_event c = u \<Longrightarrow> P u t \<Longrightarrow> desk_edit usr st (dc_now c) (dc_request c) t t' \<Longrightarrow> P u t'"
  shows "rows_ok (desk_tables (desk_run cfg h calls a))
    \<and> (\<forall>u t. get_tournament_by_uid (desk_tables a) u = Some t \<and> P u t \<longrightarrow>
         (\<exists>t'. get_tournament_by_uid (desk_tables (desk_run cfg h calls a)) u = Some t' \<and> P u t'))"
  using assms(1,2)
proof (induction calls arbitrary: a)
  case (Cons c calls)
  let ?a = "snd (desk_call cfg h c a)"
  have move: "desk_moves c (desk_tables a) (desk_tables ?a)" by (rule desk_call_moves [OF Cons.prems(1)])
  then have rows: "rows_ok (desk_tables ?a)" by (simp add: desk_moves_def edits_def)
  have step: "\<exists>t'. get_tournament_by_uid (desk_tables ?a) u = Some t' \<and> P u t'"
    if "get_tournament_by_uid (desk_tables a) u = Some t" "P u t" for u t
    using move that assms(3) [of c] Cons.prems(2)
    by (cases "u = dc_event c") (auto simp: desk_moves_def edits_def option_rel_Some1)
  have run: "desk_run cfg h (c # calls) a = desk_run cfg h calls ?a" by (simp add: desk_run_def)
  have ok: "list_all ok calls" using Cons.prems(2) by simp
  show ?case unfolding run using Cons.IH [OF rows ok] step by blast
qed (simp add: desk_run_def)

section \<open>Bounds\<close>

definition desk_ok :: "tournament \<Rightarrow> bool" where
  "desk_ok t \<longleftrightarrow> t_organizers_uids t \<noteq> []
     \<and> (tm_paused (t_timer t) \<longleftrightarrow> tm_started_at (t_timer t) = None)
     \<and> list_all (\<lambda>(_, n). 0 < n \<and> n \<le> 1800) (t_table_extra_time t)
     \<and> length (t_announcements t) \<le> 20
     \<and> list_all (\<lambda>x. an_body x \<noteq> [] \<and> length (an_body x) \<le> 280) (t_announcements t)"

lemma list_all_put: "list_all (\<lambda>(_, n). P n) d \<Longrightarrow> P v \<Longrightarrow> list_all (\<lambda>(_, n). P n) (put k v d)"
  by (induction k v d rule: put.induct) auto

lemma list_all_lookup: "list_all (\<lambda>(_, n). P n) d \<Longrightarrow> map_of d k = Some v \<Longrightarrow> P v"
  by (induction d) (auto split: if_splits)

lemma list_all_last_n: "list_all P xs \<Longrightarrow> list_all P (last_n n xs)" "length (last_n n xs) \<le> n"
  by (auto simp: last_n_def list_all_iff dest: in_set_dropD)

lemma desk_edit_ok: "desk_edit usr st now req t t' \<Longrightarrow> desk_ok t \<Longrightarrow> desk_ok t'"
proof (induction rule: desk_edit.induct)
  case (Removed t u)
  then show ?case by (cases "t_organizers_uids t") (auto simp: desk_ok_def)
next
  case (Extended t n extra tbl)
  have "0 < extra"
    using Extended(4,5,7) by (auto simp: desk_ok_def dest: list_all_lookup split: option.splits)
  then show ?case
    using Extended(6,7) by (auto simp: desk_ok_def MAX_EXTRA_TIME_def intro: list_all_put)
next
  case (Announced t body k)
  have body: "strip body \<noteq> []" "length (strip body) \<le> 280" using Announced(3,4) by (simp_all add: MAX_ANNOUNCEMENT_LEN_def)
  show ?case
    using Announced(5) body list_all_last_n(2) [of 20]
    by (auto simp: desk_ok_def MAX_ANNOUNCEMENTS_def intro!: list_all_last_n(1))
next
  case (Withdrawn t k)
  then show ?case by (auto simp: desk_ok_def list_all_iff intro: le_trans [OF length_filter_le])
qed (auto simp: desk_ok_def paused_timer_def new_timer_state_def locked_by_def unlocked_def)


section \<open>The lock\<close>

fun lifts_lock :: "desk_request \<Rightarrow> bool" where
  "lifts_lock (ForceTakeover _) = True" | "lifts_lock ForceUnlock = True" | "lifts_lock _ = False"

text \<open>The same event, its organizers aside\<close>

definition under_lock :: "tournament \<Rightarrow> tournament \<Rightarrow> bool" where
  "under_lock t t' \<longleftrightarrow> t'\<lparr>t_organizers_uids := t_organizers_uids t, modified := modified t\<rparr> = t"

lemma desk_edit_locked:
  assumes "desk_edit usr st now req t t'" and "t_offline_mode t" and "\<not> lifts_lock req"
  shows "under_lock t t'"
  using assms
proof (induction rule: desk_edit.induct)
  case (Idle req t)
  then show ?case by (simp add: under_lock_def)
next
  case (Added t u)
  then show ?case by (simp add: under_lock_def)
next
  case (Removed t u)
  then show ?case by (simp add: under_lock_def)
qed (fast | simp)+

lemma under_lock_trans:
  assumes "under_lock t t'" and "under_lock t' t''"
  shows "under_lock t t''"
proof -
  have "t''\<lparr>t_organizers_uids := t_organizers_uids t, modified := modified t\<rparr>
      = (t''\<lparr>t_organizers_uids := t_organizers_uids t', modified := modified t'\<rparr>)\<lparr>t_organizers_uids := t_organizers_uids t, modified := modified t\<rparr>"
    by simp
  also have "\<dots> = t'\<lparr>t_organizers_uids := t_organizers_uids t, modified := modified t\<rparr>"
    using assms(2) by (simp only: under_lock_def)
  also have "\<dots> = t" using assms(1) by (simp only: under_lock_def)
  finally show ?thesis unfolding under_lock_def .
qed

lemma under_lock_locked:
  assumes "under_lock t t'"
  shows "t_offline_mode t' = t_offline_mode t"
proof -
  have "t_offline_mode t' = t_offline_mode (t'\<lparr>t_organizers_uids := t_organizers_uids t, modified := modified t\<rparr>)" by simp
  then show ?thesis using assms by (simp only: under_lock_def)
qed


section \<open>Deletion\<close>

definition deleted_properly :: "instant \<Rightarrow> user \<Rightarrow> uid \<Rightarrow> db \<Rightarrow> uid list res \<Rightarrow> db \<Rightarrow> bool" where
  "deleted_properly now usr tu s out s' \<longleftrightarrow> (case get_tournament_by_uid s tu of
     None \<Rightarrow> s' = s \<and> (\<exists>d. out = Inl d)
   | Some t \<Rightarrow> if deletable usr t
       then (\<exists>promos. out = Inr promos \<and> set promos = pd_promo_uid ` set (t_promos_distributed t)) \<and> event_buried now tu s s'
       else s' = s \<and> (\<exists>d. out = Inl d))"

text \<open>C40: Deleting an event: an organizer of it may, unless it is locked for offline use or known to the
  federation's calendar and not confirmed gone from there; then its row, its live decks and its live
  sanctions all carry the tombstone, nothing else changes but the figures of members, and the promos
  whose stock is derived again are exactly those it had given out.  Anything else is refused and
  changes nothing.\<close>

theorem event_deletion:
  assumes "rows_ok s"
  shows "case delete_tournament_endpoint now usr tu (s, c) of (out, (s', _)) \<Rightarrow> deleted_properly now usr tu s out s'"
  using delete_event_spec [of "(s, c)" now usr tu] assms
  by (auto simp: wp_def deleted_properly_def List.map_filter_simps split: prod.splits sum.splits option.splits if_splits)

text \<open>A row that carries a deletion mark loses it with the next request at its desk: the handlers save
  the event with no \<open>deleted_at\<close> of its own, and the row is live again under a document that says
  it is deleted.\<close>

lemma deleted_event_revived:
  assumes "rows_ok s" and "get_tournament_by_uid s tu = Some t" and "deleted_at t = Some d"
    and "is_organizer usr t = Inr True" and "\<not> t_offline_mode t" and "strip body \<noteq> []" and "length (strip body) \<le> 280"
  shows "\<exists>t' s' c' r. post_announcement now k usr tu body (s, c) = (Inr t', (s', c')) \<and> deleted_at t' = Some d
    \<and> map_of (db_objects s') tu = Some r \<and> row_deleted_at r = None"
proof -
  define t' where "t' = t\<lparr>t_announcements := last_n MAX_ANNOUNCEMENTS (t_announcements t @
    [\<lparr>an_id = k, an_body = strip body, an_created_at = now, an_author_uid = uid usr, an_author_name = u_name usr\<rparr>]), modified := now\<rparr>"
  have old: "read_object s tu = Some (OTournament t)" and u: "uid t = tu"
    using assms(2) tournament_keyed [OF assms(1,2)] by (simp_all add: get_tournament_iff)
  have t': "uid t' = tu" "t_event_code t' = t_event_code t" "deleted_at t' = Some d" by (simp_all add: t'_def u assms(3))
  have free: "\<not> index_conflict (OTournament t') s"
    by (rule object_update_free [OF assms(1), where x = "OTournament t"]) (use old u t' in simp_all)
  obtain bd s' where save: "save_object now (OTournament t') None s = Inr (bd, s')"
    using save_object_total [of "OTournament t'" s now None] free by auto
  obtain r where r: "map_of (db_objects s') tu = Some r" "row_deleted_at r = None"
    by (rule save_object_Inr [OF save]) (auto simp: t'(1) upserted_row_def)
  have "post_announcement now k usr tu body (s, c) = (Inr t', (s', broadcast_precomputed now bd None c))"
    using assms(2,4-7) save
    by (simp add: post_announcement_def MAX_ANNOUNCEMENT_LEN_def tournament_transaction_def on_db_def transaction_def seq_def check_def
        announced_event_def organized_def found_event_def allow_def lift_res_def online_def saved_def save_event_def atomic_def
        pushed_def push_bd_def Let_def t'_def)
  then show ?thesis using r t'(3) by blast
qed

section \<open>A sample desk\<close>

definition sample_desk :: tournament where
  "sample_desk = sample_open\<lparr>t_organizers_uids := [''k'']\<rparr>"

lemma sample_desk_table:
  assumes "uid t = ''t''" and "t_event_code t = []"
  obtains d where "rows_ok (as_db (sample_server d False None))" "get_user_by_uid d ''k'' = Some sample_ic"
    "get_tournament_by_uid (as_db (sample_server d False None)) ''t'' = Some t"
proof -
  obtain s0 where s0: "rows_ok s0" "read_object s0 = Map.empty(''k'' \<mapsto> OUser sample_ic, ''t'' \<mapsto> OTournament sample_open)"
    by (rule sample_event_table)
  have t: "index_keys (OTournament t) = None" "as_stored (OTournament t) = OTournament t" using assms by simp_all
  obtain bd d where d: "save_object_from_model (Instant 2026 1 1 0) (OTournament t) s0 = Inr (bd, d)"
      "read_object d = (read_object s0)(obj_uid (OTournament t) \<mapsto> OTournament t)" "rows_ok s0 \<Longrightarrow> rows_ok d"
    using save_plain [OF t, of "Instant 2026 1 1 0" s0] by blast
  have same: "db_objects (as_db (sample_server d False None)) = db_objects d" by (simp add: sample_server_def)
  have "rows_ok (as_db (sample_server d False None))" using d(3) [OF s0(1)] rows_ok_objects [OF same] by simp
  moreover have "get_user_by_uid d ''k'' = Some sample_ic"
    by (simp add: get_user_by_uid_def get_object_full_read d(2) s0(2) assms(1))
  moreover have "get_tournament_by_uid (as_db (sample_server d False None)) ''t'' = Some t"
    by (simp add: get_tournament_by_uid_def get_object_full_def same) (simp add: get_object_full_def [symmetric] get_object_full_read d(2) assms(1))
  ultimately show thesis by (rule that)
qed

definition sample_call :: "desk_request \<Rightarrow> desk_call" where
  "sample_call r = \<lparr>dc_now = Instant 2026 1 2 0, dc_http = sample_request ''/api/tournaments/t'', dc_event = ''t'', dc_request = r\<rparr>"

definition sample_fingerprint :: fingerprint where "sample_fingerprint = (\<lambda>_. [])"

lemma sample_desk_simps: "uid sample_desk = ''t''" "t_event_code sample_desk = []" "desk_ok sample_desk"
    "\<not> t_offline_mode sample_desk" "deletable sample_ic sample_desk" "t_promos_distributed sample_desk = []"
  by (simp_all add: sample_desk_def sample_open_def new_tournament_def desk_ok_def new_timer_state_def deletable_def
      is_organizer_iff sample_ic_simps pushed_to_vekn_def)

theorem desk_refines_machine_witness:
  "\<exists>d. edits (desk_edit sample_ic first_party (Instant 2026 1 2 0) (Announce ''a'' ''Hello'')) ''t''
     (as_db (sample_server d False None))
     (desk_tables (snd (desk_call (sample_config (sample_claims ''access'')) sample_fingerprint (sample_call (Announce ''a'' ''Hello''))
        (sample_server d False None, sample_sse))))"
proof -
  obtain d where d: "rows_ok (as_db (sample_server d False None))" "get_user_by_uid d ''k'' = Some sample_ic"
    by (rule sample_desk_table [OF sample_desk_simps(1,2)])
  show ?thesis
    using desk_refines_machine [where a = "(sample_server d False None, sample_sse)" and cfg = "sample_config (sample_claims ''access'')"
      and c = "sample_call (Announce ''a'' ''Hello'')" and h = sample_fingerprint] d sample_signed_in [OF d(2) sample_ic_simps(1)]
    by (auto simp: desk_tables_def sample_call_def)
qed



theorem event_deletion_witness:
  "\<exists>s out s' c'. delete_tournament_endpoint (Instant 2026 1 2 0) sample_ic ''t'' (s, sample_sse) = (out, (s', c')) \<and> out = Inr []
     \<and> event_buried (Instant 2026 1 2 0) ''t'' s s'"
proof -
  obtain d where d: "rows_ok (as_db (sample_server d False None))"
    "get_tournament_by_uid (as_db (sample_server d False None)) ''t'' = Some sample_desk"
    by (rule sample_desk_table [OF sample_desk_simps(1,2)])
  obtain out s' c' where run: "delete_tournament_endpoint (Instant 2026 1 2 0) sample_ic ''t'' (as_db (sample_server d False None), sample_sse) = (out, (s', c'))"
    by (metis prod.collapse)
  show ?thesis
    using event_deletion [OF d(1), of "Instant 2026 1 2 0" sample_ic "''t''" sample_sse] d(2) run
    by (auto simp: deleted_properly_def sample_desk_simps)
qed

end
