(* ===== verification/Spec2Isabelle.thy ===== *)
theory Spec2Isabelle
  imports Ratings_Laws Standings_Laws Promo_Stock_Laws Accounts_Laws Sanctions_Laws Event_Desk_Laws
begin

text \<open>
  \<^bold>\<open>Archon\<close>: a verification library for the back end of the VEKN's membership and tournament
  platform (\<open>backend/src\<close>), with the parts of its rule engine (\<open>engine/src\<close>) and of its web client
  the back end's promises rest on.
\<close>

end
